(* ===== verification/Launcher_Prelude.thy ===== *)
theory Launcher_Prelude
  imports Main "HOL-Library.Word" "HOL-Library.Char_ord"
begin

text \<open>
  Shared vocabulary of the development: the Rust types the launcher's code uses, its
  \<open>Result\<close>, the machine-integer operations it relies on, and generic list lemmas.

  A Rust \<open>u8\<close> is Isabelle's 8-bit \<open>char\<close>, so that byte strings have readable literals; a
  Rust \<open>String\<close> is the list of bytes of its UTF-8 encoding, which is how Rust stores it
  (\<open>len\<close> and \<open>as_bytes\<close> are then \<open>length\<close> and the identity).  \<open>usize\<close> and \<open>u64\<close> are natural
  numbers, \<open>i64\<close> is an integer; every place where the code's arithmetic saturates, is checked
  or casts is written out with the operations below.
\<close>

named_theorems limits "the numeric limits of the program, unfolded on demand"

section \<open>Types\<close>

type_synonym u8 = char
type_synonym bytes = "u8 list"
type_synonym rstring = "char list"

datatype ('a, 'e) result = Ok 'a | Err 'e

abbreviation is_Ok :: "('a, 'e) result \<Rightarrow> bool" where
  "is_Ok r \<equiv> (\<exists>a. r = Ok a)"

fun and_then :: "('a, 'e) result \<Rightarrow> ('a \<Rightarrow> ('b, 'e) result) \<Rightarrow> ('b, 'e) result" where
  "and_then (Ok a) f = f a"
| "and_then (Err e) f = Err e"

fun map_err :: "('e \<Rightarrow> 'f) \<Rightarrow> ('a, 'e) result \<Rightarrow> ('a, 'f) result" where
  "map_err f (Ok a) = Ok a"
| "map_err f (Err e) = Err (f e)"

fun ok_or :: "'e \<Rightarrow> 'a option \<Rightarrow> ('a, 'e) result" where
  "ok_or e (Some a) = Ok a"
| "ok_or e None = Err e"

lemma and_then_Ok_iff [simp]: "and_then r f = Ok b \<longleftrightarrow> (\<exists>a. r = Ok a \<and> f a = Ok b)"
  by (cases r) auto

lemma and_then_Err_iff [simp]:
  "and_then r f = Err e \<longleftrightarrow> r = Err e \<or> (\<exists>a. r = Ok a \<and> f a = Err e)"
  by (cases r) auto

lemma map_err_Ok_iff [simp]: "map_err f r = Ok b \<longleftrightarrow> r = Ok b"
  by (cases r) auto

lemma map_err_Err_iff [simp]: "map_err f r = Err e \<longleftrightarrow> (\<exists>e'. r = Err e' \<and> e = f e')"
  by (cases r) auto

lemma ok_or_Ok_iff [simp]: "ok_or e r = Ok b \<longleftrightarrow> r = Some b"
  by (cases r) auto

lemma ok_or_Err_iff [simp]: "ok_or e r = Err e' \<longleftrightarrow> r = None \<and> e = e'"
  by (cases r) auto

section \<open>Machine integers\<close>

definition USIZE_MAX :: nat where
  [limits]: "USIZE_MAX = 2 ^ 64 - 1"

definition I64_MAX :: int where
  [limits]: "I64_MAX = 2 ^ 63 - 1"

definition I64_MIN :: int where
  [limits]: "I64_MIN = - (2 ^ 63)"

definition in_i64 :: "int \<Rightarrow> bool" where
  "in_i64 i \<longleftrightarrow> I64_MIN \<le> i \<and> i \<le> I64_MAX"

text \<open>\<open>usize::saturating_add\<close>, \<open>i64::checked_add\<close>, \<open>i64::checked_sub\<close>, \<open>i64 as usize\<close>.\<close>

definition saturating_add :: "nat \<Rightarrow> nat \<Rightarrow> nat" where
  "saturating_add a b = min (a + b) USIZE_MAX"

definition checked_i64 :: "int \<Rightarrow> int option" where
  "checked_i64 i = (if in_i64 i then Some i else None)"

definition as_usize :: "int \<Rightarrow> nat" where
  "as_usize i = nat (i mod 2 ^ 64)"

lemma saturating_add_gt:
  "limit < USIZE_MAX \<Longrightarrow> limit < saturating_add a b \<longleftrightarrow> limit < a + b"
  by (auto simp: saturating_add_def min_def)

lemma saturating_add_exact: "a + b \<le> USIZE_MAX \<Longrightarrow> saturating_add a b = a + b"
  by (simp add: saturating_add_def)

lemma as_usize_nonneg: "0 \<le> i \<Longrightarrow> i \<le> I64_MAX \<Longrightarrow> as_usize i = nat i"
  by (simp add: as_usize_def I64_MAX_def)

lemma in_i64D:
  "in_i64 i \<Longrightarrow> I64_MIN \<le> i" "in_i64 i \<Longrightarrow> i \<le> I64_MAX"
  by (simp_all add: in_i64_def)

section \<open>Bytes\<close>

abbreviation CR :: u8 where "CR \<equiv> CHR 0x0D"
abbreviation LF :: u8 where "LF \<equiv> CHR 0x0A"

abbreviation crlf :: bytes where "crlf \<equiv> [CR, LF]"

abbreviation code :: "u8 \<Rightarrow> nat" where "code c \<equiv> of_char c"

lemma code_lt_256 [simp]: "code c < 256"
  by simp

fun ends_with :: "bytes \<Rightarrow> bytes \<Rightarrow> bool" where
  "ends_with xs suffix = (drop (length xs - length suffix) xs = suffix)"

fun starts_with :: "bytes \<Rightarrow> bytes \<Rightarrow> bool" where
  "starts_with xs prefix = (take (length prefix) xs = prefix)"

lemma ends_with_append [simp]: "ends_with (xs @ ys) ys"
  by simp

lemma ends_with_imp_append: "ends_with xs ys \<Longrightarrow> \<exists>zs. xs = zs @ ys"
  by (metis append_take_drop_id ends_with.simps)

lemma butlast2_append: "take (length (xs @ crlf) - 2) (xs @ crlf) = xs"
  by simp

declare ends_with.simps [simp del]

text \<open>\<open>slice::get\<close>: the bounds-checked index of the code's \<open>arguments.get(i)\<close>.\<close>

definition get :: "'a list \<Rightarrow> nat \<Rightarrow> 'a option" where
  "get xs i = (if i < length xs then Some (xs ! i) else None)"

lemma get_Some_iff [simp]: "get xs i = Some x \<longleftrightarrow> i < length xs \<and> xs ! i = x"
  by (simp add: get_def)

lemma get_None_iff [simp]: "get xs i = None \<longleftrightarrow> length xs \<le> i"
  by (simp add: get_def not_less)

lemma get_Cons_0: "get (x # xs) 0 = Some x"
  by simp

lemma get_Cons_Suc: "get (x # xs) (Suc i) = get xs i"
  by (simp add: get_def)

lemma get_Nil: "get [] i = None"
  by simp

lemmas get_simps = get_Nil get_Cons_0 get_Cons_Suc

section \<open>Generic list lemmas\<close>

lemma sum_list_le_length_times:
  "(\<And>x. x \<in> set xs \<Longrightarrow> f x \<le> (k :: nat)) \<Longrightarrow> sum_list (map f xs) \<le> k * length xs"
proof (induction xs)
  case Nil
  then show ?case by simp
next
  case (Cons x xs)
  then have "f x \<le> k" and "sum_list (map f xs) \<le> k * length xs" by simp_all
  then show ?case by simp
qed

lemma length_concat_le:
  "(\<And>x. x \<in> set xs \<Longrightarrow> length (f x) \<le> k * length (g x)) \<Longrightarrow>
   length (concat (map f xs)) \<le> k * length (concat (map g xs))"
  by (induction xs) (auto simp: distrib_left intro: add_mono)

lemma member_le_sum_list_map: "x \<in> set xs \<Longrightarrow> f x \<le> sum_list (map f xs)" for f :: "'a \<Rightarrow> nat"
  by (induction xs) auto

lemma length_le_length_concat:
  "(\<And>c. c \<in> set cs \<Longrightarrow> c \<noteq> []) \<Longrightarrow> length cs \<le> length (concat cs)"
proof (induction cs)
  case Nil
  then show ?case by simp
next
  case (Cons c cs)
  then have "c \<noteq> []" and "length cs \<le> length (concat cs)" by auto
  then show ?case by (cases c) simp_all
qed

end
