(* ===== verification/Rust_Utf8.thy ===== *)
theory Rust_Utf8
  imports Launcher_Prelude
begin

text \<open>
  UTF-8 as Rust's standard library reads it.  \<open>utf8_scan\<close> is the scanner behind
  \<open>str::from_utf8\<close> and \<open>String::from_utf8_lossy\<close>: it looks at the front of a byte string and
  says how many bytes form one encoded scalar value, or how many bytes form one maximal
  invalid subsequence.  On top of it: validity, the list of encoded characters of a string
  (\<open>str::chars\<close>), the lossy view, \<open>str::trim\<close> and \<open>str::to_ascii_uppercase\<close>.
\<close>

section \<open>The scanner\<close>

definition is_cont :: "u8 \<Rightarrow> bool" where
  "is_cont c \<longleftrightarrow> 128 \<le> code c \<and> code c < 192"

definition char_width :: "u8 \<Rightarrow> nat" where
  "char_width c =
     (if code c < 128 then 1
      else if 194 \<le> code c \<and> code c < 224 then 2
      else if 224 \<le> code c \<and> code c < 240 then 3
      else if 240 \<le> code c \<and> code c < 245 then 4
      else 0)"

text \<open>The second byte rules out overlong forms, surrogates and values above U+10FFFF.\<close>

definition second_ok :: "u8 \<Rightarrow> u8 \<Rightarrow> bool" where
  "second_ok a b \<longleftrightarrow>
     (if code a = 224 then 160 \<le> code b \<and> code b < 192
      else if code a = 237 then 128 \<le> code b \<and> code b < 160
      else if code a = 240 then 144 \<le> code b \<and> code b < 192
      else if code a = 244 then 128 \<le> code b \<and> code b < 144
      else is_cont b)"

text \<open>A missing byte reads as NUL, which is no continuation byte.\<close>

definition byte_at :: "bytes \<Rightarrow> nat \<Rightarrow> u8" where
  "byte_at bs i = (if i < length bs then bs ! i else CHR 0x00)"

definition utf8_scan :: "u8 \<Rightarrow> bytes \<Rightarrow> bool \<times> nat" where
  "utf8_scan b bs =
     (let w = char_width b in
      if w = 1 then (True, 1)
      else if w = 0 \<or> \<not> second_ok b (byte_at bs 0) then (False, 1)
      else if w = 2 then (True, 2)
      else if \<not> is_cont (byte_at bs 1) then (False, 2)
      else if w = 3 then (True, 3)
      else if \<not> is_cont (byte_at bs 2) then (False, 3)
      else (True, 4))"

lemma utf8_scan_pos: "0 < snd (utf8_scan b bs)"
  by (simp add: utf8_scan_def Let_def)

lemma byte_at_ok_less: "is_cont (byte_at bs i) \<Longrightarrow> i < length bs"
  by (auto simp: byte_at_def is_cont_def split: if_splits)

lemma second_ok_less: "second_ok b (byte_at bs i) \<Longrightarrow> i < length bs"
  by (auto simp: byte_at_def second_ok_def is_cont_def split: if_splits)

lemma char_width_cases: "char_width b \<in> {0, 1, 2, 3, 4}"
  by (simp add: char_width_def)

lemma utf8_scan_le: "snd (utf8_scan b bs) \<le> Suc (length bs)"
proof -
  have "1 < length bs" if "is_cont (byte_at bs 1)" using that by (rule byte_at_ok_less)
  moreover have "2 < length bs" if "is_cont (byte_at bs 2)" using that by (rule byte_at_ok_less)
  moreover have "0 < length bs" if "second_ok b (byte_at bs 0)" using that by (rule second_ok_less)
  ultimately show ?thesis by (auto simp: utf8_scan_def Let_def Suc_le_eq)
qed

section \<open>Chunks: scalar values and invalid subsequences\<close>

function utf8_chunks :: "bytes \<Rightarrow> (bool \<times> bytes) list" where
  "utf8_chunks [] = []"
| "utf8_chunks (b # bs) =
     (let (ok, n) = utf8_scan b bs
      in (ok, take n (b # bs)) # utf8_chunks (drop n (b # bs)))"
  by pat_completeness auto
termination
proof (relation "measure length", simp)
  fix b bs x ok n
  assume "x = utf8_scan b bs" and "(ok, n) = x"
  then have "0 < n" using utf8_scan_pos [of b bs] by (metis snd_conv)
  then show "(drop n (b # bs), b # bs) \<in> measure length" by simp
qed

definition valid_utf8 :: "bytes \<Rightarrow> bool" where
  "valid_utf8 s = list_all fst (utf8_chunks s)"

text \<open>\<open>str::chars\<close>: the encoded characters of a valid string, in order.\<close>

type_synonym rchar = bytes

definition str_chars :: "rstring \<Rightarrow> rchar list" where
  "str_chars s = map snd (utf8_chunks s)"

definition replacement_char :: bytes where
  "replacement_char = [CHR 0xEF, CHR 0xBF, CHR 0xBD]"

definition from_utf8_lossy :: "bytes \<Rightarrow> rstring" where
  "from_utf8_lossy s = concat (map (\<lambda>(ok, c). if ok then c else replacement_char) (utf8_chunks s))"

text \<open>\<open>String::from_utf8\<close>: \<open>None\<close> is its error, the bytes themselves its success.\<close>

definition from_utf8 :: "bytes \<Rightarrow> rstring option" where
  "from_utf8 s = (if valid_utf8 s then Some s else None)"

lemma utf8_chunks_Nil_iff [simp]: "utf8_chunks s = [] \<longleftrightarrow> s = []"
  by (cases s) (simp_all split: prod.split)

lemma concat_chunks: "concat (map snd (utf8_chunks s)) = s"
  by (induction s rule: utf8_chunks.induct) (simp_all split: prod.split)

lemma concat_str_chars [simp]: "concat (str_chars s) = s"
  by (simp add: str_chars_def concat_chunks)

lemma chunk_nonempty: "c \<in> set (utf8_chunks s) \<Longrightarrow> snd c \<noteq> []"
proof (induction s rule: utf8_chunks.induct)
  case (2 b bs)
  obtain ok n where scan: "utf8_scan b bs = (ok, n)" by fastforce
  then have "0 < n" using utf8_scan_pos [of b bs] by simp
  with 2 scan show ?case by auto
qed simp

lemma str_chars_nonempty: "c \<in> set (str_chars s) \<Longrightarrow> c \<noteq> []"
  by (auto simp: str_chars_def dest: chunk_nonempty)

lemma length_str_chars: "length (str_chars s) \<le> length s"
  using length_le_length_concat [of "str_chars s"] by (simp add: str_chars_nonempty)

lemma ascii_chunks [simp]:
  "code b < 128 \<Longrightarrow> utf8_chunks (b # bs) = (True, [b]) # utf8_chunks bs"
  by (simp add: utf8_scan_def char_width_def)

declare utf8_chunks.simps(2) [simp del]

lemma valid_utf8_Nil [simp]: "valid_utf8 []"
  by (simp add: valid_utf8_def)

lemma valid_utf8_ascii [simp]: "code b < 128 \<Longrightarrow> valid_utf8 (b # bs) = valid_utf8 bs"
  by (simp add: valid_utf8_def)

lemma str_chars_Nil [simp]: "str_chars [] = []"
  by (simp add: str_chars_def)

lemma str_chars_ascii [simp]: "code b < 128 \<Longrightarrow> str_chars (b # bs) = [b] # str_chars bs"
  by (simp add: str_chars_def)

section \<open>Concatenation and the lossy view\<close>

lemma byte_at_append [simp]: "i < length bs \<Longrightarrow> byte_at (bs @ cs) i = byte_at bs i"
  by (simp add: byte_at_def nth_append)

lemma utf8_scan_append:
  assumes "utf8_scan b bs = (True, n)"
  shows "utf8_scan b (bs @ cs) = (True, n)"
proof -
  have s: "second_ok b (byte_at (bs @ cs) 0)" if "second_ok b (byte_at bs 0)"
    using that second_ok_less [OF that] by simp
  have c: "is_cont (byte_at (bs @ cs) i)" if "is_cont (byte_at bs i)" for i
    using that byte_at_ok_less [OF that] by simp
  from assms show ?thesis
    by (auto simp: utf8_scan_def Let_def s c split: if_splits)
qed

lemma utf8_scan_take:
  assumes "utf8_scan b bs = (True, n)"
  shows "utf8_scan b (take (n - 1) bs) = (True, n)"
proof -
  have "byte_at (take k bs) i = byte_at bs i" if "i < k" for i k
    using that by (simp add: byte_at_def)
  with assms show ?thesis
    by (auto simp: utf8_scan_def Let_def split: if_splits)
qed

lemma utf8_chunks_append:
  "valid_utf8 a \<Longrightarrow> utf8_chunks (a @ b) = utf8_chunks a @ utf8_chunks b"
proof (induction a rule: utf8_chunks.induct)
  case 1
  then show ?case by simp
next
  case (2 c cs)
  obtain ok n where scan: "utf8_scan c cs = (ok, n)" by fastforce
  with "2.prems" have ok: "ok = True" and rest: "valid_utf8 (drop n (c # cs))"
    by (simp_all add: valid_utf8_def utf8_chunks.simps(2))
  have n: "0 < n" "n \<le> Suc (length cs)"
    using utf8_scan_pos [of c cs] utf8_scan_le [of c cs] scan by simp_all
  have "utf8_chunks (drop n (c # cs) @ b) = utf8_chunks (drop n (c # cs)) @ utf8_chunks b"
    using "2.IH" [of "(ok, n)" ok n] scan rest by simp
  moreover from scan ok have "utf8_scan c (cs @ b) = (True, n)"
    by (simp add: utf8_scan_append)
  ultimately show ?case
    using scan ok n by (simp add: utf8_chunks.simps(2) drop_Cons' take_Cons')
qed

lemma valid_utf8_append [simp]: "valid_utf8 a \<Longrightarrow> valid_utf8 (a @ b) \<longleftrightarrow> valid_utf8 b"
  unfolding valid_utf8_def [of "a @ b"] by (simp add: utf8_chunks_append) (simp add: valid_utf8_def)

lemma str_chars_append: "valid_utf8 a \<Longrightarrow> str_chars (a @ b) = str_chars a @ str_chars b"
  by (simp add: str_chars_def utf8_chunks_append)

lemma valid_utf8_concat: "(\<And>x. x \<in> set xs \<Longrightarrow> valid_utf8 x) \<Longrightarrow> valid_utf8 (concat xs)"
  by (induction xs) simp_all

lemma valid_chunk:
  assumes "utf8_scan b bs = (True, n)"
  shows "utf8_chunks (take n (b # bs)) = [(True, take n (b # bs))]"
proof -
  have n: "0 < n" "n \<le> Suc (length bs)"
    using utf8_scan_pos [of b bs] utf8_scan_le [of b bs] assms by simp_all
  then have "take n (b # bs) = b # take (n - 1) bs" by (cases n) simp_all
  with n utf8_scan_take [OF assms] show ?thesis by (simp add: utf8_chunks.simps(2))
qed

lemma chunk_valid: "(True, c) \<in> set (utf8_chunks s) \<Longrightarrow> utf8_chunks c = [(True, c)]"
proof (induction s rule: utf8_chunks.induct)
  case 1
  then show ?case by simp
next
  case (2 b bs)
  obtain ok n where scan: "utf8_scan b bs = (ok, n)" by fastforce
  from "2.prems" scan consider "ok" "c = take n (b # bs)" | "(True, c) \<in> set (utf8_chunks (drop n (b # bs)))"
    by (auto simp: utf8_chunks.simps(2))
  then show ?case
  proof cases
    case 1
    with scan show ?thesis using valid_chunk [of b bs n] by simp
  next
    case 2
    with "2.IH" scan show ?thesis by simp
  qed
qed

lemma valid_chunkI: "(True, c) \<in> set (utf8_chunks s) \<Longrightarrow> valid_utf8 c"
  by (simp add: valid_utf8_def chunk_valid)

lemma valid_replacement_char: "valid_utf8 replacement_char"
  by (simp add: valid_utf8_def replacement_char_def utf8_chunks.simps utf8_scan_def char_width_def
      second_ok_def is_cont_def byte_at_def)

lemma valid_from_utf8_lossy: "valid_utf8 (from_utf8_lossy s)"
  unfolding from_utf8_lossy_def
proof (rule valid_utf8_concat)
  fix x
  assume "x \<in> set (map (\<lambda>(ok, c). if ok then c else replacement_char) (utf8_chunks s))"
  then obtain ok c where "(ok, c) \<in> set (utf8_chunks s)" and "x = (if ok then c else replacement_char)"
    by auto
  then show "valid_utf8 x"
    by (cases ok) (simp_all add: valid_replacement_char valid_chunkI)
qed

lemma from_utf8_lossy_valid: "valid_utf8 s \<Longrightarrow> from_utf8_lossy s = s"
proof -
  assume "valid_utf8 s"
  then have "map (\<lambda>(ok, c). if ok then c else replacement_char) (utf8_chunks s) = map snd (utf8_chunks s)"
    by (auto simp: valid_utf8_def list_all_iff)
  then show ?thesis by (simp only: from_utf8_lossy_def concat_chunks)
qed

lemma length_from_utf8_lossy: "length (from_utf8_lossy s) \<le> 3 * length s"
proof -
  have "length (case c of (ok, x) \<Rightarrow> if ok then x else replacement_char) \<le> 3 * length (snd c)"
    if "c \<in> set (utf8_chunks s)" for c
    using chunk_nonempty [OF that] by (cases "snd c") (auto simp: replacement_char_def split: prod.split)
  then show ?thesis
    unfolding from_utf8_lossy_def
    using length_concat_le [of "utf8_chunks s" "\<lambda>(ok, c). if ok then c else replacement_char" 3 snd]
    by (simp add: concat_chunks)
qed

lemma from_utf8_eval [simp]:
  "valid_utf8 s \<Longrightarrow> from_utf8 s = Some s" "\<not> valid_utf8 s \<Longrightarrow> from_utf8 s = None"
  by (simp_all add: from_utf8_def)

lemma from_utf8_Some_iff [simp]: "from_utf8 s = Some t \<longleftrightarrow> valid_utf8 s \<and> t = s"
  by (auto simp: from_utf8_def)

lemma from_utf8_None_iff [simp]: "from_utf8 s = None \<longleftrightarrow> \<not> valid_utf8 s"
  by (simp add: from_utf8_def)

section \<open>Trimming and ASCII case\<close>

text \<open>\<open>char::is_whitespace\<close> (the Unicode property White_Space) on an encoded character.\<close>

definition is_whitespace :: "rchar \<Rightarrow> bool" where
  "is_whitespace c =
     (case map code c of
        [a] \<Rightarrow> 9 \<le> a \<and> a \<le> 13 \<or> a = 32
      | [a, b] \<Rightarrow> a = 194 \<and> (b = 133 \<or> b = 160)
      | [a, b, d] \<Rightarrow>
          a = 225 \<and> b = 154 \<and> d = 128 \<or>
          a = 226 \<and> b = 128 \<and> (128 \<le> d \<and> d \<le> 138 \<or> d = 168 \<or> d = 169 \<or> d = 175) \<or>
          a = 226 \<and> b = 129 \<and> d = 159 \<or>
          a = 227 \<and> b = 128 \<and> d = 128
      | _ \<Rightarrow> False)"

definition trim_chars :: "rchar list \<Rightarrow> rchar list" where
  "trim_chars cs = rev (dropWhile is_whitespace (rev (dropWhile is_whitespace cs)))"

definition trim :: "rstring \<Rightarrow> rstring" where
  "trim s = concat (trim_chars (str_chars s))"

definition ascii_upper :: "u8 \<Rightarrow> u8" where
  "ascii_upper c = (if 97 \<le> code c \<and> code c \<le> 122 then char_of (code c - 32) else c)"

definition to_ascii_uppercase :: "rstring \<Rightarrow> rstring" where
  "to_ascii_uppercase s = map ascii_upper s"

definition eq_ignore_ascii_case :: "rstring \<Rightarrow> rstring \<Rightarrow> bool" where
  "eq_ignore_ascii_case a b = (to_ascii_uppercase a = to_ascii_uppercase b)"

lemma length_to_ascii_uppercase [simp]: "length (to_ascii_uppercase s) = length s"
  by (simp add: to_ascii_uppercase_def)

lemma trim_chars_sublist: "\<exists>xs ys. cs = xs @ trim_chars cs @ ys"
proof -
  let ?d = "dropWhile is_whitespace cs"
  have "cs = takeWhile is_whitespace cs @ ?d" by simp
  moreover have "?d = rev (dropWhile is_whitespace (rev ?d)) @ rev (takeWhile is_whitespace (rev ?d))"
    by (metis rev_append rev_rev_ident takeWhile_dropWhile_id)
  ultimately show ?thesis unfolding trim_chars_def by metis
qed

lemma length_trim_le: "length (trim s) \<le> length s"
proof -
  obtain xs ys where "str_chars s = xs @ trim_chars (str_chars s) @ ys"
    using trim_chars_sublist by blast
  then have "concat (str_chars s) = concat xs @ trim s @ concat ys"
    by (metis concat_append trim_def)
  then show ?thesis by (metis concat_str_chars length_append le_add1 le_add2 le_trans)
qed

lemma code_ascii_upper:
  "code (ascii_upper c) = (if 97 \<le> code c \<and> code c \<le> 122 then code c - 32 else code c)"
  by (simp add: ascii_upper_def less_imp_diff_less)

text \<open>Concrete letters, for evaluating upper-cased literals with \<open>simp\<close>.\<close>

lemma ascii_upper_letter [simp]:
  "ascii_upper CHR ''a'' = CHR ''A''"
  "ascii_upper CHR ''b'' = CHR ''B''"
  "ascii_upper CHR ''c'' = CHR ''C''"
  "ascii_upper CHR ''d'' = CHR ''D''"
  "ascii_upper CHR ''e'' = CHR ''E''"
  "ascii_upper CHR ''f'' = CHR ''F''"
  "ascii_upper CHR ''g'' = CHR ''G''"
  "ascii_upper CHR ''h'' = CHR ''H''"
  "ascii_upper CHR ''i'' = CHR ''I''"
  "ascii_upper CHR ''j'' = CHR ''J''"
  "ascii_upper CHR ''k'' = CHR ''K''"
  "ascii_upper CHR ''l'' = CHR ''L''"
  "ascii_upper CHR ''m'' = CHR ''M''"
  "ascii_upper CHR ''n'' = CHR ''N''"
  "ascii_upper CHR ''o'' = CHR ''O''"
  "ascii_upper CHR ''p'' = CHR ''P''"
  "ascii_upper CHR ''q'' = CHR ''Q''"
  "ascii_upper CHR ''r'' = CHR ''R''"
  "ascii_upper CHR ''s'' = CHR ''S''"
  "ascii_upper CHR ''t'' = CHR ''T''"
  "ascii_upper CHR ''u'' = CHR ''U''"
  "ascii_upper CHR ''v'' = CHR ''V''"
  "ascii_upper CHR ''w'' = CHR ''W''"
  "ascii_upper CHR ''x'' = CHR ''X''"
  "ascii_upper CHR ''y'' = CHR ''Y''"
  "ascii_upper CHR ''z'' = CHR ''Z''"
  by (simp_all add: ascii_upper_def char_of_def bit_0)

lemma ascii_upper_other: "code c < 97 \<or> 122 < code c \<Longrightarrow> ascii_upper c = c"
  by (auto simp: ascii_upper_def)

lemma ascii_upper_idem [simp]: "ascii_upper (ascii_upper c) = ascii_upper c"
  unfolding ascii_upper_def [of "ascii_upper c"] by (simp add: code_ascii_upper) linarith

lemma ascii_upper_ge_128 [simp]: "128 \<le> code c \<Longrightarrow> ascii_upper c = c"
  by (simp add: ascii_upper_def)

lemma to_ascii_uppercase_idem [simp]:
  "to_ascii_uppercase (to_ascii_uppercase s) = to_ascii_uppercase s"
  by (simp add: to_ascii_uppercase_def)

text \<open>Upper-casing only moves codes between 97..122 and 65..90; every other test is unaffected.\<close>

lemma code_upper_ge: "122 < n \<or> n \<le> 65 \<Longrightarrow> n \<le> code (ascii_upper b) \<longleftrightarrow> n \<le> code b"
  unfolding code_ascii_upper by auto

lemma code_upper_less: "122 < n \<or> n \<le> 65 \<Longrightarrow> code (ascii_upper b) < n \<longleftrightarrow> code b < n"
  using code_upper_ge [of n b] by linarith

lemma code_upper_le: "122 \<le> n \<or> n < 65 \<Longrightarrow> code (ascii_upper b) \<le> n \<longleftrightarrow> code b \<le> n"
  using code_upper_ge [of "Suc n" b] by linarith

lemma code_upper_eq: "122 < n \<or> n < 65 \<Longrightarrow> code (ascii_upper b) = n \<longleftrightarrow> code b = n"
  unfolding code_ascii_upper by auto

lemmas code_upper = code_upper_ge code_upper_less code_upper_le code_upper_eq

lemma char_width_upper [simp]: "char_width (ascii_upper b) = char_width b"
  by (simp add: char_width_def code_upper)

lemma is_cont_upper [simp]: "is_cont (ascii_upper b) = is_cont b"
  by (simp add: is_cont_def code_upper)

lemma second_ok_upper [simp]: "second_ok (ascii_upper a) (ascii_upper b) = second_ok a b"
  by (simp add: second_ok_def code_upper)

lemma byte_at_upper [simp]: "byte_at (map ascii_upper bs) i = ascii_upper (byte_at bs i)"
  by (simp add: byte_at_def ascii_upper_def)

lemma utf8_scan_upper [simp]: "utf8_scan (ascii_upper b) (map ascii_upper bs) = utf8_scan b bs"
  by (simp add: utf8_scan_def Let_def)

lemma utf8_chunks_upper:
  "utf8_chunks (map ascii_upper s) = map (map_prod id (map ascii_upper)) (utf8_chunks s)"
proof (induction s rule: utf8_chunks.induct)
  case 1
  then show ?case by simp
next
  case (2 b bs)
  obtain ok n where scan: "utf8_scan b bs = (ok, n)" by fastforce
  with "2.IH" [of "(ok, n)" ok n]
  have "utf8_chunks (drop n (map ascii_upper (b # bs))) =
        map (map_prod id (map ascii_upper)) (utf8_chunks (drop n (b # bs)))"
    by (simp only: drop_map)
  moreover have "take n (map ascii_upper (b # bs)) = map ascii_upper (take n (b # bs))"
    by (rule take_map)
  ultimately show ?case
    using scan by (simp add: utf8_chunks.simps(2) [of "ascii_upper b"] utf8_chunks.simps(2) [of b] id_def)
qed

lemma valid_utf8_upper [simp]: "valid_utf8 (to_ascii_uppercase s) = valid_utf8 s"
  by (simp add: valid_utf8_def to_ascii_uppercase_def utf8_chunks_upper list_all_iff)

lemma str_chars_upper: "str_chars (to_ascii_uppercase s) = map to_ascii_uppercase (str_chars s)"
  by (simp add: str_chars_def to_ascii_uppercase_def utf8_chunks_upper)

lemma is_whitespace_upper [simp]: "is_whitespace (to_ascii_uppercase c) = is_whitespace c"
proof -
  consider "c = []" | a where "c = [a]" | a b where "c = [a, b]" | a b d where "c = [a, b, d]"
    | a b d e f where "c = a # b # d # e # f"
    by (metis list.exhaust)
  then show ?thesis
    by cases (simp_all add: is_whitespace_def to_ascii_uppercase_def code_upper)
qed

lemma chunks_of_chunks:
  "set cs \<subseteq> set (str_chars s) \<Longrightarrow> valid_utf8 s \<Longrightarrow> str_chars (concat cs) = cs \<and> valid_utf8 (concat cs)"
proof (induction cs)
  case Nil
  then show ?case by simp
next
  case (Cons c cs)
  then have "(True, c) \<in> set (utf8_chunks s)"
    by (auto simp: str_chars_def valid_utf8_def list_all_iff)
  then have "utf8_chunks c = [(True, c)]" by (rule chunk_valid)
  then have c: "str_chars c = [c]" "valid_utf8 c" by (simp_all add: str_chars_def valid_utf8_def)
  with Cons show ?case by (simp add: str_chars_append)
qed

lemma set_trim_chars: "set (trim_chars cs) \<subseteq> set cs"
  unfolding trim_chars_def by (auto dest!: set_dropWhileD)

lemma str_chars_trim: "valid_utf8 s \<Longrightarrow> str_chars (trim s) = trim_chars (str_chars s)"
  unfolding trim_def using chunks_of_chunks [OF set_trim_chars] by blast

lemma valid_utf8_trim: "valid_utf8 s \<Longrightarrow> valid_utf8 (trim s)"
  unfolding trim_def using chunks_of_chunks [OF set_trim_chars] by blast

lemma trim_chars_idem: "trim_chars (trim_chars cs) = trim_chars cs"
proof -
  let ?w = is_whitespace
  let ?d = "dropWhile ?w cs"
  let ?t = "rev (dropWhile ?w (rev ?d))"
  have hd: "?t = [] \<or> \<not> ?w (hd ?t)"
  proof (cases "?t = []")
    case False
    obtain ys where split: "?d = ?t @ ys"
      by (metis rev_append rev_rev_ident takeWhile_dropWhile_id)
    with False have "hd ?t = hd ?d" by (metis hd_append2)
    moreover from False split have "?d \<noteq> []" by (metis append_is_Nil_conv)
    ultimately show ?thesis by (metis hd_dropWhile)
  qed simp
  then have "dropWhile ?w ?t = ?t" by (simp only: dropWhile_eq_self_iff)
  then have "trim_chars ?t = rev (dropWhile ?w (dropWhile ?w (rev ?d)))"
    unfolding trim_chars_def by (simp only: rev_rev_ident)
  then show ?thesis by (simp add: trim_chars_def dropWhile_idem)
qed

lemma trim_idem: "valid_utf8 s \<Longrightarrow> trim (trim s) = trim s"
  by (simp add: trim_def [of "trim s"] str_chars_trim trim_chars_idem) (simp add: trim_def)

lemma trim_chars_map_upper:
  "trim_chars (map to_ascii_uppercase cs) = map to_ascii_uppercase (trim_chars cs)"
  by (simp add: trim_chars_def dropWhile_map rev_map o_def)

lemma trim_upper: "trim (to_ascii_uppercase s) = to_ascii_uppercase (trim s)"
  unfolding trim_def str_chars_upper trim_chars_map_upper
  unfolding to_ascii_uppercase_def by (simp add: map_concat)

end
