(* ===== verification/Rust_Numbers.thy ===== *)
theory Rust_Numbers
  imports Rust_Utf8
begin

text \<open>
  Numbers as text, as the Rust standard library reads and prints them: decimal formatting of
  integers (\<open>format!("{n}")\<close>), \<open>str::parse\<close> for \<open>i64\<close>, \<open>u64\<close> and \<open>usize\<close> with the error kinds of
  \<open>ParseIntError\<close>, and the grammar of \<open>str::parse::<f64>\<close>.
\<close>

section \<open>Printing\<close>

definition digit_char :: "nat \<Rightarrow> u8" where
  "digit_char d = char_of (48 + d)"

fun show_nat :: "nat \<Rightarrow> rstring" where
  "show_nat n = (if n < 10 then [digit_char n] else show_nat (n div 10) @ [digit_char (n mod 10)])"

definition show_int :: "int \<Rightarrow> rstring" where
  "show_int i = (if i < 0 then ''-'' @ show_nat (nat (- i)) else show_nat (nat i))"

declare show_nat.simps [simp del]

section \<open>Parsing integers\<close>

datatype int_error = IntEmpty | InvalidDigit | PosOverflow | NegOverflow

fun show_int_error :: "int_error \<Rightarrow> rstring" where
  "show_int_error IntEmpty = ''cannot parse integer from empty string''"
| "show_int_error InvalidDigit = ''invalid digit found in string''"
| "show_int_error PosOverflow = ''number too large to fit in target type''"
| "show_int_error NegOverflow = ''number too small to fit in target type''"

definition digit_val :: "u8 \<Rightarrow> nat option" where
  "digit_val c = (if 48 \<le> code c \<and> code c \<le> 57 then Some (code c - 48) else None)"

text \<open>Digits are read left to right; a bad digit is reported before an overflow at it.\<close>

fun scan_digits :: "nat \<Rightarrow> int_error \<Rightarrow> nat \<Rightarrow> rstring \<Rightarrow> (nat, int_error) result" where
  "scan_digits limit overflow acc [] = Ok acc"
| "scan_digits limit overflow acc (c # cs) =
     (case digit_val c of
        None \<Rightarrow> Err InvalidDigit
      | Some d \<Rightarrow> if limit < acc * 10 + d then Err overflow
                  else scan_digits limit overflow (acc * 10 + d) cs)"

definition U64_MAX :: nat where
  [limits]: "U64_MAX = 2 ^ 64 - 1"

definition parse_u64_str :: "rstring \<Rightarrow> (nat, int_error) result" where
  "parse_u64_str s =
     (case s of
        [] \<Rightarrow> Err IntEmpty
      | c # cs \<Rightarrow>
          if cs = [] \<and> (c = CHR ''+'' \<or> c = CHR ''-'') then Err InvalidDigit
          else scan_digits U64_MAX PosOverflow 0 (if c = CHR ''+'' then cs else s))"

definition parse_i64_str :: "rstring \<Rightarrow> (int, int_error) result" where
  "parse_i64_str s =
     (case s of
        [] \<Rightarrow> Err IntEmpty
      | c # cs \<Rightarrow>
          if cs = [] \<and> (c = CHR ''+'' \<or> c = CHR ''-'') then Err InvalidDigit
          else if c = CHR ''-'' then
            (case scan_digits (nat (- I64_MIN)) NegOverflow 0 cs of
               Ok n \<Rightarrow> Ok (- int n) | Err e \<Rightarrow> Err e)
          else
            (case scan_digits (nat I64_MAX) PosOverflow 0 (if c = CHR ''+'' then cs else s) of
               Ok n \<Rightarrow> Ok (int n) | Err e \<Rightarrow> Err e))"

section \<open>Facts about digits\<close>

lemma code_digit_char: "d < 10 \<Longrightarrow> code (digit_char d) = 48 + d"
  by (simp add: digit_char_def)

text \<open>Concrete digits, for evaluating printed numerals with \<open>simp\<close>.\<close>

lemma digit_char_numeral [simp]:
  "digit_char 0 = CHR ''0''" "digit_char (Suc 0) = CHR ''1''" "digit_char 1 = CHR ''1''"
  "digit_char 2 = CHR ''2''" "digit_char 3 = CHR ''3''" "digit_char 4 = CHR ''4''"
  "digit_char 5 = CHR ''5''" "digit_char 6 = CHR ''6''" "digit_char 7 = CHR ''7''"
  "digit_char 8 = CHR ''8''" "digit_char 9 = CHR ''9''"
  by (simp_all add: digit_char_def char_of_def bit_0)

lemma digit_val_digit_char [simp]: "d < 10 \<Longrightarrow> digit_val (digit_char d) = Some d"
  by (simp add: digit_val_def code_digit_char)

lemma digit_val_less: "digit_val c = Some d \<Longrightarrow> d < 10"
  by (auto simp: digit_val_def split: if_splits)

lemma digit_char_neq:
  "d < 10 \<Longrightarrow> digit_char d \<noteq> CHR ''+''" "d < 10 \<Longrightarrow> digit_char d \<noteq> CHR ''-''"
  by (auto dest: arg_cong [where f = "of_char :: char \<Rightarrow> nat"] simp: code_digit_char)

definition is_digit :: "u8 \<Rightarrow> bool" where
  "is_digit c \<longleftrightarrow> digit_val c \<noteq> None"

lemma is_digit_iff: "is_digit c \<longleftrightarrow> 48 \<le> code c \<and> code c \<le> 57"
  by (simp add: is_digit_def digit_val_def)

lemma show_nat_digits: "c \<in> set (show_nat n) \<Longrightarrow> is_digit c"
proof (induction n rule: show_nat.induct)
  case (1 n)
  then show ?case
    by (cases "n < 10") (auto simp: show_nat.simps [of n] is_digit_iff code_digit_char)
qed

lemma show_nat_nonempty [simp]: "show_nat n \<noteq> []"
  by (subst show_nat.simps) simp

lemma show_nat_first_digit: "show_nat n = c # cs \<Longrightarrow> c \<noteq> CHR ''+'' \<and> c \<noteq> CHR ''-''"
  using show_nat_digits [of c n] by (auto simp: is_digit_iff)

lemma scan_digits_append:
  "scan_digits limit e acc (xs @ ys) = and_then (scan_digits limit e acc xs) (\<lambda>a. scan_digits limit e a ys)"
  by (induction xs arbitrary: acc) (auto split: option.splits)

lemma scan_show_nat: "n \<le> limit \<Longrightarrow> scan_digits limit e 0 (show_nat n) = Ok n"
proof (induction n rule: show_nat.induct)
  case (1 n)
  show ?case
  proof (cases "n < 10")
    case True
    with "1.prems" show ?thesis by (simp add: show_nat.simps [of n])
  next
    case False
    moreover from "1.prems" have "n div 10 \<le> limit" by linarith
    ultimately show ?thesis
      using 1 by (simp add: show_nat.simps [of n] scan_digits_append)
  qed
qed

lemma scan_digits_bound: "scan_digits limit e acc s = Ok n \<Longrightarrow> acc \<le> limit \<Longrightarrow> n \<le> limit"
  by (induction s arbitrary: acc) (auto split: option.splits if_splits)

lemma scan_digits_less_power:
  "scan_digits limit e acc s = Ok n \<Longrightarrow> n < (acc + 1) * 10 ^ length s"
proof (induction s arbitrary: acc)
  case Nil
  then show ?case by simp
next
  case (Cons c s)
  then obtain d where d: "digit_val c = Some d" and r: "scan_digits limit e (acc * 10 + d) s = Ok n"
    by (auto split: option.splits if_splits)
  from Cons.IH [OF r] have "n < (acc * 10 + d + 1) * 10 ^ length s" .
  also from digit_val_less [OF d] have "\<dots> \<le> ((acc + 1) * 10) * 10 ^ length s"
    by (intro mult_right_mono) simp_all
  finally show ?case by (simp add: algebra_simps)
qed

lemma length_show_nat: "n < 10 ^ k \<Longrightarrow> 0 < k \<Longrightarrow> length (show_nat n) \<le> k"
proof (induction n arbitrary: k rule: show_nat.induct)
  case (1 n)
  show ?case
  proof (cases "n < 10")
    case True
    with "1.prems" show ?thesis by (simp add: show_nat.simps [of n])
  next
    case False
    with "1.prems" obtain j where k: "k = Suc (Suc j)"
      by (cases k; cases "k - 1") auto
    with "1.prems" have "n div 10 < 10 ^ Suc j" by (simp add: less_mult_imp_div_less mult.commute)
    with False "1.IH" have "length (show_nat (n div 10)) \<le> Suc j" by simp
    with False k show ?thesis by (simp add: show_nat.simps [of n])
  qed
qed

lemma scan_digits_shows_shorter:
  "scan_digits limit e 0 s = Ok n \<Longrightarrow> s \<noteq> [] \<Longrightarrow> length (show_nat n) \<le> length s"
  using scan_digits_less_power [of limit e 0 s n] by (intro length_show_nat) auto

section \<open>Round trips and ranges\<close>

lemma parse_u64_show_nat: "n \<le> U64_MAX \<Longrightarrow> parse_u64_str (show_nat n) = Ok n"
  using scan_show_nat [of n U64_MAX PosOverflow] show_nat_first_digit [of n]
  by (cases "show_nat n") (auto simp: parse_u64_str_def)

lemma parse_u64_bound: "parse_u64_str s = Ok n \<Longrightarrow> n \<le> U64_MAX"
  by (auto simp: parse_u64_str_def simp del: scan_digits.simps
      split: list.splits if_splits dest: scan_digits_bound)

lemma parse_i64_show_int:
  assumes "in_i64 i"
  shows "parse_i64_str (show_int i) = Ok i"
proof (cases "i < 0")
  case True
  from assms have "nat (- i) \<le> nat (- I64_MIN)" by (intro nat_mono) (simp add: in_i64_def)
  with True show ?thesis
    using scan_show_nat [of "nat (- i)" "nat (- I64_MIN)" NegOverflow]
    by (simp add: show_int_def parse_i64_str_def)
next
  case False
  from assms have "nat i \<le> nat I64_MAX" by (intro nat_mono) (simp add: in_i64_def)
  with False show ?thesis
    using scan_show_nat [of "nat i" "nat I64_MAX" PosOverflow] show_nat_first_digit [of "nat i"]
    by (cases "show_nat (nat i)") (auto simp: show_int_def parse_i64_str_def)
qed

lemma parse_i64_range: "parse_i64_str s = Ok i \<Longrightarrow> in_i64 i"
  by (auto simp: parse_i64_str_def in_i64_def I64_MIN_def I64_MAX_def simp del: scan_digits.simps
      split: list.splits if_splits result.splits dest!: scan_digits_bound)

lemma length_show_int_parsed:
  assumes "parse_i64_str s = Ok i"
  shows "length (show_int i) \<le> length s"
proof -
  obtain c cs where s: "s = c # cs" using assms by (auto simp: parse_i64_str_def split: list.splits)
  consider (neg) n where "c = CHR ''-''" "cs \<noteq> []" "scan_digits (nat (- I64_MIN)) NegOverflow 0 cs = Ok n" "i = - int n"
    | (plus) n where "c = CHR ''+''" "cs \<noteq> []" "scan_digits (nat I64_MAX) PosOverflow 0 cs = Ok n" "i = int n"
    | (pos) n where "scan_digits (nat I64_MAX) PosOverflow 0 s = Ok n" "i = int n"
    using assms s
    by (auto simp: parse_i64_str_def simp del: scan_digits.simps split: if_splits result.splits)
  then show ?thesis
  proof cases
    case neg
    then have "length (show_nat n) \<le> length cs" by (auto dest: scan_digits_shows_shorter)
    with neg s show ?thesis by (auto simp: show_int_def)
  next
    case plus
    then have "length (show_nat n) \<le> length cs" by (auto dest: scan_digits_shows_shorter)
    with plus s show ?thesis by (simp add: show_int_def)
  next
    case pos
    with s have "length (show_nat n) \<le> length s"
      by (auto simp del: scan_digits.simps dest: scan_digits_shows_shorter)
    with pos show ?thesis by (simp add: show_int_def)
  qed
qed

lemma show_int_of_nat: "show_int (int n) = show_nat n"
  by (simp add: show_int_def)

definition digit_or_minus :: "u8 \<Rightarrow> bool" where
  "digit_or_minus c \<longleftrightarrow> is_digit c \<or> c = CHR ''-''"

lemma show_int_chars: "c \<in> set (show_int i) \<Longrightarrow> digit_or_minus c"
  by (auto simp: show_int_def digit_or_minus_def split: if_splits dest: show_nat_digits)

lemma digit_or_minus_ascii: "digit_or_minus c \<Longrightarrow> code c < 128 \<and> c \<noteq> LF \<and> c \<noteq> CR"
  by (auto simp: digit_or_minus_def is_digit_iff)

lemma valid_utf8_ascii_string: "(\<And>c. c \<in> set s \<Longrightarrow> code c < 128) \<Longrightarrow> valid_utf8 s"
  by (induction s) simp_all

lemma valid_utf8_show_int [simp]: "valid_utf8 (show_int i)"
  by (rule valid_utf8_ascii_string) (simp add: show_int_chars digit_or_minus_ascii)

lemma show_int_nonempty [simp]: "show_int i \<noteq> []"
  by (simp add: show_int_def)

lemma show_int_no_lf [simp]: "LF \<notin> set (show_int i)"
  using show_int_chars [of LF i] digit_or_minus_ascii [of LF] by blast

section \<open>Floating-point text\<close>

text \<open>
  \<open>str::parse::<f64>\<close>.  A finite decimal is kept as its exact value: a sign, a mantissa and a
  decimal exponent.  It rounds to infinity from \<open>2^1024 - 2^970\<close> on, the midpoint between
  the largest finite double and \<open>2^1024\<close>.
\<close>

datatype f64 = F64NaN | F64Inf bool | F64Num bool nat int

fun digits_value :: "nat \<Rightarrow> rstring \<Rightarrow> nat" where
  "digits_value acc [] = acc"
| "digits_value acc (c # cs) = digits_value (acc * 10 + (code c - 48)) cs"

definition parse_exponent :: "rstring \<Rightarrow> int option" where
  "parse_exponent s =
     (case s of
        [] \<Rightarrow> Some 0
      | e # rest \<Rightarrow>
          if e \<noteq> CHR ''e'' \<and> e \<noteq> CHR ''E'' then None
          else let neg = (rest \<noteq> [] \<and> hd rest = CHR ''-'');
                   ds = (if rest \<noteq> [] \<and> (hd rest = CHR ''-'' \<or> hd rest = CHR ''+'') then tl rest else rest)
               in if ds = [] \<or> \<not> list_all is_digit ds then None
                  else Some (if neg then - int (digits_value 0 ds) else int (digits_value 0 ds)))"

definition parse_decimal :: "bool \<Rightarrow> rstring \<Rightarrow> f64 option" where
  "parse_decimal neg s =
     (let whole = takeWhile is_digit s;
          rest = dropWhile is_digit s;
          dot = (rest \<noteq> [] \<and> hd rest = CHR ''.'');
          frac = (if dot then takeWhile is_digit (tl rest) else []);
          rest' = (if dot then dropWhile is_digit (tl rest) else rest)
      in if whole = [] \<and> frac = [] then None
         else case parse_exponent rest' of
                None \<Rightarrow> None
              | Some e \<Rightarrow> Some (F64Num neg (digits_value 0 (whole @ frac)) (e - int (length frac))))"

definition parse_special :: "bool \<Rightarrow> rstring \<Rightarrow> f64 option" where
  "parse_special neg s =
     (if eq_ignore_ascii_case s ''NAN'' then Some F64NaN
      else if eq_ignore_ascii_case s ''INF'' \<or> eq_ignore_ascii_case s ''INFINITY'' then Some (F64Inf neg)
      else None)"

definition parse_f64 :: "rstring \<Rightarrow> f64 option" where
  "parse_f64 s =
     (let neg = (s \<noteq> [] \<and> hd s = CHR ''-'');
          body = (if s \<noteq> [] \<and> (hd s = CHR ''-'' \<or> hd s = CHR ''+'') then tl s else s)
      in case parse_decimal neg body of Some x \<Rightarrow> Some x | None \<Rightarrow> parse_special neg body)"

fun f64_is_nan :: "f64 \<Rightarrow> bool" where
  "f64_is_nan F64NaN = True"
| "f64_is_nan _ = False"

definition f64_overflow_bound :: nat where
  "f64_overflow_bound = 2 ^ 1024 - 2 ^ 970"

fun f64_is_finite :: "f64 \<Rightarrow> bool" where
  "f64_is_finite (F64Num neg m e) =
     (if 0 \<le> e then m * 10 ^ nat e < f64_overflow_bound
      else m < f64_overflow_bound * 10 ^ nat (- e))"
| "f64_is_finite _ = False"

lemma parse_f64_rejects_empty: "parse_f64 [] = None"
  by (simp add: parse_f64_def parse_decimal_def parse_special_def eq_ignore_ascii_case_def
      to_ascii_uppercase_def)

end
