(* ===== verification/Resp_Limits.thy ===== *)
theory Resp_Limits
  imports Rust_Numbers
begin

text \<open>The protocol limits of \<open>resp.rs\<close>, shared by the command line, the codec and the proxy.\<close>

definition MAX_RESP_BULK_LENGTH :: nat where
  [limits]: "MAX_RESP_BULK_LENGTH = 16 * 1024 * 1024"

definition MAX_RESP_ARRAY_LENGTH :: nat where
  [limits]: "MAX_RESP_ARRAY_LENGTH = 4 * 1024"

definition MAX_RESP_DEPTH :: nat where
  [limits]: "MAX_RESP_DEPTH = 64"

definition MAX_RESPONSE_NODES :: nat where
  [limits]: "MAX_RESPONSE_NODES = 8 * 1024"

definition MAX_RESPONSE_ELEMENTS :: nat where
  [limits]: "MAX_RESPONSE_ELEMENTS = 8 * 1024"

definition MAX_RESPONSE_BYTES :: nat where
  [limits]: "MAX_RESPONSE_BYTES = 1024 * 1024"

definition MAX_ARGUMENTS :: nat where
  [limits]: "MAX_ARGUMENTS = 256"

end
