(* ===== verification/Command_Line.thy ===== *)
theory Command_Line
  imports Resp_Limits
begin

text \<open>
  \<open>command.rs\<close>: the command line of the HTTP API.  \<open>parse\<close> tokenises one line with
  shell-like quoting.  The loop over \<open>chars\<close> becomes a recursion on the list of encoded
  characters, its four mutable variables become the record \<open>parse_state\<close>; the arm that the
  code marks \<open>unreachable!()\<close> is an error value of its own.
\<close>

section \<open>State and loop\<close>

definition MAX_COMMAND_LENGTH :: nat where
  [limits]: "MAX_COMMAND_LENGTH = 16 * 1024"

abbreviation SQUOTE :: rchar where "SQUOTE \<equiv> [CHR 0x27]"
abbreviation DQUOTE :: rchar where "DQUOTE \<equiv> [CHR 0x22]"
abbreviation BACKSLASH :: rchar where "BACKSLASH \<equiv> [CHR 0x5C]"

record parse_state =
  arguments :: "rstring list"
  current :: rstring
  quote :: "rchar option"
  argument_started :: bool

definition start_state :: parse_state where
  "start_state = \<lparr>arguments = [], current = [], quote = None, argument_started = False\<rparr>"

definition unescape :: "rchar \<Rightarrow> rchar" where
  "unescape c =
     (if c = ''n'' then [CHR 0x0A]
      else if c = ''r'' then [CHR 0x0D]
      else if c = ''t'' then [CHR 0x09]
      else c)"

definition push :: "rchar \<Rightarrow> parse_state \<Rightarrow> parse_state" where
  "push c s = s\<lparr>current := current s @ c\<rparr>"

definition finish_argument :: "parse_state \<Rightarrow> parse_state" where
  "finish_argument s =
     s\<lparr>arguments := arguments s @ [current s], current := [], argument_started := False\<rparr>"

definition incomplete_escape :: rstring where
  "incomplete_escape = ''command ends with an incomplete escape''"

definition unreachable :: rstring where
  "unreachable = ''internal error: entered unreachable code''"

text \<open>
  One round of the \<open>while let Some(character) = chars.next()\<close> loop: it returns the characters
  left (an escape takes a second one) and the new state.
\<close>

definition escaped :: "rchar list \<Rightarrow> parse_state \<Rightarrow> (rchar list \<times> parse_state, rstring) result" where
  "escaped cs s =
     (case cs of
        [] \<Rightarrow> Err incomplete_escape
      | e # cs' \<Rightarrow> Ok (cs', push (unescape e) s))"

definition quoted_step ::
    "rchar \<Rightarrow> rchar \<Rightarrow> rchar list \<Rightarrow> parse_state \<Rightarrow> (rchar list \<times> parse_state, rstring) result" where
  "quoted_step q c cs s =
     (if q = SQUOTE then
        (if c = SQUOTE then Ok (cs, s\<lparr>quote := None\<rparr>) else Ok (cs, push c s))
      else if q = DQUOTE then
        (if c = DQUOTE then Ok (cs, s\<lparr>quote := None\<rparr>)
         else if c = BACKSLASH then escaped cs s
         else Ok (cs, push c s))
      else Err unreachable)"

definition unquoted_step ::
    "rchar \<Rightarrow> rchar list \<Rightarrow> parse_state \<Rightarrow> (rchar list \<times> parse_state, rstring) result" where
  "unquoted_step c cs s =
     (if c = SQUOTE \<or> c = DQUOTE then Ok (cs, s\<lparr>quote := Some c, argument_started := True\<rparr>)
      else if c = BACKSLASH then escaped cs (s\<lparr>argument_started := True\<rparr>)
      else if is_whitespace c then
        Ok (cs, if argument_started s then finish_argument s else s)
      else Ok (cs, (push c s)\<lparr>argument_started := True\<rparr>))"

definition parse_step ::
    "rchar \<Rightarrow> rchar list \<Rightarrow> parse_state \<Rightarrow> (rchar list \<times> parse_state, rstring) result" where
  "parse_step c cs s =
     (case quote s of Some q \<Rightarrow> quoted_step q c cs s | None \<Rightarrow> unquoted_step c cs s)"

lemmas parse_step_defs = parse_step_def quoted_step_def unquoted_step_def escaped_def

lemma parse_step_shorter: "parse_step c cs s = Ok (cs', s') \<Longrightarrow> length cs' \<le> length cs"
  by (auto simp: parse_step_defs split: option.splits if_splits list.splits)

function parse_chars :: "rchar list \<Rightarrow> parse_state \<Rightarrow> (parse_state, rstring) result" where
  "parse_chars [] s = Ok s"
| "parse_chars (c # cs) s =
     (case parse_step c cs s of
        Err e \<Rightarrow> Err e
      | Ok (cs', s') \<Rightarrow> parse_chars cs' s')"
  by pat_completeness auto
termination
  by (relation "measure (\<lambda>(cs, s). length cs)") (auto dest: parse_step_shorter)

definition finish_parse :: "parse_state \<Rightarrow> (rstring list, rstring) result" where
  "finish_parse s =
     (if quote s \<noteq> None then Err ''command contains an unterminated quote''
      else let args = (if argument_started s then arguments s @ [current s] else arguments s)
           in if args = [] then Err ''command must not be empty''
              else if length args > MAX_ARGUMENTS then
                Err (''command has too many arguments (maximum '' @ show_nat MAX_ARGUMENTS @ '')'')
              else Ok args)"

definition parse :: "rstring \<Rightarrow> (rstring list, rstring) result" where
  "parse command =
     (if length command > MAX_COMMAND_LENGTH then
        Err (''command is too long (maximum '' @ show_nat MAX_COMMAND_LENGTH @ '' bytes)'')
      else and_then (parse_chars (str_chars command) start_state) finish_parse)"

section \<open>What the loop maintains\<close>

text \<open>
  The invariant of the loop: the quote is one of the two quote characters, text is only
  pending once an argument has started, and no more bytes have been stored than read.
\<close>

definition parse_inv :: "parse_state \<Rightarrow> bool" where
  "parse_inv s \<longleftrightarrow>
     quote s \<in> {None, Some SQUOTE, Some DQUOTE} \<and>
     (quote s \<noteq> None \<longrightarrow> argument_started s) \<and>
     (current s \<noteq> [] \<longrightarrow> argument_started s)"

definition stored :: "parse_state \<Rightarrow> nat" where
  "stored s = sum_list (map length (arguments s)) + length (current s)"

lemma parse_inv_start: "parse_inv start_state"
  by (simp add: parse_inv_def start_state_def)

lemma length_unescape [simp]: "length (unescape c) \<le> Suc (length c)"
  by (simp add: unescape_def)

lemma stored_simps [simp]:
  "stored (push c s) = stored s + length c"
  "stored (finish_argument s) = stored s"
  "stored (s\<lparr>quote := q\<rparr>) = stored s"
  "stored (s\<lparr>argument_started := b\<rparr>) = stored s"
  "stored start_state = 0"
  by (simp_all add: stored_def push_def finish_argument_def start_state_def)

lemma parse_step_inv:
  assumes "parse_step c cs s = Ok (cs', s')" and "parse_inv s"
  shows "parse_inv s'"
  using assms
  by (auto simp: parse_step_defs parse_inv_def push_def finish_argument_def
      split: option.splits if_splits list.splits)

lemma parse_step_stored:
  assumes "parse_step c cs s = Ok (cs', s')"
  shows "stored s' + length (concat cs') \<le> stored s + length (concat (c # cs))"
  using assms
  by (auto simp: parse_step_defs split: option.splits if_splits list.splits)

lemma parse_step_not_unreachable:
  "parse_inv s \<Longrightarrow> parse_step c cs s = Err e \<Longrightarrow> e = incomplete_escape"
  by (auto simp: parse_step_defs parse_inv_def split: option.splits if_splits list.splits)

lemma parse_chars_Ok:
  assumes "parse_chars cs s = Ok s'" and "parse_inv s"
  shows "parse_inv s' \<and> stored s' \<le> stored s + length (concat cs)"
  using assms
proof (induction cs s rule: parse_chars.induct)
  case (1 s)
  then show ?case by simp
next
  case (2 c cs s)
  from "2.prems"(1) obtain cs1 s1
    where step: "parse_step c cs s = Ok (cs1, s1)" and rest: "parse_chars cs1 s1 = Ok s'"
    by (auto split: result.splits)
  from "2.IH" [OF step refl rest parse_step_inv [OF step "2.prems"(2)]]
  have "parse_inv s'" and "stored s' \<le> stored s1 + length (concat cs1)" by simp_all
  with parse_step_stored [OF step] show ?case by linarith
qed

lemma parse_chars_Err:
  "parse_chars cs s = Err e \<Longrightarrow> parse_inv s \<Longrightarrow> e = incomplete_escape"
proof (induction cs s rule: parse_chars.induct)
  case (1 s)
  then show ?case by simp
next
  case (2 c cs s)
  then show ?case
    by (auto split: result.splits dest: parse_step_inv parse_step_not_unreachable)
qed

text \<open>Arguments are strings: the characters of a string make valid UTF-8 again.\<close>

definition parse_utf8 :: "parse_state \<Rightarrow> bool" where
  "parse_utf8 s \<longleftrightarrow> valid_utf8 (current s) \<and> list_all valid_utf8 (arguments s)"

lemma valid_unescape: "valid_utf8 c \<Longrightarrow> valid_utf8 (unescape c)"
  by (simp add: unescape_def)

lemma parse_step_utf8:
  assumes "parse_step c cs s = Ok (cs', s')" and "list_all valid_utf8 (c # cs)" and "parse_utf8 s"
  shows "parse_utf8 s' \<and> list_all valid_utf8 cs'"
  using assms
  by (auto simp: parse_step_defs parse_utf8_def push_def finish_argument_def valid_unescape
      split: option.splits if_splits list.splits)

lemma parse_chars_utf8:
  "parse_chars cs s = Ok s' \<Longrightarrow> list_all valid_utf8 cs \<Longrightarrow> parse_utf8 s \<Longrightarrow> parse_utf8 s'"
proof (induction cs s rule: parse_chars.induct)
  case (2 c cs s)
  then show ?case by (auto split: result.splits dest: parse_step_utf8)
qed simp

section \<open>Bounds and errors of a parse\<close>

lemma parse_OkE:
  assumes "parse command = Ok args"
  obtains s where "length command \<le> MAX_COMMAND_LENGTH"
    and "parse_chars (str_chars command) start_state = Ok s" and "finish_parse s = Ok args"
  using assms by (auto simp: parse_def split: if_splits)

lemma finish_parse_Ok:
  "finish_parse s = Ok args \<longleftrightarrow>
     quote s = None \<and> args = (if argument_started s then arguments s @ [current s] else arguments s) \<and>
     args \<noteq> [] \<and> length args \<le> MAX_ARGUMENTS"
  by (auto simp: finish_parse_def Let_def)

lemma parse_nonempty: "parse command = Ok args \<Longrightarrow> args \<noteq> []"
  by (auto simp: finish_parse_Ok elim!: parse_OkE)

lemma parse_valid_utf8:
  assumes "parse command = Ok args" and "valid_utf8 command"
  shows "list_all valid_utf8 args"
proof -
  from assms(1) obtain s where s: "parse_chars (str_chars command) start_state = Ok s" "finish_parse s = Ok args"
    by (rule parse_OkE)
  have "valid_utf8 (snd c)" if "c \<in> set (utf8_chunks command)" for c
  proof -
    have "fst c" using assms(2) that by (simp add: valid_utf8_def list_all_iff)
    then have "c = (True, snd c)" by (simp add: prod_eq_iff)
    with that have "(True, snd c) \<in> set (utf8_chunks command)" by metis
    then show ?thesis by (rule valid_chunkI)
  qed
  then have "list_all valid_utf8 (str_chars command)" by (auto simp: list_all_iff str_chars_def)
  with s(1) have "parse_utf8 s" by (rule parse_chars_utf8) (simp add: parse_utf8_def start_state_def)
  with s(2) show ?thesis by (auto simp: finish_parse_Ok parse_utf8_def)
qed

text \<open>An accepted command line yields between 1 and 256 arguments whose bytes together are no
  more than the bytes of the line, which is at most 16 KiB long.\<close>

theorem parse_bounds:
  assumes "parse command = Ok args"
  shows "args \<noteq> [] \<and> length args \<le> MAX_ARGUMENTS \<and>
         sum_list (map length args) \<le> length command \<and> length command \<le> MAX_COMMAND_LENGTH"
proof -
  from assms obtain s where len: "length command \<le> MAX_COMMAND_LENGTH"
    and s: "parse_chars (str_chars command) start_state = Ok s" and fin: "finish_parse s = Ok args"
    by (rule parse_OkE)
  from parse_chars_Ok [OF s parse_inv_start] have "stored s \<le> length command" by simp
  moreover from fin have "sum_list (map length args) \<le> stored s" "args \<noteq> []" "length args \<le> MAX_ARGUMENTS"
    unfolding finish_parse_Ok by (auto simp: stored_def)
  ultimately show ?thesis using len by linarith
qed

theorem parse_bounds_witness:
  "sum_list (map length [''SET'', ''k'', ''a b'']) \<le> length (''SET k '' @ DQUOTE @ ''a b'' @ DQUOTE)"
proof -
  have "parse (''SET k '' @ DQUOTE @ ''a b'' @ DQUOTE) = Ok [''SET'', ''k'', ''a b'']"
    by (simp add: parse_def parse_step_defs start_state_def push_def finish_argument_def
        finish_parse_def is_whitespace_def limits)
  from parse_bounds [OF this] show ?thesis by simp
qed

text \<open>The tokenizer's \<open>unreachable!()\<close> arm is never taken, and a rejected line is rejected with
  one of the five documented messages.\<close>

theorem parse_errors:
  "parse command = Err e \<Longrightarrow>
     e \<noteq> unreachable \<and>
     e \<in> {incomplete_escape, ''command contains an unterminated quote'',
          ''command must not be empty'', ''command is too long (maximum 16384 bytes)'',
          ''command has too many arguments (maximum 256)''}"
proof -
  assume err: "parse command = Err e"
  have n: "show_nat 16384 = ''16384''" "show_nat 256 = ''256''"
    by (simp_all add: show_nat.simps)
  from err have "e \<in> {incomplete_escape, ''command contains an unterminated quote'',
          ''command must not be empty'', ''command is too long (maximum 16384 bytes)'',
          ''command has too many arguments (maximum 256)''}"
    by (auto simp: parse_def finish_parse_def Let_def limits n parse_inv_start
        split: if_splits dest: parse_chars_Err)
  then show ?thesis by (auto simp: unreachable_def incomplete_escape_def)
qed

theorem parse_errors_witness: "(''command must not be empty'' :: rstring) \<noteq> unreachable"
proof -
  have "parse ''  '' = Err ''command must not be empty''"
    by (simp add: parse_def parse_step_defs start_state_def finish_parse_def is_whitespace_def limits)
  from parse_errors [OF this] show ?thesis by simp
qed

section \<open>Quoting an argument list and reading it back\<close>

text \<open>The specification of quoting: every argument in double quotes, with \<open>"\<close> and \<open>\\<close> escaped.\<close>

definition escape_char :: "rchar \<Rightarrow> rchar list" where
  "escape_char c = (if c = DQUOTE \<or> c = BACKSLASH then [BACKSLASH, c] else [c])"

definition quote_argument :: "rstring \<Rightarrow> rstring" where
  "quote_argument s = DQUOTE @ concat (concat (map escape_char (str_chars s))) @ DQUOTE"

fun render_command :: "rstring list \<Rightarrow> rstring" where
  "render_command [] = []"
| "render_command [a] = quote_argument a"
| "render_command (a # as) = quote_argument a @ '' '' @ render_command as"

lemma str_chars_chunk_append:
  assumes "c \<in> set (str_chars s)" and "valid_utf8 s"
  shows "str_chars (c @ r) = c # str_chars r"
  using chunks_of_chunks [of "[c]" s] assms by (simp add: str_chars_append)

lemma str_chars_escaped:
  assumes "set cs \<subseteq> set (str_chars s)" and "valid_utf8 s"
  shows "str_chars (concat (concat (map escape_char cs)) @ r) = concat (map escape_char cs) @ str_chars r"
  using assms
  by (induction cs) (auto simp: escape_char_def str_chars_chunk_append)

lemma str_chars_quote_argument:
  assumes "valid_utf8 s"
  shows "str_chars (quote_argument s @ r) =
         DQUOTE # concat (map escape_char (str_chars s)) @ DQUOTE # str_chars r"
  using str_chars_escaped [OF subset_refl assms, of "DQUOTE @ r"]
  by (simp add: quote_argument_def)

lemma parse_chars_quoted_body:
  "parse_chars (concat (map escape_char cs) @ DQUOTE # rest)
     \<lparr>arguments = A, current = C, quote = Some DQUOTE, argument_started = True\<rparr> =
   parse_chars rest \<lparr>arguments = A, current = C @ concat cs, quote = None, argument_started = True\<rparr>"
  by (induction cs arbitrary: C)
    (auto simp: escape_char_def parse_step_defs push_def unescape_def)

lemma parse_chars_quote_argument:
  assumes "valid_utf8 a"
  shows "parse_chars (str_chars (quote_argument a @ r))
           \<lparr>arguments = A, current = [], quote = None, argument_started = False\<rparr> =
         parse_chars (str_chars r)
           \<lparr>arguments = A, current = a, quote = None, argument_started = True\<rparr>"
  by (simp add: str_chars_quote_argument [OF assms] parse_step_defs parse_chars_quoted_body)

lemma parse_chars_render:
  assumes "args \<noteq> []" and "\<And>a. a \<in> set args \<Longrightarrow> valid_utf8 a"
  shows "parse_chars (str_chars (render_command args))
           \<lparr>arguments = A, current = [], quote = None, argument_started = False\<rparr> =
         Ok \<lparr>arguments = A @ butlast args, current = last args, quote = None, argument_started = True\<rparr>"
  using assms
proof (induction args arbitrary: A rule: render_command.induct)
  case 1
  then show ?case by simp
next
  case (2 a)
  then show ?case using parse_chars_quote_argument [of a "[]"] by simp
next
  case (3 a b as)
  have ws: "is_whitespace '' ''" by (simp add: is_whitespace_def)
  from 3 show ?case
    using parse_chars_quote_argument [of a "'' '' @ render_command (b # as)"]
    by (simp add: parse_step_defs ws finish_argument_def)
qed

text \<open>C29: tokenising inverts quoting: every non-empty list of at most 256 UTF-8 arguments, quoted and
  joined by blanks, is read back exactly if the line so written is within the 16 KiB the code accepts
  for a command line.\<close>

theorem parse_render:
  assumes "args \<noteq> []" and "length args \<le> MAX_ARGUMENTS" and "\<forall>a \<in> set args. valid_utf8 a"
    and "length (render_command args) \<le> MAX_COMMAND_LENGTH"
  shows "parse (render_command args) = Ok args"
  using assms parse_chars_render [of args "[]"]
  by (simp add: parse_def start_state_def finish_parse_def)

theorem parse_render_witness:
  "parse (render_command [''SET'', ''a b'', [], DQUOTE @ BACKSLASH]) = Ok [''SET'', ''a b'', [], DQUOTE @ BACKSLASH]"
  by (rule parse_render) (simp_all add: limits quote_argument_def escape_char_def)

section \<open>Unquoted lines are split at white space\<close>

text \<open>The reference: \<open>str::split_whitespace\<close>.\<close>

abbreviation non_ws :: "rchar \<Rightarrow> bool" where "non_ws c \<equiv> \<not> is_whitespace c"

function split_ws :: "rchar list \<Rightarrow> rstring list" where
  "split_ws cs =
     (let d = dropWhile is_whitespace cs
      in if d = [] then [] else concat (takeWhile non_ws d) # split_ws (dropWhile non_ws d))"
  by pat_completeness auto
termination
proof (relation "measure length", simp)
  fix cs d
  assume d: "d = dropWhile is_whitespace cs" and "d \<noteq> []"
  then have "non_ws (hd d)" by (metis hd_dropWhile)
  with \<open>d \<noteq> []\<close> have "length (dropWhile non_ws d) < length d"
    by (cases d) (simp_all add: length_dropWhile_le le_imp_less_Suc)
  also have "length d \<le> length cs" by (simp add: d length_dropWhile_le)
  finally show "(dropWhile non_ws d, cs) \<in> measure length" by simp
qed

declare split_ws.simps [simp del]

definition split_whitespace :: "rstring \<Rightarrow> rstring list" where
  "split_whitespace s = split_ws (str_chars s)"

definition plain_char :: "rchar \<Rightarrow> bool" where
  "plain_char c \<longleftrightarrow> c \<noteq> SQUOTE \<and> c \<noteq> DQUOTE \<and> c \<noteq> BACKSLASH"

lemma parse_chars_blanks:
  assumes "list_all is_whitespace ws"
  shows "parse_chars (ws @ cs) \<lparr>arguments = A, current = [], quote = None, argument_started = False\<rparr> =
         parse_chars cs \<lparr>arguments = A, current = [], quote = None, argument_started = False\<rparr>"
  using assms
proof (induction ws)
  case (Cons c ws)
  then have "c \<noteq> SQUOTE \<and> c \<noteq> DQUOTE \<and> c \<noteq> BACKSLASH" and "is_whitespace c"
    by (auto simp: is_whitespace_def)
  with Cons show ?case by (simp add: parse_step_defs)
qed simp

lemma parse_chars_word:
  assumes "list_all (\<lambda>c. plain_char c \<and> non_ws c) w"
  shows "parse_chars (w @ cs) \<lparr>arguments = A, current = C, quote = None, argument_started = True\<rparr> =
         parse_chars cs \<lparr>arguments = A, current = C @ concat w, quote = None, argument_started = True\<rparr>"
  using assms
  by (induction w arbitrary: C) (simp_all add: parse_step_defs push_def plain_char_def)

lemma parse_chars_plain:
  assumes "list_all plain_char cs"
  shows "\<exists>s. parse_chars cs \<lparr>arguments = A, current = [], quote = None, argument_started = False\<rparr> = Ok s \<and>
             quote s = None \<and>
             (if argument_started s then arguments s @ [current s] else arguments s) = A @ split_ws cs"
  using assms
proof (induction cs arbitrary: A rule: split_ws.induct)
  case (1 cs)
  let ?S = "\<lambda>A C b. \<lparr>arguments = A, current = C, quote = None, argument_started = b\<rparr>"
  define d where "d = dropWhile is_whitespace cs"
  have cs: "cs = takeWhile is_whitespace cs @ d" by (simp add: d_def)
  then have skip: "parse_chars cs (?S A [] False) = parse_chars d (?S A [] False)"
    using parse_chars_blanks [of "takeWhile is_whitespace cs" d A]
    by (simp add: list_all_iff) (metis set_takeWhileD)
  from cs "1.prems" have plain: "list_all plain_char d" by (metis list_all_append)
  show ?case
  proof (cases d)
    case Nil
    with skip show ?thesis by (simp add: split_ws.simps [of cs] d_def [symmetric])
  next
    case (Cons c d')
    define w where "w = takeWhile non_ws d"
    define r where "r = dropWhile non_ws d"
    have dwr: "d = w @ r" by (simp add: w_def r_def)
    have "non_ws c" using Cons d_def by (metis hd_dropWhile list.sel(1) list.simps(3))
    then obtain w' where w: "w = c # w'" using Cons by (simp add: w_def)
    have "list_all plain_char w" "list_all plain_char r" using plain by (simp_all add: dwr)
    moreover have "list_all non_ws w" by (auto simp: w_def list_all_iff dest: set_takeWhileD)
    ultimately have word: "list_all (\<lambda>c. plain_char c \<and> non_ws c) w" by (simp add: list_all_iff)
    then have run: "parse_chars d (?S A [] False) = parse_chars r (?S A (concat w) True)"
      using parse_chars_word [of w' r A c] \<open>non_ws c\<close>
      by (simp add: dwr w parse_step_defs push_def plain_char_def)
    have split: "split_ws cs = concat w # split_ws r"
      using Cons by (simp add: split_ws.simps [of cs] d_def [symmetric] w_def r_def)
    show ?thesis
    proof (cases r)
      case Nil
      with skip run split show ?thesis by (simp add: split_ws.simps [of "[]"])
    next
      case r: (Cons c' r')
      then have ws: "is_whitespace c'" by (metis hd_dropWhile list.sel(1) list.simps(3) r_def)
      have "plain_char c'" using plain by (simp add: dwr r)
      with ws r have "parse_chars r (?S A (concat w) True) = parse_chars r' (?S (A @ [concat w]) [] False)"
        by (simp add: parse_step_defs finish_argument_def plain_char_def)
      also have "\<dots> = parse_chars r (?S (A @ [concat w]) [] False)"
        using parse_chars_blanks [of "[c']" r'] ws r by simp
      finally have next_word: "parse_chars r (?S A (concat w) True) = parse_chars r (?S (A @ [concat w]) [] False)" .
      have "list_all plain_char r" using plain by (simp add: dwr)
      moreover have "d \<noteq> []" using Cons by simp
      ultimately show ?thesis
        using "1.IH" [OF d_def, folded r_def, of "A @ [concat w]"] unfolding skip run next_word split
        by simp
    qed
  qed
qed

text \<open>On a line without quotes and backslashes the tokenizer is \<open>split_whitespace\<close>: it accepts the
  line exactly when that gives 1 to 256 words, and returns those words.\<close>

theorem parse_plain:
  assumes "list_all plain_char (str_chars command)" and "length command \<le> MAX_COMMAND_LENGTH"
  shows "parse command = Ok args \<longleftrightarrow>
         args = split_whitespace command \<and> args \<noteq> [] \<and> length args \<le> MAX_ARGUMENTS"
proof -
  obtain s where "parse_chars (str_chars command) start_state = Ok s" and "quote s = None"
    and "(if argument_started s then arguments s @ [current s] else arguments s) = split_whitespace command"
    using parse_chars_plain [OF assms(1), of "[]"] by (auto simp: start_state_def split_whitespace_def)
  with assms(2) show ?thesis by (auto simp: parse_def finish_parse_Ok)
qed

theorem parse_plain_witness: "parse ''  GET   key '' = Ok [''GET'', ''key'']"
  by (subst parse_plain)
    (simp_all add: plain_char_def limits split_whitespace_def split_ws.simps is_whitespace_def)

end
