(* ===== verification/Launcher_Text.thy ===== *)
theory Launcher_Text
  imports Launcher_Prelude
begin

text \<open>
  Searching a Rust string, as the HTTP API does to choose a status and the tests do to check a
  message.
\<close>

text \<open>\<open>str::contains\<close>.\<close>

fun contains :: "rstring \<Rightarrow> rstring \<Rightarrow> bool" where
  "contains needle [] = (needle = [])"
| "contains needle (c # cs) = (starts_with (c # cs) needle \<or> contains needle cs)"

lemma contains_iff: "contains needle s \<longleftrightarrow> (\<exists>xs ys. s = xs @ needle @ ys)"
proof (induction s)
  case (Cons c cs)
  have "(\<exists>xs ys. c # cs = xs @ needle @ ys) \<longleftrightarrow> (\<exists>ys. c # cs = needle @ ys) \<or> (\<exists>xs ys. cs = xs @ needle @ ys)"
    by (auto simp: Cons_eq_append_conv append_eq_Cons_conv)
  moreover have "starts_with (c # cs) needle \<longleftrightarrow> (\<exists>ys. c # cs = needle @ ys)"
    by (metis starts_with.simps append_eq_conv_conj append_take_drop_id)
  ultimately show ?case using Cons.IH by simp
qed simp

end
