(* ===== verification/Command_Tests.thy ===== *)
theory Command_Tests
  imports Command_Line Launcher_Text
begin

text \<open>
  The repository's own tests of the tokenizer (module \<open>tests\<close> of \<open>command.rs\<close>), each as a predicate on
  the model, and that it holds.
\<close>

definition parse_fails :: "rstring \<Rightarrow> rstring \<Rightarrow> bool" where
  "parse_fails command reason \<longleftrightarrow> (case parse command of Ok _ \<Rightarrow> False | Err e \<Rightarrow> contains reason e)"

definition parses_quoted_and_escaped_commands :: bool where
  "parses_quoted_and_escaped_commands \<longleftrightarrow>
     parse (''SET '' @ DQUOTE @ ''hello world'' @ DQUOTE @ '' '' @ SQUOTE @ ''value with spaces'' @ SQUOTE) =
       Ok [''SET'', ''hello world'', ''value with spaces''] \<and>
     parse (''SET escaped'' @ BACKSLASH @ '' key line'' @ BACKSLASH @ ''nbreak'') =
       Ok [''SET'', ''escaped key'', ''line'' @ [LF] @ ''break''] \<and>
     parse (''SET empty '' @ DQUOTE @ DQUOTE) = Ok [''SET'', ''empty'', []]"

definition rejects_invalid_commands :: bool where
  "rejects_invalid_commands \<longleftrightarrow>
     parse_fails ''   '' ''empty'' \<and>
     parse_fails (''GET '' @ DQUOTE @ ''missing'') ''unterminated'' \<and>
     parse_fails (''GET trailing'' @ BACKSLASH) ''incomplete escape''"

fun join :: "rstring list \<Rightarrow> rstring \<Rightarrow> rstring" where
  "join [] separator = []"
| "join [x] separator = x"
| "join (x # xs) separator = x @ separator @ join xs separator"

definition rejects_oversized_and_overlong_argument_lists :: bool where
  "rejects_oversized_and_overlong_argument_lists \<longleftrightarrow>
     parse_fails (replicate (MAX_COMMAND_LENGTH + 1) (CHR ''A'')) ''too long'' \<and>
     parse_fails (join (replicate (MAX_ARGUMENTS + 1) ''X'') '' '') ''too many arguments''"

section \<open>Their results\<close>

lemmas parse_eval = parse_def start_state_def parse_step_defs finish_parse_def finish_argument_def push_def
  unescape_def is_whitespace_def incomplete_escape_def

lemma quoting_tests_hold: parses_quoted_and_escaped_commands
  by (simp add: parses_quoted_and_escaped_commands_def parse_eval limits)

lemma invalid_tests_hold: rejects_invalid_commands
  by (simp add: rejects_invalid_commands_def parse_fails_def parse_eval limits)

lemma join_replicate: "join (replicate (Suc n) x) y = x @ concat (replicate n (y @ x))"
  by (induction n) simp_all

lemma parse_chars_repeated:
  "parse_chars (str_chars (concat (replicate n '' X''))) \<lparr>arguments = A, current = ''X'', quote = None, argument_started = True\<rparr> =
     Ok \<lparr>arguments = A @ replicate n ''X'', current = ''X'', quote = None, argument_started = True\<rparr>"
  by (induction n arbitrary: A)
    (simp_all add: parse_step_defs push_def finish_argument_def is_whitespace_def)

lemma limit_tests_hold: rejects_oversized_and_overlong_argument_lists
proof -
  let ?many = "join (replicate (MAX_ARGUMENTS + 1) ''X'') '' ''"
  have many: "?many = ''X'' @ concat (replicate MAX_ARGUMENTS '' X'')"
    using join_replicate [of MAX_ARGUMENTS "''X''" "'' ''"] by simp
  have "length (concat (replicate n '' X'')) = 2 * n" for n by (induction n) simp_all
  then have "length ?many \<le> MAX_COMMAND_LENGTH" unfolding many by (simp add: limits)
  moreover have "parse_chars (str_chars ?many) start_state =
      Ok \<lparr>arguments = replicate MAX_ARGUMENTS ''X'', current = ''X'', quote = None, argument_started = True\<rparr>"
    unfolding many using parse_chars_repeated [of MAX_ARGUMENTS "[]"]
    by (simp add: start_state_def parse_step_defs push_def is_whitespace_def)
  ultimately have "parse ?many = Err (''command has too many arguments (maximum '' @ show_nat MAX_ARGUMENTS @ '')'')"
    by (simp add: parse_def finish_parse_def)
  then have "parse_fails ?many ''too many arguments''" by (simp add: parse_fails_def)
  moreover have "parse_fails (replicate (MAX_COMMAND_LENGTH + 1) (CHR ''A'')) ''too long''"
    by (simp add: parse_fails_def parse_def)
  ultimately show ?thesis by (simp add: rejects_oversized_and_overlong_argument_lists_def)
qed

end
