(* ===== verification/Budget.thy ===== *)
theory Budget
  imports Resp_Limits
begin

text \<open>
  The budgets of the launcher.  Every buffer and every decoded or produced reply is charged to a
  counter that refuses what would exceed its limit.  The contract such counters share is the
  locale \<open>meter\<close>: what a charge costs, when it is refused and what a sequence of charges adds up
  to.  The second part is \<open>ResponseBudget\<close> of \<open>resp.rs\<close>, whose three counters are the first
  instances; the output buffer of the encoder, the JSON budget, the request byte budget and
  the HTTP body buffer are the others.
\<close>

section \<open>The contract\<close>

text \<open>A sequence of charges that stops at the first refusal, as the code's \<open>?\<close> does.\<close>

fun charge_all :: "('s \<Rightarrow> 'b \<Rightarrow> ('s, 'e) result) \<Rightarrow> 's \<Rightarrow> 'b list \<Rightarrow> ('s, 'e) result" where
  "charge_all charge s [] = Ok s"
| "charge_all charge s (b # bs) = and_then (charge s b) (\<lambda>s. charge_all charge s bs)"

lemma charge_all_append:
  "charge_all charge s (xs @ ys) = and_then (charge_all charge s xs) (\<lambda>s. charge_all charge s ys)"
proof (induction xs arbitrary: s)
  case (Cons x xs)
  show ?case by (cases "charge s x") (simp_all add: Cons.IH)
qed simp

locale meter =
  fixes charge :: "'s \<Rightarrow> 'b \<Rightarrow> ('s, 'e) result"
    and weight :: "'b \<Rightarrow> nat"
    and used :: "'s \<Rightarrow> nat"
    and cap :: "'s \<Rightarrow> nat"
    and refusal :: "'s \<Rightarrow> 'e"
    and sound :: "'s \<Rightarrow> bool"
  assumes accepts: "sound s \<Longrightarrow> used s + weight b \<le> cap s \<Longrightarrow> \<exists>s'. charge s b = Ok s'"
    and refuses: "sound s \<Longrightarrow> cap s < used s + weight b \<Longrightarrow> charge s b = Err (refusal s)"
    and charged: "sound s \<Longrightarrow> charge s b = Ok s' \<Longrightarrow>
      sound s' \<and> used s' = used s + weight b \<and> cap s' = cap s \<and> refusal s' = refusal s"
begin

lemma charge_Ok_iff: "sound s \<Longrightarrow> (\<exists>s'. charge s b = Ok s') \<longleftrightarrow> used s + weight b \<le> cap s"
  using accepts [of s b] refuses [of s b] by (cases "charge s b") (auto simp: not_le [symmetric])

lemma charge_within: "sound s \<Longrightarrow> charge s b = Ok s' \<Longrightarrow> used s' \<le> cap s'"
  using charge_Ok_iff [of s b] charged [of s b s'] by auto

lemma charge_all_charged:
  "sound s \<Longrightarrow> charge_all charge s bs = Ok s' \<Longrightarrow>
     sound s' \<and> used s' = used s + sum_list (map weight bs) \<and> cap s' = cap s \<and> refusal s' = refusal s"
proof (induction bs arbitrary: s)
  case (Cons b bs)
  then obtain t where t: "charge s b = Ok t" "charge_all charge t bs = Ok s'" by auto
  from charged [OF Cons.prems(1) t(1)] Cons.IH [OF _ t(2)] show ?case by simp
qed simp

lemma charge_all_Ok:
  "sound s \<Longrightarrow> used s + sum_list (map weight bs) \<le> cap s \<Longrightarrow> \<exists>s'. charge_all charge s bs = Ok s'"
proof (induction bs arbitrary: s)
  case (Cons b bs)
  then obtain t where t: "charge s b = Ok t" using accepts [of s b] by auto
  from charged [OF Cons.prems(1) t] Cons.prems(2) Cons.IH [of t] t show ?case by auto
qed simp

lemma charge_all_Err:
  "sound s \<Longrightarrow> used s \<le> cap s \<Longrightarrow> cap s < used s + sum_list (map weight bs) \<Longrightarrow>
     charge_all charge s bs = Err (refusal s)"
proof (induction bs arbitrary: s)
  case (Cons b bs)
  show ?case
  proof (cases "charge s b")
    case (Ok t)
    with charged [OF Cons.prems(1) Ok] charge_within [OF Cons.prems(1) Ok] Cons.prems(3) Cons.IH [of t]
    show ?thesis by simp
  next
    case (Err e)
    with Cons.prems(1) accepts [of s b] refuses [of s b] show ?thesis by (cases "used s + weight b \<le> cap s") auto
  qed
qed simp

lemma charge_all_iff:
  "sound s \<Longrightarrow> used s \<le> cap s \<Longrightarrow>
     (\<exists>s'. charge_all charge s bs = Ok s') \<longleftrightarrow> used s + sum_list (map weight bs) \<le> cap s"
  using charge_all_Ok [of s bs] charge_all_Err [of s bs] by (cases "used s + sum_list (map weight bs) \<le> cap s") auto

end

section \<open>\<open>ResponseBudget\<close>\<close>

record ResponseBudget =
  byte_limit :: nat
  bytes_used :: nat
  node_limit :: nat
  nodes_used :: nat
  element_limit :: nat
  elements_used :: nat

definition with_limits :: "nat \<Rightarrow> nat \<Rightarrow> nat \<Rightarrow> ResponseBudget" where
  "with_limits bytes nodes elements =
     \<lparr>byte_limit = bytes, bytes_used = 0, node_limit = nodes, nodes_used = 0,
      element_limit = elements, elements_used = 0\<rparr>"

definition new_budget :: "nat \<Rightarrow> ResponseBudget" where
  "new_budget bytes = with_limits bytes MAX_RESPONSE_NODES MAX_RESPONSE_ELEMENTS"

definition default_budget :: ResponseBudget where
  "default_budget = new_budget MAX_RESPONSE_BYTES"

definition byte_refusal :: "ResponseBudget \<Rightarrow> rstring" where
  "byte_refusal b =
     ''response exceeds the playground response budget of '' @ show_nat (byte_limit b) @ '' bytes''"

definition consume_bytes :: "ResponseBudget \<Rightarrow> nat \<Rightarrow> (ResponseBudget, rstring) result" where
  "consume_bytes b n =
     (let next = saturating_add (bytes_used b) n in
      if next > byte_limit b then Err (byte_refusal b) else Ok (b\<lparr>bytes_used := next\<rparr>))"

definition node_refusal :: "ResponseBudget \<Rightarrow> rstring" where
  "node_refusal b =
     ''response exceeds the playground decoded-node budget of '' @ show_nat (node_limit b) @ '' values''"

definition consume_node :: "ResponseBudget \<Rightarrow> (ResponseBudget, rstring) result" where
  "consume_node b =
     (let next = saturating_add (nodes_used b) 1 in
      if next > node_limit b then Err (node_refusal b) else Ok (b\<lparr>nodes_used := next\<rparr>))"

definition element_refusal :: "ResponseBudget \<Rightarrow> rstring" where
  "element_refusal b =
     ''response exceeds the playground decoded-element budget of '' @ show_nat (element_limit b) @ '' elements''"

definition reserve_elements :: "ResponseBudget \<Rightarrow> nat \<Rightarrow> (ResponseBudget, rstring) result" where
  "reserve_elements b n =
     (let next = saturating_add (elements_used b) n in
      if next > element_limit b then Err (element_refusal b) else Ok (b\<lparr>elements_used := next\<rparr>))"

text \<open>The limits of the program lie far below \<open>usize::MAX\<close>, where saturation would hide an excess.\<close>

definition small_limits :: "ResponseBudget \<Rightarrow> bool" where
  "small_limits b \<longleftrightarrow>
     byte_limit b < USIZE_MAX \<and> node_limit b < USIZE_MAX \<and> element_limit b < USIZE_MAX"

lemma small_limits_new [simp]: "bytes < USIZE_MAX \<Longrightarrow> small_limits (new_budget bytes)"
  by (simp add: small_limits_def new_budget_def with_limits_def limits)

interpretation byte_budget: meter consume_bytes "\<lambda>n. n" bytes_used byte_limit byte_refusal small_limits
  by unfold_locales
    (auto simp: consume_bytes_def small_limits_def byte_refusal_def saturating_add_def Let_def split: if_splits)

interpretation node_budget: meter "\<lambda>b (_ :: unit). consume_node b" "\<lambda>_. 1" nodes_used node_limit
    node_refusal small_limits
  by unfold_locales
    (auto simp: consume_node_def small_limits_def node_refusal_def saturating_add_def Let_def split: if_splits)

interpretation element_budget: meter reserve_elements "\<lambda>n. n" elements_used element_limit
    element_refusal small_limits
  by unfold_locales
    (auto simp: reserve_elements_def small_limits_def element_refusal_def saturating_add_def Let_def split: if_splits)

text \<open>A budget is respected when no counter stands above its limit.\<close>

definition within_limits :: "ResponseBudget \<Rightarrow> bool" where
  "within_limits b \<longleftrightarrow>
     bytes_used b \<le> byte_limit b \<and> nodes_used b \<le> node_limit b \<and> elements_used b \<le> element_limit b"

lemma within_limits_new [simp]: "within_limits (new_budget bytes)"
  by (simp add: within_limits_def new_budget_def with_limits_def)

text \<open>The effect of charges on the whole record: exact spending.\<close>

definition spend :: "nat \<Rightarrow> nat \<Rightarrow> nat \<Rightarrow> ResponseBudget \<Rightarrow> ResponseBudget" where
  "spend bytes nodes elements b =
     b\<lparr>bytes_used := bytes_used b + bytes, nodes_used := nodes_used b + nodes,
       elements_used := elements_used b + elements\<rparr>"

definition affords :: "nat \<Rightarrow> nat \<Rightarrow> nat \<Rightarrow> ResponseBudget \<Rightarrow> bool" where
  "affords bytes nodes elements b \<longleftrightarrow>
     bytes_used b + bytes \<le> byte_limit b \<and> nodes_used b + nodes \<le> node_limit b \<and>
     elements_used b + elements \<le> element_limit b"

lemma spend_simps [simp]:
  "spend 0 0 0 b = b"
  "spend y m f (spend x n e b) = spend (x + y) (n + m) (e + f) b"
  "small_limits (spend x n e b) = small_limits b"
  "byte_limit (spend x n e b) = byte_limit b"
  "node_limit (spend x n e b) = node_limit b"
  "element_limit (spend x n e b) = element_limit b"
  "bytes_used (spend x n e b) = bytes_used b + x"
  "nodes_used (spend x n e b) = nodes_used b + n"
  "elements_used (spend x n e b) = elements_used b + e"
  "affords y m f (spend x n e b) = affords (x + y) (n + m) (e + f) b"
  by (simp_all add: spend_def small_limits_def affords_def add.assoc)

lemma affords_mono: "affords x n e b \<Longrightarrow> x' \<le> x \<Longrightarrow> n' \<le> n \<Longrightarrow> e' \<le> e \<Longrightarrow> affords x' n' e' b"
  by (simp add: affords_def)

lemma consume_bytes_Ok:
  "small_limits b \<Longrightarrow> consume_bytes b x = Ok b' \<longleftrightarrow> bytes_used b + x \<le> byte_limit b \<and> b' = spend x 0 0 b"
  by (auto simp: consume_bytes_def Let_def small_limits_def saturating_add_def spend_def split: if_splits)

lemma consume_node_Ok:
  "small_limits b \<Longrightarrow> consume_node b = Ok b' \<longleftrightarrow> nodes_used b + 1 \<le> node_limit b \<and> b' = spend 0 1 0 b"
  by (auto simp: consume_node_def Let_def small_limits_def saturating_add_def spend_def split: if_splits)

lemma reserve_elements_Ok:
  "small_limits b \<Longrightarrow> reserve_elements b e = Ok b' \<longleftrightarrow> elements_used b + e \<le> element_limit b \<and> b' = spend 0 0 e b"
  by (auto simp: reserve_elements_def Let_def small_limits_def saturating_add_def spend_def split: if_splits)

lemmas budget_Ok = consume_bytes_Ok consume_node_Ok reserve_elements_Ok

end
