(* ===== verification/Resp_Value.thy ===== *)
theory Resp_Value
  imports Budget
begin

text \<open>
  The encoding half of \<open>resp.rs\<close>: the RESP2/RESP3 values, \<open>encode_command\<close>, \<open>encode_value\<close> with its
  bounded output buffer, and \<open>encode_error\<close>.  \<open>wire\<close> is the protocol's own definition of the
  encoding, without a bound; the lemmas show that the code appends exactly that or refuses.
\<close>

datatype RespValue =
    Simple rstring
  | Error rstring
  | Integer int
  | Bulk "bytes option"
  | Array "RespValue list option"
  | Null
  | Boolean bool
  | Double rstring
  | BigNumber rstring
  | BlobError bytes
  | Verbatim bytes
  | Map "(RespValue \<times> RespValue) list"
  | Set "RespValue list"
  | Push "RespValue list"

section \<open>Commands\<close>

definition encode_argument :: "bytes \<Rightarrow> bytes" where
  "encode_argument argument = ''$'' @ show_nat (length argument) @ crlf @ argument @ crlf"

definition encode_command :: "bytes list \<Rightarrow> bytes" where
  "encode_command arguments =
     ''*'' @ show_nat (length arguments) @ crlf @ concat (map encode_argument arguments)"

section \<open>The bounded output buffer\<close>

definition append_refusal :: "nat \<Rightarrow> rstring" where
  "append_refusal limit =
     ''encoded response exceeds the playground output budget of '' @ show_nat limit @ '' bytes''"

definition append_bytes :: "bytes \<Rightarrow> bytes \<Rightarrow> nat \<Rightarrow> (bytes, rstring) result" where
  "append_bytes out bs limit =
     (if saturating_add (length out) (length bs) > limit then Err (append_refusal limit) else Ok (out @ bs))"

interpretation out_buffer: meter "\<lambda>out bs. append_bytes out bs limit" length length "\<lambda>_. limit"
    "\<lambda>_. append_refusal limit" "\<lambda>_. limit < USIZE_MAX" for limit
  by unfold_locales (auto simp: append_bytes_def saturating_add_gt split: if_splits)

section \<open>\<open>encode_value\<close>\<close>

text \<open>
  \<open>out\<close> is threaded through the appends.  After an error the code leaves a partial buffer behind
  that no caller reads again, so the error carries no buffer.
\<close>

function encode_value :: "RespValue \<Rightarrow> bytes \<Rightarrow> nat \<Rightarrow> (bytes, rstring) result"
  and encode_values :: "RespValue list \<Rightarrow> bytes \<Rightarrow> nat \<Rightarrow> (bytes, rstring) result"
  and encode_entries :: "(RespValue \<times> RespValue) list \<Rightarrow> bytes \<Rightarrow> nat \<Rightarrow> (bytes, rstring) result" where
  "encode_value (Simple value) out limit =
     and_then (append_bytes out ''+'' limit) (\<lambda>out.
     and_then (append_bytes out value limit) (\<lambda>out. append_bytes out crlf limit))"
| "encode_value (Error error) out limit =
     and_then (append_bytes out ''-'' limit) (\<lambda>out.
     and_then (append_bytes out error limit) (\<lambda>out. append_bytes out crlf limit))"
| "encode_value (Integer value) out limit = append_bytes out ('':'' @ show_int value @ crlf) limit"
| "encode_value (Bulk None) out limit = append_bytes out (''$-1'' @ crlf) limit"
| "encode_value (Bulk (Some data)) out limit =
     and_then (append_bytes out (''$'' @ show_nat (length data) @ crlf) limit) (\<lambda>out.
     and_then (append_bytes out data limit) (\<lambda>out. append_bytes out crlf limit))"
| "encode_value (Array None) out limit = append_bytes out (''*-1'' @ crlf) limit"
| "encode_value (Array (Some values)) out limit =
     and_then (append_bytes out (''*'' @ show_nat (length values) @ crlf) limit) (\<lambda>out.
       encode_values values out limit)"
| "encode_value Null out limit = append_bytes out (''_'' @ crlf) limit"
| "encode_value (Boolean value) out limit =
     append_bytes out (if value then ''#t'' @ crlf else ''#f'' @ crlf) limit"
| "encode_value (Double value) out limit = append_bytes out ('','' @ value @ crlf) limit"
| "encode_value (BigNumber value) out limit = append_bytes out (''('' @ value @ crlf) limit"
| "encode_value (BlobError data) out limit =
     and_then (append_bytes out (''!'' @ show_nat (length data) @ crlf) limit) (\<lambda>out.
     and_then (append_bytes out data limit) (\<lambda>out. append_bytes out crlf limit))"
| "encode_value (Verbatim data) out limit =
     and_then (append_bytes out (''='' @ show_nat (length data) @ crlf) limit) (\<lambda>out.
     and_then (append_bytes out data limit) (\<lambda>out. append_bytes out crlf limit))"
| "encode_value (Map entries) out limit =
     and_then (append_bytes out (''%'' @ show_nat (length entries) @ crlf) limit) (\<lambda>out.
       encode_entries entries out limit)"
| "encode_value (Set values) out limit =
     and_then (append_bytes out (''~'' @ show_nat (length values) @ crlf) limit) (\<lambda>out.
       encode_values values out limit)"
| "encode_value (Push values) out limit =
     and_then (append_bytes out (''>'' @ show_nat (length values) @ crlf) limit) (\<lambda>out.
       encode_values values out limit)"
| "encode_values [] out limit = Ok out"
| "encode_values (value # values) out limit =
     and_then (encode_value value out limit) (\<lambda>out. encode_values values out limit)"
| "encode_entries [] out limit = Ok out"
| "encode_entries ((key, value) # entries) out limit =
     and_then (encode_value key out limit) (\<lambda>out.
     and_then (encode_value value out limit) (\<lambda>out. encode_entries entries out limit))"
  by pat_completeness auto
termination
  by (relation "measure (\<lambda>x. case x of
        Inl (v, _) \<Rightarrow> 2 * size v
      | Inr (Inl (vs, _)) \<Rightarrow> Suc (2 * size_list size vs)
      | Inr (Inr (es, _)) \<Rightarrow> Suc (2 * size_list (size_prod size size) es))")
    auto

text \<open>\<open>encode_error\<close>; \<open>None\<close> is the panic of its \<open>expect\<close>.\<close>

definition encode_error :: "rstring \<Rightarrow> bytes option" where
  "encode_error msg =
     (case encode_value (Error msg) [] MAX_RESPONSE_BYTES of Ok out \<Rightarrow> Some out | Err _ \<Rightarrow> None)"

section \<open>The specification of the encoding\<close>

text \<open>The pieces a value is made of on the wire, in order, and their concatenation.\<close>

definition line :: "u8 \<Rightarrow> bytes \<Rightarrow> bytes" where
  "line prefix payload = prefix # payload @ crlf"

definition blob :: "u8 \<Rightarrow> bytes \<Rightarrow> bytes" where
  "blob prefix data = line prefix (show_nat (length data)) @ data @ crlf"

function wire :: "RespValue \<Rightarrow> bytes"
  and wires :: "RespValue list \<Rightarrow> bytes"
  and wire_entries :: "(RespValue \<times> RespValue) list \<Rightarrow> bytes" where
  "wire (Simple s) = line (CHR ''+'') s"
| "wire (Error e) = line (CHR ''-'') e"
| "wire (Integer i) = line (CHR '':'') (show_int i)"
| "wire (Bulk None) = line (CHR ''$'') ''-1''"
| "wire (Bulk (Some data)) = blob (CHR ''$'') data"
| "wire (Array None) = line (CHR ''*'') ''-1''"
| "wire (Array (Some vs)) = line (CHR ''*'') (show_nat (length vs)) @ wires vs"
| "wire Null = line (CHR ''_'') []"
| "wire (Boolean b) = line (CHR ''#'') (if b then ''t'' else ''f'')"
| "wire (Double s) = line (CHR '','') s"
| "wire (BigNumber s) = line (CHR ''('') s"
| "wire (BlobError data) = blob (CHR ''!'') data"
| "wire (Verbatim data) = blob (CHR ''='') data"
| "wire (Map es) = line (CHR ''%'') (show_nat (length es)) @ wire_entries es"
| "wire (Set vs) = line (CHR ''~'') (show_nat (length vs)) @ wires vs"
| "wire (Push vs) = line (CHR ''>'') (show_nat (length vs)) @ wires vs"
| "wires [] = []"
| "wires (v # vs) = wire v @ wires vs"
| "wire_entries [] = []"
| "wire_entries ((k, v) # es) = wire k @ wire v @ wire_entries es"
  by pat_completeness auto
termination
  by (relation "measure (\<lambda>x. case x of
        Inl v \<Rightarrow> 2 * size v
      | Inr (Inl vs) \<Rightarrow> Suc (2 * size_list size vs)
      | Inr (Inr es) \<Rightarrow> Suc (2 * size_list (size_prod size size) es))")
    auto

lemmas value_induct = wire_wires_wire_entries.induct

lemma length_line [simp]: "length (line prefix payload) = length payload + 3"
  by (simp add: line_def)

lemma length_blob: "length (blob prefix data) = length (show_nat (length data)) + length data + 5"
  by (simp add: blob_def)

lemma wire_nonempty [simp]: "wire v \<noteq> []"
  by (cases v rule: wire.cases) (simp_all add: line_def blob_def)


section \<open>The encoder appends the wire form or refuses\<close>

text \<open>One statement for values, lists and entries: an append of the whole wire form.\<close>

definition emit :: "bytes \<Rightarrow> bytes \<Rightarrow> nat \<Rightarrow> (bytes, rstring) result" where
  "emit out bs limit =
     (if length out + length bs \<le> limit then Ok (out @ bs) else Err (append_refusal limit))"

lemma append_is_emit: "limit < USIZE_MAX \<Longrightarrow> append_bytes out bs limit = emit out bs limit"
  by (auto simp: append_bytes_def emit_def saturating_add_gt)

lemma emit_emit:
  "and_then (emit out bs limit) (\<lambda>out. emit out cs limit) = emit out (bs @ cs) limit"
  by (simp add: emit_def)

lemma emit_emit_then:
  "and_then (emit out bs limit) (\<lambda>out. and_then (emit out cs limit) f) = and_then (emit out (bs @ cs) limit) f"
  by (simp add: emit_def)

lemma emit_Nil: "length out \<le> limit \<Longrightarrow> emit out [] limit = Ok out"
  by (simp add: emit_def)

lemma emit_then:
  assumes "\<And>out. length out \<le> limit \<Longrightarrow> f out = emit out cs limit"
  shows "and_then (emit out bs limit) f = emit out (bs @ cs) limit"
proof (cases "length out + length bs \<le> limit")
  case True
  with assms [of "out @ bs"] show ?thesis by (simp add: emit_def)
qed (simp add: emit_def)

lemma encode_is_emit:
  assumes limit: "limit < USIZE_MAX"
  shows "encode_value v out limit = emit out (wire v) limit"
    and "length out \<le> limit \<Longrightarrow> encode_values vs out limit = emit out (wires vs) limit"
    and "length out \<le> limit \<Longrightarrow> encode_entries es out limit = emit out (wire_entries es) limit"
proof (induction v and vs and es arbitrary: out and out and out rule: value_induct)
  case (7 vs)
  have "encode_value (Array (Some vs)) out limit =
      and_then (emit out (line (CHR ''*'') (show_nat (length vs))) limit) (\<lambda>out. encode_values vs out limit)"
    by (simp add: append_is_emit limit line_def)
  also have "\<dots> = emit out (wire (Array (Some vs))) limit"
    using 7 by (simp add: emit_then)
  finally show ?case .
next
  case (14 es)
  have "encode_value (Map es) out limit =
      and_then (emit out (line (CHR ''%'') (show_nat (length es))) limit) (\<lambda>out. encode_entries es out limit)"
    by (simp add: append_is_emit limit line_def)
  also have "\<dots> = emit out (wire (Map es)) limit"
    using 14 by (simp add: emit_then)
  finally show ?case .
next
  case (15 vs)
  have "encode_value (Set vs) out limit =
      and_then (emit out (line (CHR ''~'') (show_nat (length vs))) limit) (\<lambda>out. encode_values vs out limit)"
    by (simp add: append_is_emit limit line_def)
  also have "\<dots> = emit out (wire (Set vs)) limit"
    using 15 by (simp add: emit_then)
  finally show ?case .
next
  case (16 vs)
  have "encode_value (Push vs) out limit =
      and_then (emit out (line (CHR ''>'') (show_nat (length vs))) limit) (\<lambda>out. encode_values vs out limit)"
    by (simp add: append_is_emit limit line_def)
  also have "\<dots> = emit out (wire (Push vs)) limit"
    using 16 by (simp add: emit_then)
  finally show ?case .
next
  case (18 v vs)
  then show ?case by (simp add: emit_then)
next
  case (20 k v es)
  have "and_then (encode_value v out limit) (\<lambda>out. encode_entries es out limit) = emit out (wire v @ wire_entries es) limit" for out
    using 20 by (simp add: emit_then)
  with 20 show ?case by (simp add: emit_then)
qed (simp_all add: append_is_emit limit line_def blob_def emit_emit emit_emit_then emit_Nil)

text \<open>C27: \<open>encode_value\<close> appends exactly the wire form of the value to the output buffer, or, when the
  buffer would grow beyond its limit, refuses; what it already holds is never changed.\<close>

theorem encode_value_refines_wire:
  assumes "limit < USIZE_MAX"
  shows "encode_value v out limit =
    (if length out + length (wire v) \<le> limit then Ok (out @ wire v) else Err (append_refusal limit))"
  using encode_is_emit(1) [OF assms] by (simp add: emit_def)

theorem encode_value_refines_wire_witness:
  "encode_value (Array (Some [Integer (-7), Bulk (Some ''hi'')])) [] 17 =
     Ok (''*2'' @ crlf @ '':-7'' @ crlf @ ''$2'' @ crlf @ ''hi'' @ crlf) \<and>
   encode_value (Array (Some [Integer (-7), Bulk (Some ''hi'')])) [] 16 = Err (append_refusal 16)"
proof -
  have small: "17 < USIZE_MAX" "16 < USIZE_MAX" by (simp_all add: limits)
  show ?thesis
    unfolding encode_value_refines_wire [OF small(1)] encode_value_refines_wire [OF small(2)]
    by (simp add: line_def blob_def show_int_def show_nat.simps numeral_2_eq_2 [symmetric])
qed

section \<open>Error replies\<close>

lemma encode_error_wire:
  "encode_error msg =
     (if length msg + 3 \<le> MAX_RESPONSE_BYTES then Some (wire (Error msg)) else None)"
proof -
  have "MAX_RESPONSE_BYTES < USIZE_MAX" by (simp add: limits)
  from encode_is_emit(1) [OF this, of "Error msg" "[]"] show ?thesis
    by (simp add: encode_error_def emit_def)
qed

end
