(* ===== verification/Io_Stream.thy ===== *)
theory Io_Stream
  imports Launcher_Prelude
begin

text \<open>
  What the code sees of a buffered input stream: the bytes that will arrive and how the stream
  goes on after them.  Tokio's \<open>read_until\<close> and \<open>read_exact\<close> are modelled by their documented
  behaviour; the error texts of the operating system and of tokio are data of the stream.
\<close>

text \<open>
  After its last byte a stream is closed by the peer (with the text tokio gives to a short
  \<open>read_exact\<close>), fails, or stays open and silent, so that a read of more never completes.
\<close>

datatype stream_end = Closed rstring | Broken rstring | Silent

record stream =
  pending :: bytes
  ending :: stream_end

text \<open>How an asynchronous operation can fail to deliver: an error text, or it never completes.\<close>

datatype fault = Fail rstring | Hang

fun in_context :: "rstring \<Rightarrow> fault \<Rightarrow> fault" where
  "in_context prefix (Fail msg) = Fail (prefix @ msg)"
| "in_context prefix Hang = Hang"

definition fallible :: "('a, rstring) result \<Rightarrow> ('a, fault) result" where
  "fallible r = map_err Fail r"

text \<open>\<open>read_until(delimiter, ..)\<close>: up to and including the delimiter, or up to the end of the stream.\<close>

fun split_after :: "'a \<Rightarrow> 'a list \<Rightarrow> ('a list \<times> 'a list) option" where
  "split_after d [] = None"
| "split_after d (x # xs) =
     (if x = d then Some ([x], xs) else map_option (\<lambda>(a, b). (x # a, b)) (split_after d xs))"

definition read_until :: "u8 \<Rightarrow> stream \<Rightarrow> (bytes \<times> stream, fault) result" where
  "read_until d s =
     (case split_after d (pending s) of
        Some (taken, rest) \<Rightarrow> Ok (taken, s\<lparr>pending := rest\<rparr>)
      | None \<Rightarrow>
          (case ending s of
             Closed _ \<Rightarrow> Ok (pending s, s\<lparr>pending := []\<rparr>)
           | Broken msg \<Rightarrow> Err (Fail msg)
           | Silent \<Rightarrow> Err Hang))"

text \<open>\<open>read_exact\<close> of \<open>n\<close> bytes.\<close>

definition read_exact :: "nat \<Rightarrow> stream \<Rightarrow> (bytes \<times> stream, fault) result" where
  "read_exact n s =
     (if n \<le> length (pending s) then Ok (take n (pending s), s\<lparr>pending := drop n (pending s)\<rparr>)
      else
        (case ending s of
           Closed short \<Rightarrow> Err (Fail short)
         | Broken msg \<Rightarrow> Err (Fail msg)
         | Silent \<Rightarrow> Err Hang))"

text \<open>\<open>timeout(d, op)\<close>: an operation that does not complete in time is abandoned for the given error.\<close>

definition with_timeout :: "rstring \<Rightarrow> ('a, fault) result \<Rightarrow> ('a, fault) result" where
  "with_timeout msg r = (case r of Err Hang \<Rightarrow> Err (Fail msg) | _ \<Rightarrow> r)"

section \<open>Lemmas\<close>

lemma in_context_Hang [simp]: "in_context prefix f = Hang \<longleftrightarrow> f = Hang" "Hang = in_context prefix f \<longleftrightarrow> f = Hang"
  by (cases f; simp)+

lemma fallible_Ok_iff [simp]: "fallible r = Ok a \<longleftrightarrow> r = Ok a"
  by (simp add: fallible_def)

lemma fallible_Err_iff [simp]: "fallible r = Err f \<longleftrightarrow> (\<exists>e. r = Err e \<and> f = Fail e)"
  by (simp add: fallible_def)

lemma fallible_simps [simp]: "fallible (Ok a) = Ok a" "fallible (Err e) = Err (Fail e)"
  by (simp_all add: fallible_def)

lemma split_after_Some: "split_after d xs = Some (a, b) \<Longrightarrow> xs = a @ b \<and> a \<noteq> [] \<and> last a = d \<and> d \<notin> set (butlast a)"
proof (induction xs arbitrary: a)
  case (Cons x xs)
  then show ?case by (auto split: if_splits)
qed simp

lemma split_after_None: "split_after d xs = None \<longleftrightarrow> d \<notin> set xs"
  by (induction xs) auto

lemma split_after_append [simp]: "d \<notin> set xs \<Longrightarrow> split_after d (xs @ d # ys) = Some (xs @ [d], ys)"
  by (induction xs) auto

lemma split_after_line [simp]: "LF \<notin> set xs \<Longrightarrow> split_after LF (xs @ CR # LF # ys) = Some (xs @ crlf, ys)"
  using split_after_append [of LF "xs @ [CR]" ys] by simp

lemma read_until_Ok:
  "read_until d s = Ok (a, s') \<Longrightarrow>
     pending s = a @ pending s' \<and> ending s' = ending s \<and> (a = [] \<longrightarrow> pending s = [])"
  by (auto simp: read_until_def split: option.splits stream_end.splits dest!: split_after_Some)

lemma read_until_Hang: "read_until d s = Err Hang \<Longrightarrow> ending s = Silent"
  by (auto simp: read_until_def split: option.splits stream_end.splits)

lemma read_until_found:
  "d \<notin> set xs \<Longrightarrow> read_until d (s\<lparr>pending := xs @ d # ys\<rparr>) = Ok (xs @ [d], s\<lparr>pending := ys\<rparr>)"
  by (simp add: read_until_def)

lemma read_exact_Ok:
  "read_exact n s = Ok (a, s') \<Longrightarrow> pending s = a @ pending s' \<and> ending s' = ending s \<and> length a = n"
  by (auto simp: read_exact_def split: if_splits stream_end.splits)

lemma read_exact_Hang: "read_exact n s = Err Hang \<Longrightarrow> ending s = Silent"
  by (auto simp: read_exact_def split: if_splits stream_end.splits)

lemma read_exact_found:
  "length xs = n \<Longrightarrow> read_exact n (s\<lparr>pending := xs @ ys\<rparr>) = Ok (xs, s\<lparr>pending := ys\<rparr>)"
  by (simp add: read_exact_def)

lemma with_timeout_Ok [simp]: "with_timeout msg r = Ok a \<longleftrightarrow> r = Ok a"
  by (auto simp: with_timeout_def split: result.splits fault.splits)

lemma with_timeout_no_Hang [simp]: "with_timeout msg r \<noteq> Err Hang"
  by (auto simp: with_timeout_def split: result.splits fault.splits)

lemma with_timeout_Fail:
  "with_timeout msg r = Err (Fail e) \<longleftrightarrow> r = Err (Fail e) \<or> r = Err Hang \<and> e = msg"
  by (auto simp: with_timeout_def split: result.split fault.split)

text \<open>A line that ends in CRLF and holds no other line feed.\<close>

lemma ends_with_crlf: "ends_with (xs @ crlf) crlf"
  by simp

lemma ends_with_crlfD: "ends_with xs crlf \<Longrightarrow> xs = take (length xs - 2) xs @ crlf"
  by (drule ends_with_imp_append) auto

text \<open>Later bytes of the stream do not matter to a read that completes before them.\<close>

lemma split_after_extend: "split_after d xs = Some (a, b) \<Longrightarrow> split_after d (xs @ ys) = Some (a, b @ ys)"
proof (induction xs arbitrary: a)
  case (Cons x xs)
  then show ?case by (auto split: if_splits)
qed simp

end
