(* ===== verification/Resp_Decode.thy ===== *)
theory Resp_Decode
  imports Resp_Value Io_Stream
begin

text \<open>
  The decoding half of \<open>resp.rs\<close>: \<open>read_value_budgeted\<close>, reading one reply from a buffered stream
  while charging every node, every byte and every announced child to a \<open>ResponseBudget\<close>.  The
  recursion is bounded by the depth guard, which is what its termination proof uses.
\<close>

section \<open>Numbers and text\<close>

definition parse_text :: "bytes \<Rightarrow> rstring \<Rightarrow> (rstring, rstring) result" where
  "parse_text payload field =
     (case from_utf8 payload of
        Some s \<Rightarrow> Ok s
      | None \<Rightarrow> Err (''RESP '' @ field @ '' was not valid UTF-8''))"

definition parse_number :: "bytes \<Rightarrow> rstring \<Rightarrow> (int, rstring) result" where
  "parse_number payload field =
     (case from_utf8 payload of
        None \<Rightarrow> Err (''RESP '' @ field @ '' was not valid UTF-8'')
      | Some s \<Rightarrow> map_err (\<lambda>e. ''invalid RESP '' @ field @ '': '' @ show_int_error e) (parse_i64_str s))"

definition hex_digit :: "nat \<Rightarrow> u8" where
  "hex_digit d = (if d < 10 then char_of (48 + d) else char_of (87 + d))"

text \<open>The format \<open>{:#x}\<close> of a byte.\<close>

definition show_hex :: "u8 \<Rightarrow> rstring" where
  "show_hex c =
     ''0x'' @ (if code c < 16 then [hex_digit (code c)] else [hex_digit (code c div 16), hex_digit (code c mod 16)])"

section \<open>Headers and payloads\<close>

text \<open>The line every value starts with: its prefix byte and the payload of the line.\<close>

definition read_header :: "stream \<Rightarrow> ResponseBudget \<Rightarrow> (u8 \<times> bytes \<times> stream \<times> ResponseBudget, fault) result" where
  "read_header s budget =
     and_then (fallible (consume_node budget)) (\<lambda>budget.
     and_then (map_err (in_context ''failed to read RESP response: '') (read_until LF s)) (\<lambda>(line, s).
       if line = [] then Err (Fail ''Ferrite closed the connection without a response'')
       else if \<not> ends_with line crlf then Err (Fail ''RESP response line did not end with CRLF'')
       else
         and_then (fallible (consume_bytes budget (length line))) (\<lambda>budget.
           case take (length line - 2) line of
             [] \<Rightarrow> Err (Fail ''received an empty RESP response line'')
           | prefix # payload \<Rightarrow> Ok (prefix, payload, s, budget))))"

text \<open>A length-prefixed payload and the CRLF after it; \<open>kind\<close> is \<open>bulk\<close> or \<open>blob\<close>.\<close>

definition read_payload ::
    "rstring \<Rightarrow> nat \<Rightarrow> stream \<Rightarrow> ResponseBudget \<Rightarrow> (bytes \<times> stream \<times> ResponseBudget, fault) result" where
  "read_payload kind len s budget =
     and_then (fallible (consume_bytes budget (len + 2))) (\<lambda>budget.
     and_then (map_err (in_context (''failed to read RESP '' @ kind @ '' data: '')) (read_exact (len + 2) s))
       (\<lambda>(data, s).
       if \<not> ends_with data crlf then Err (Fail (''RESP '' @ kind @ '' data did not end with CRLF''))
       else Ok (take len data, s, budget)))"

section \<open>\<open>read_value_budgeted\<close>\<close>

function read_value :: "nat \<Rightarrow> stream \<Rightarrow> ResponseBudget \<Rightarrow> (RespValue \<times> stream \<times> ResponseBudget, fault) result"
  and read_values ::
    "nat \<Rightarrow> nat \<Rightarrow> stream \<Rightarrow> ResponseBudget \<Rightarrow> (RespValue list \<times> stream \<times> ResponseBudget, fault) result"
  and read_entries ::
    "nat \<Rightarrow> nat \<Rightarrow> stream \<Rightarrow> ResponseBudget \<Rightarrow>
     ((RespValue \<times> RespValue) list \<times> stream \<times> ResponseBudget, fault) result" where
  "read_value depth s budget =
     (if depth > MAX_RESP_DEPTH then Err (Fail ''RESP response nesting is too deep'')
      else and_then (read_header s budget) (\<lambda>(prefix, payload, s, budget).
        if prefix = CHR ''+'' then
          (case from_utf8 payload of
             Some value \<Rightarrow> Ok (Simple value, s, budget)
           | None \<Rightarrow> Err (Fail ''RESP simple string was not valid UTF-8''))
        else if prefix = CHR ''-'' then Ok (Error (from_utf8_lossy payload), s, budget)
        else if prefix = CHR '':'' then
          and_then (fallible (parse_number payload ''integer'')) (\<lambda>value. Ok (Integer value, s, budget))
        else if prefix = CHR ''$'' then
          and_then (fallible (parse_number payload ''bulk length'')) (\<lambda>length.
            if length = -1 then Ok (Bulk None, s, budget)
            else if length < -1 \<or> as_usize length > MAX_RESP_BULK_LENGTH then
              Err (Fail (''invalid RESP bulk length: '' @ show_int length))
            else and_then (read_payload ''bulk'' (as_usize length) s budget) (\<lambda>(data, s, budget).
              Ok (Bulk (Some data), s, budget)))
        else if prefix = CHR ''*'' then
          and_then (fallible (parse_number payload ''array length'')) (\<lambda>length.
            if length = -1 then Ok (Array None, s, budget)
            else if length < -1 \<or> as_usize length > MAX_RESP_ARRAY_LENGTH then
              Err (Fail (''invalid RESP array length: '' @ show_int length))
            else and_then (fallible (reserve_elements budget (as_usize length))) (\<lambda>budget.
              and_then (read_values (depth + 1) (as_usize length) s budget) (\<lambda>(values, s, budget).
                Ok (Array (Some values), s, budget))))
        else if prefix = CHR ''_'' then Ok (Null, s, budget)
        else if prefix = CHR ''#'' then
          (if payload = ''t'' then Ok (Boolean True, s, budget)
           else if payload = ''f'' then Ok (Boolean False, s, budget)
           else Err (Fail ''invalid RESP boolean value''))
        else if prefix = CHR '','' then
          and_then (fallible (parse_text payload ''double'')) (\<lambda>value. Ok (Double value, s, budget))
        else if prefix = CHR ''('' then
          and_then (fallible (parse_text payload ''big number'')) (\<lambda>value. Ok (BigNumber value, s, budget))
        else if prefix = CHR ''!'' \<or> prefix = CHR ''='' then
          and_then (fallible (parse_number payload ''blob length'')) (\<lambda>length.
            if length < 0 \<or> as_usize length > MAX_RESP_BULK_LENGTH then
              Err (Fail (''invalid RESP blob length: '' @ show_int length))
            else and_then (read_payload ''blob'' (as_usize length) s budget) (\<lambda>(data, s, budget).
              Ok (if prefix = CHR ''!'' then BlobError data else Verbatim data, s, budget)))
        else if prefix = CHR ''%'' then
          and_then (fallible (parse_number payload ''map length'')) (\<lambda>length.
            if length < 0 \<or> as_usize length > MAX_RESP_ARRAY_LENGTH then
              Err (Fail (''invalid RESP map length: '' @ show_int length))
            else and_then (fallible (reserve_elements budget (as_usize length * 2))) (\<lambda>budget.
              and_then (read_entries (depth + 1) (as_usize length) s budget) (\<lambda>(entries, s, budget).
                Ok (Map entries, s, budget))))
        else if prefix = CHR ''~'' \<or> prefix = CHR ''>'' then
          and_then (fallible (parse_number payload ''aggregate length'')) (\<lambda>length.
            if length < 0 \<or> as_usize length > MAX_RESP_ARRAY_LENGTH then
              Err (Fail (''invalid RESP aggregate length: '' @ show_int length))
            else and_then (fallible (reserve_elements budget (as_usize length))) (\<lambda>budget.
              and_then (read_values (depth + 1) (as_usize length) s budget) (\<lambda>(values, s, budget).
                Ok (if prefix = CHR ''~'' then Set values else Push values, s, budget))))
        else Err (Fail (''unsupported RESP response prefix: '' @ show_hex prefix))))"
| "read_values depth count s budget =
     (if count = 0 then Ok ([], s, budget)
      else
        and_then (read_value depth s budget) (\<lambda>(value, s, budget).
        and_then (read_values depth (count - 1) s budget) (\<lambda>(values, s, budget).
          Ok (value # values, s, budget))))"
| "read_entries depth count s budget =
     (if count = 0 then Ok ([], s, budget)
      else
        and_then (read_value depth s budget) (\<lambda>(key, s, budget).
        and_then (read_value depth s budget) (\<lambda>(value, s, budget).
        and_then (read_entries depth (count - 1) s budget) (\<lambda>(entries, s, budget).
          Ok ((key, value) # entries, s, budget)))))"
  by pat_completeness auto

text \<open>Each nesting level uses up one step of the depth guard; a list shrinks at its own level.\<close>

termination
  by (relation "inv_image (less_than <*lex*> less_than <*lex*> less_than) (\<lambda>x. case x of
        Inl (depth, _) \<Rightarrow> (MAX_RESP_DEPTH + 1 - depth, 0 :: nat, 0 :: nat)
      | Inr (Inl (depth, count, _)) \<Rightarrow> (MAX_RESP_DEPTH + 1 - depth, 1, count)
      | Inr (Inr (depth, count, _)) \<Rightarrow> (MAX_RESP_DEPTH + 1 - depth, 1, count))") auto

declare read_value.simps [simp del] read_values.simps [simp del] read_entries.simps [simp del]

end
