(* ===== verification/Child_Link.thy ===== *)
theory Child_Link
  imports Resp_Decode
begin

text \<open>
  The link to the Ferrite child.  The child, the network and the operating system are the functions of
  an environment over a world \<open>'w\<close>: what connecting to an address yields, what a write to the
  child makes arrive on its stream, and whether a client takes a reply.  Waiting beyond a deadline
  is \<open>Hang\<close>, which \<open>with_timeout\<close> turns into the error of the deadline.
\<close>

record 'w env =
  connect :: "rstring \<Rightarrow> 'w \<Rightarrow> (stream, fault) result \<times> 'w"
  send :: "bytes \<Rightarrow> stream \<Rightarrow> 'w \<Rightarrow> (stream, fault) result \<times> 'w"
  flush :: "stream \<Rightarrow> 'w \<Rightarrow> (stream, fault) result \<times> 'w"
  deliver :: "bytes \<Rightarrow> 'w \<Rightarrow> (unit, fault) result \<times> 'w"

definition RESP_TIMEOUT_SECS :: nat where
  [limits]: "RESP_TIMEOUT_SECS = 5"

text \<open>The environment with a log of every request that is written to the child.\<close>

definition traced :: "'w env \<Rightarrow> ('w \<times> bytes list) env" where
  "traced env =
     \<lparr>connect = \<lambda>addr (w, sent). (case connect env addr w of (r, w) \<Rightarrow> (r, w, sent)),
      send = \<lambda>bs s (w, sent). (case send env bs s w of (r, w) \<Rightarrow> (r, w, sent @ [bs])),
      flush = \<lambda>s (w, sent). (case flush env s w of (r, w) \<Rightarrow> (r, w, sent)),
      deliver = \<lambda>bs (w, sent). (case deliver env bs w of (r, w) \<Rightarrow> (r, w, sent))\<rparr>"

text \<open>\<open>P\<close> is kept by everything the environment does, and by a send at least of the requests in \<open>A\<close>.\<close>

definition kept_by :: "bytes set \<Rightarrow> ('w \<Rightarrow> bool) \<Rightarrow> 'w env \<Rightarrow> bool" where
  "kept_by A P env \<longleftrightarrow>
     (\<forall>addr w. P w \<longrightarrow> P (snd (connect env addr w))) \<and>
     (\<forall>w bs. P w \<longrightarrow> P (snd (deliver env bs w))) \<and>
     (\<forall>w s. P w \<longrightarrow> P (snd (flush env s w))) \<and>
     (\<forall>w s bs. P w \<longrightarrow> bs \<in> A \<longrightarrow> P (snd (send env bs s w)))"

lemma traced_kept: "kept_by A (\<lambda>w. set (snd w) \<subseteq> B \<union> A) (traced env)"
  by (auto simp: kept_by_def traced_def split: prod.splits)

lemma kept_byD:
  assumes "kept_by A P env" and "P w"
  shows "P (snd (connect env addr w))" and "P (snd (deliver env bs w))" and "P (snd (flush env s w))"
    and "bs \<in> A \<Longrightarrow> P (snd (send env bs s w))"
  using assms by (simp_all add: kept_by_def)

end
