(* ===== verification/Policy_Validators.thy ===== *)
theory Policy_Validators
  imports Rust_Numbers
begin

text \<open>
  \<open>policy.rs\<close>, the argument validators of the command allowlist.  A validator takes the
  normalised arguments after the command name and returns \<open>Ok ()\<close> or the reason of the
  refusal; const-generic validators (\<open>exact::<N>\<close>) take the constant as their first argument.
\<close>

section \<open>Limits\<close>

definition MAX_MULTI_ITEMS :: nat where
  [limits]: "MAX_MULTI_ITEMS = 32"

definition MAX_COLLECTION_PAGE :: nat where
  [limits]: "MAX_COLLECTION_PAGE = 100"

definition MAX_STRING_RANGE :: nat where
  [limits]: "MAX_STRING_RANGE = 64 * 1024"

definition MAX_BIT_OFFSET :: nat where
  [limits]: "MAX_BIT_OFFSET = MAX_STRING_RANGE * 8 - 1"

definition MAX_DATABASE :: nat where
  [limits]: "MAX_DATABASE = 15"

type_synonym validation = "(unit, rstring) result"
type_synonym validator = "rstring list \<Rightarrow> validation"

named_theorems validator_defs "the validators, unfolded"

section \<open>Numbers\<close>

definition parse_i64 :: "rstring \<Rightarrow> rstring \<Rightarrow> (int, rstring) result" where
  "parse_i64 value label = map_err (\<lambda>_. label @ '' must be an integer'') (parse_i64_str value)"

definition parse_u64 :: "rstring \<Rightarrow> rstring \<Rightarrow> (nat, rstring) result" where
  "parse_u64 value label =
     map_err (\<lambda>_. label @ '' must be a non-negative integer'') (parse_u64_str value)"

definition bounded_positive_count :: "rstring \<Rightarrow> validation" where
  "bounded_positive_count value =
     and_then (parse_u64 value ''COUNT'') (\<lambda>count.
       if 1 \<le> count \<and> count \<le> MAX_COLLECTION_PAGE then Ok ()
       else Err (''COUNT must be between 1 and '' @ show_nat MAX_COLLECTION_PAGE))"

definition parse_score :: "rstring \<Rightarrow> validation" where
  "parse_score value =
     (case parse_f64 value of
        None \<Rightarrow> Err ''sorted-set score must be a number''
      | Some score \<Rightarrow>
          if f64_is_nan score then Err ''sorted-set score must not be NaN'' else Ok ())"

section \<open>Argument counts\<close>

definition exact :: "nat \<Rightarrow> validator" where
  [validator_defs]: "exact n args =
     (if length args = n then Ok () else Err (''expected exactly '' @ show_nat n @ '' argument(s)''))"

definition at_most :: "nat \<Rightarrow> validator" where
  [validator_defs]: "at_most hi args =
     (if length args \<le> hi then Ok () else Err (''accepts at most '' @ show_nat hi @ '' argument(s)''))"

definition between :: "nat \<Rightarrow> nat \<Rightarrow> validator" where
  [validator_defs]: "between lo hi args =
     (if lo \<le> length args \<and> length args \<le> hi then Ok ()
      else Err (''requires between '' @ show_nat lo @ '' and '' @ show_nat hi @ '' argument(s)''))"

definition ping :: validator where
  [validator_defs]: "ping args = at_most 1 args"

definition hello :: validator where
  [validator_defs]: "hello args =
     and_then (exact 1 args) (\<lambda>_.
       if args ! 0 = ''2'' \<or> args ! 0 = ''3'' then Ok ()
       else Err ''only RESP protocol versions 2 and 3 are allowed'')"

definition select :: validator where
  [validator_defs]: "select args =
     and_then (exact 1 args) (\<lambda>_.
     and_then (parse_u64 (args ! 0) ''database number'') (\<lambda>database.
       if database \<le> MAX_DATABASE then Ok ()
       else Err (''database number must be at most '' @ show_nat MAX_DATABASE)))"

text \<open>
  The option loop of \<open>COPY\<close>.  The flags \<open>saw_db\<close> and \<open>saw_replace\<close> and the index are the
  loop's variables.
\<close>

function copy_options :: "rstring list \<Rightarrow> nat \<Rightarrow> bool \<Rightarrow> bool \<Rightarrow> validation" where
  "copy_options args index saw_db saw_replace =
     (if index < length args then
        (let option = args ! index in
         if option = ''DB'' \<and> \<not> saw_db then
           and_then (ok_or ''DB requires a destination database'' (get args (index + 1))) (\<lambda>database.
           and_then (parse_u64 database ''destination database'') (\<lambda>database.
             if database > MAX_DATABASE
             then Err (''destination database must be at most '' @ show_nat MAX_DATABASE)
             else copy_options args (index + 2) True saw_replace))
         else if option = ''REPLACE'' \<and> \<not> saw_replace then
           copy_options args (index + 1) saw_db True
         else if option = ''DB'' \<or> option = ''REPLACE'' then
           Err (option @ '' may be specified only once'')
         else Err (''unsupported COPY option '' @ option))
      else Ok ())"
  by pat_completeness auto
termination
  by (relation "measure (\<lambda>(args, index, _). length args - index)") auto

declare copy_options.simps [simp del]

definition copy :: validator where
  [validator_defs]: "copy args =
     and_then (between 2 5 args) (\<lambda>_. copy_options args 2 False False)"

definition key_value_pairs :: validator where
  [validator_defs]: "key_value_pairs args =
     (if args = [] \<or> \<not> even (length args) \<or> length args div 2 > MAX_MULTI_ITEMS
      then Err (''requires key/value pairs for at most '' @ show_nat MAX_MULTI_ITEMS @ '' keys'')
      else Ok ())"

definition hash_pairs :: validator where
  [validator_defs]: "hash_pairs args =
     (if length args < 3 \<or> \<not> even (length args - 1) \<or> (length args - 1) div 2 > MAX_MULTI_ITEMS
      then Err (''requires a key and field/value pairs for at most '' @ show_nat MAX_MULTI_ITEMS @ '' fields'')
      else Ok ())"

definition keyed_items :: validator where
  [validator_defs]: "keyed_items args =
     (if 2 \<le> length args \<and> length args \<le> MAX_MULTI_ITEMS + 1 then Ok ()
      else Err (''requires a key and between 1 and '' @ show_nat MAX_MULTI_ITEMS @ '' item(s)''))"

definition optional_count :: validator where
  [validator_defs]: "optional_count args =
     and_then (between 1 2 args) (\<lambda>_.
       case get args 1 of Some count \<Rightarrow> bounded_positive_count count | None \<Rightarrow> Ok ())"

section \<open>Bits and random members\<close>

definition getbit :: validator where
  [validator_defs]: "getbit args =
     and_then (exact 2 args) (\<lambda>_.
     and_then (parse_u64 (args ! 1) ''bit offset'') (\<lambda>_. Ok ()))"

definition bounded_bit_offset :: "rstring \<Rightarrow> validation" where
  "bounded_bit_offset value =
     and_then (parse_u64 value ''bit offset'') (\<lambda>offset.
       if offset \<le> MAX_BIT_OFFSET then Ok ()
       else Err (''bit offset must be at most '' @ show_nat MAX_BIT_OFFSET))"

definition setbit :: validator where
  [validator_defs]: "setbit args =
     and_then (exact 3 args) (\<lambda>_.
     and_then (bounded_bit_offset (args ! 1)) (\<lambda>_.
       if args ! 2 = ''0'' \<or> args ! 2 = ''1'' then Ok () else Err ''bit value must be 0 or 1''))"

definition random_member :: validator where
  [validator_defs]: "random_member args =
     and_then (between 1 3 args) (\<lambda>_.
     and_then
       (case get args 1 of
          Some count \<Rightarrow>
            and_then (parse_i64 count ''count'') (\<lambda>count.
              if count = 0 \<or> nat \<bar>count\<bar> > MAX_COLLECTION_PAGE
              then Err (''absolute COUNT must be between 1 and '' @ show_nat MAX_COLLECTION_PAGE)
              else Ok ())
        | None \<Rightarrow> Ok ()) (\<lambda>_.
       if length args = 3 \<and> args ! 2 \<noteq> ''WITHSCORES'' \<and> args ! 2 \<noteq> ''WITHVALUES''
       then Err ''the only permitted third argument is WITHSCORES or WITHVALUES''
       else Ok ()))"

section \<open>Ranges\<close>

definition bounded_range :: "rstring \<Rightarrow> rstring \<Rightarrow> nat \<Rightarrow> rstring \<Rightarrow> validation" where
  "bounded_range start_text stop_text limit label =
     and_then (parse_i64 start_text ''range start'') (\<lambda>start.
     and_then (parse_i64 stop_text ''range stop'') (\<lambda>stop.
       if sgn start \<noteq> sgn stop \<and> start \<noteq> 0 \<and> stop \<noteq> 0
       then Err (label @ '' must use two non-negative or two non-positive indexes'')
       else if 0 \<le> start \<and> stop < 0 then Err (label @ '' is unbounded'')
       else if stop < start then Ok ()
       else
         and_then
           (ok_or (label @ '' is invalid'')
             (map_option as_usize
               (Option.bind (checked_i64 (stop - start)) (\<lambda>difference. checked_i64 (difference + 1)))))
           (\<lambda>width.
             if width > limit
             then Err (label @ '' must contain at most '' @ show_nat limit @ '' elements'')
             else Ok ())))"

definition string_range :: validator where
  [validator_defs]: "string_range args =
     and_then (exact 3 args) (\<lambda>_. bounded_range (args ! 1) (args ! 2) MAX_STRING_RANGE ''byte range'')"

definition collection_range :: validator where
  [validator_defs]: "collection_range args =
     and_then (exact 3 args) (\<lambda>_.
       bounded_range (args ! 1) (args ! 2) MAX_COLLECTION_PAGE ''range window'')"

definition sorted_collection_range :: validator where
  [validator_defs]: "sorted_collection_range args =
     and_then (between 3 4 args) (\<lambda>_.
       if length args = 4 \<and> args ! 3 \<noteq> ''WITHSCORES''
       then Err ''only the optional WITHSCORES modifier is permitted''
       else bounded_range (args ! 1) (args ! 2) MAX_COLLECTION_PAGE ''range window'')"

text \<open>\<open>Iterator::position\<close>.\<close>

fun position :: "('a \<Rightarrow> bool) \<Rightarrow> 'a list \<Rightarrow> nat option" where
  "position P [] = None"
| "position P (x # xs) = (if P x then Some 0 else map_option Suc (position P xs))"

definition limited_sorted_range :: validator where
  [validator_defs]: "limited_sorted_range args =
     and_then (between 6 7 args) (\<lambda>_.
     and_then
       (ok_or (''LIMIT is required with a count of at most '' @ show_nat MAX_COLLECTION_PAGE)
         (position (\<lambda>argument. argument = ''LIMIT'') args)) (\<lambda>limit_index.
     and_then (ok_or ''LIMIT requires an offset and count'' (get args (limit_index + 1))) (\<lambda>offset.
     and_then (parse_u64 offset ''LIMIT offset'') (\<lambda>_.
     and_then (ok_or ''LIMIT requires an offset and count'' (get args (limit_index + 2))) (\<lambda>count.
       bounded_positive_count count)))))"

section \<open>Sorted sets\<close>

definition zadd_flags :: "rstring list" where
  "zadd_flags = [''NX'', ''XX'', ''GT'', ''LT'', ''CH'', ''INCR'']"

text \<open>The option loop: it stops at the first argument that is no option.\<close>

function zadd_options :: "rstring list \<Rightarrow> nat \<Rightarrow> rstring list \<Rightarrow> (nat \<times> rstring list, rstring) result" where
  "zadd_options args index options =
     (if index < length args then
        (let option = args ! index in
         if option \<notin> set zadd_flags then Ok (index, options)
         else if option \<in> set options then Err (option @ '' may be specified only once'')
         else zadd_options args (index + 1) (options @ [option]))
      else Ok (index, options))"
  by pat_completeness auto
termination
  by (relation "measure (\<lambda>(args, index, _). length args - index)") auto

declare zadd_options.simps [simp del]

text \<open>\<open>pairs.iter().step_by(2)\<close> with the early return of \<open>?\<close>.\<close>

fun parse_scores :: "rstring list \<Rightarrow> validation" where
  "parse_scores [] = Ok ()"
| "parse_scores [score] = parse_score score"
| "parse_scores (score # member # rest) = and_then (parse_score score) (\<lambda>_. parse_scores rest)"

definition zadd :: validator where
  [validator_defs]: "zadd args =
     (if length args < 3 then Err ''requires a key and at least one score/member pair''
      else and_then (zadd_options args 1 []) (\<lambda>(index, options).
        let pairs = drop index args in
        if pairs = [] \<or> \<not> even (length pairs) then Err ''requires complete score/member pairs''
        else if length pairs div 2 > MAX_MULTI_ITEMS then
          Err (''at most '' @ show_nat MAX_MULTI_ITEMS @ '' members may be added'')
        else and_then (parse_scores pairs) (\<lambda>_.
          if ''INCR'' \<in> set options \<and> length pairs \<noteq> 2
          then Err ''INCR permits exactly one score/member pair''
          else Ok ())))"

section \<open>Streams\<close>

definition validate_xadd_id :: "rstring \<Rightarrow> validation" where
  "validate_xadd_id value =
     (if value = ''*'' then Ok ()
      else Err (''XADD entry IDs must use '' @ [CHR 0x27] @ ''*'' @ [CHR 0x27] @
                '' so Ferrite generates a monotonic ID''))"

text \<open>\<open>str::split_once\<close> at the first occurrence of an ASCII character.\<close>

definition split_once :: "u8 \<Rightarrow> rstring \<Rightarrow> (rstring \<times> rstring) option" where
  "split_once c s =
     (if c \<in> set s
      then Some (takeWhile (\<lambda>x. x \<noteq> c) s, tl (dropWhile (\<lambda>x. x \<noteq> c) s))
      else None)"

definition validate_stream_id :: "rstring \<Rightarrow> validation" where
  "validate_stream_id value =
     and_then (ok_or ''stream ID must have milliseconds-sequence form'' (split_once (CHR ''-'') value))
       (\<lambda>(milliseconds, sequence).
     and_then (parse_u64 milliseconds ''stream ID milliseconds'') (\<lambda>_.
     and_then (parse_u64 sequence ''stream ID sequence'') (\<lambda>_. Ok ())))"

definition validate_stream_trim_spec :: "rstring list \<Rightarrow> nat \<Rightarrow> (nat, rstring) result" where
  "validate_stream_trim_spec args start =
     and_then (ok_or ''trim strategy is required'' (get args start)) (\<lambda>strategy.
     if strategy \<noteq> ''MAXLEN'' \<and> strategy \<noteq> ''MINID'' then Err ''trim strategy must be MAXLEN or MINID''
     else
       let approximate = (get args (start + 1) = Some ''~'');
           index = (if get args (start + 1) = Some ''='' \<or> get args (start + 1) = Some ''~''
                    then start + 2 else start + 1)
       in and_then (ok_or ''trim strategy requires a threshold'' (get args index)) (\<lambda>threshold.
          and_then (if strategy = ''MAXLEN''
                    then and_then (parse_u64 threshold ''MAXLEN threshold'') (\<lambda>_. Ok ())
                    else validate_stream_id threshold) (\<lambda>_.
          if get args (index + 1) = Some ''LIMIT'' then
            (if \<not> approximate then Err ''LIMIT is permitted only with approximate (~) trimming''
             else and_then (ok_or ''LIMIT requires a count'' (get args (index + 2))) (\<lambda>limit.
                  and_then (bounded_positive_count limit) (\<lambda>_. Ok (index + 3))))
          else Ok (index + 1))))"

definition xadd :: validator where
  [validator_defs]: "xadd args =
     (if length args < 4 then Err ''requires a key, entry ID, and field/value pair''
      else
        let index1 = (if get args 1 = Some ''NOMKSTREAM'' then 2 else 1) in
        and_then
          (if get args index1 = Some ''MAXLEN'' \<or> get args index1 = Some ''MINID''
           then validate_stream_trim_spec args index1 else Ok index1) (\<lambda>index.
        and_then (ok_or ''requires an entry ID'' (get args index)) (\<lambda>entry_id.
        and_then (validate_xadd_id entry_id) (\<lambda>_.
        let pairs = drop (index + 1) args in
        if pairs = [] \<or> \<not> even (length pairs) then Err ''requires complete field/value pairs''
        else if length pairs div 2 > MAX_MULTI_ITEMS then
          Err (''at most '' @ show_nat MAX_MULTI_ITEMS @ '' field/value pairs may be added'')
        else Ok ()))))"

definition xtrim :: validator where
  [validator_defs]: "xtrim args =
     (if length args < 3 then Err ''requires a key, trim strategy, and threshold''
      else and_then (validate_stream_trim_spec args 1) (\<lambda>end_index.
        if end_index = length args then Ok ()
        else Err (''unsupported XTRIM option '' @ args ! end_index)))"

definition stream_range :: validator where
  [validator_defs]: "stream_range args =
     (if length args \<noteq> 5 then Err (''COUNT is required and must be at most '' @ show_nat MAX_COLLECTION_PAGE)
      else if args ! 3 \<noteq> ''COUNT'' then
        Err (''COUNT is required and must be at most '' @ show_nat MAX_COLLECTION_PAGE)
      else bounded_positive_count (args ! 4))"

end
