(* ===== verification/Policy.thy ===== *)
theory Policy
  imports Policy_Validators
begin

text \<open>
  \<open>policy.rs\<close>: the allowlist of the public playground.  \<open>POLICIES\<close> is the code's table, entry by
  entry; \<open>classify_arguments\<close> and \<open>classify_bytes_arguments\<close> are the two entry points (the HTTP
  API and the public RESP port), both ending in \<open>classify_normalized\<close>.
\<close>

section \<open>The table\<close>

record command_policy =
  names :: "rstring list"
  example :: "rstring list"
  validate :: validator

definition policy :: "rstring list \<Rightarrow> rstring list \<Rightarrow> validator \<Rightarrow> command_policy" where
  "policy n e v = \<lparr>names = n, example = e, validate = v\<rparr>"

definition SCALAR_POLICIES :: "command_policy list" where
  "SCALAR_POLICIES = [
   policy [''PING''] [''PING''] ping,
   policy [''ECHO''] [''ECHO'', ''hello''] (exact 1),
   policy [''HELLO''] [''HELLO'', ''3''] hello,
   policy [''COMMAND.COUNT''] [''COMMAND'', ''COUNT''] (exact 0),
   policy [''COMMAND.INFO''] [''COMMAND'', ''INFO'', ''GET''] (between 1 MAX_MULTI_ITEMS),
   policy [''INFO''] [''INFO''] (at_most 1),
   policy [''DBSIZE''] [''DBSIZE''] (exact 0),
   policy [''TIME''] [''TIME''] (exact 0),
   policy [''SELECT''] [''SELECT'', ''0''] select,
   policy [''TYPE''] [''TYPE'', ''key''] (exact 1),
   policy [''TTL'', ''PTTL''] [''TTL'', ''key''] (exact 1),
   policy [''EXISTS'', ''DEL'', ''UNLINK'', ''TOUCH''] [''EXISTS'', ''key'']
     (between 1 MAX_MULTI_ITEMS),
   policy [''EXPIRE'', ''PEXPIRE'', ''EXPIREAT'', ''PEXPIREAT''] [''EXPIRE'', ''key'', ''60'']
     (between 2 3),
   policy [''PERSIST''] [''PERSIST'', ''key''] (exact 1),
   policy [''RENAME'', ''RENAMENX''] [''RENAME'', ''source'', ''destination''] (exact 2),
   policy [''COPY''] [''COPY'', ''source'', ''destination''] copy,
   policy [''RANDOMKEY''] [''RANDOMKEY''] (exact 0),
   policy [''GET'', ''GETDEL''] [''GET'', ''key''] (exact 1),
   policy [''GETEX''] [''GETEX'', ''key'', ''EX'', ''60''] (between 1 3),
   policy [''SET'', ''SETNX''] [''SET'', ''key'', ''value''] (between 2 8),
   policy [''GETRANGE''] [''GETRANGE'', ''key'', ''0'', ''1023''] string_range,
   policy [''STRLEN''] [''STRLEN'', ''key''] (exact 1),
   policy [''INCR'', ''DECR''] [''INCR'', ''counter''] (exact 1),
   policy [''INCRBY'', ''DECRBY'', ''INCRBYFLOAT''] [''INCRBY'', ''counter'', ''1''] (exact 2),
   policy [''MGET''] [''MGET'', ''key-1'', ''key-2''] (between 1 MAX_MULTI_ITEMS),
   policy [''MSET'', ''MSETNX''] [''MSET'', ''key-1'', ''value-1''] key_value_pairs,
   policy [''GETBIT''] [''GETBIT'', ''key'', ''0''] getbit,
   policy [''SETBIT''] [''SETBIT'', ''key'', ''0'', ''1''] setbit,
   policy [''BITCOUNT''] [''BITCOUNT'', ''key''] (between 1 4),
   policy [''BITPOS''] [''BITPOS'', ''key'', ''1''] (between 2 5),
   policy [''HSET''] [''HSET'', ''hash'', ''field'', ''value''] hash_pairs,
   policy [''HSETNX'', ''HINCRBY'', ''HINCRBYFLOAT''] [''HSETNX'', ''hash'', ''field'', ''value'']
     (exact 3),
   policy [''HGET'', ''HEXISTS'', ''HSTRLEN''] [''HGET'', ''hash'', ''field''] (exact 2),
   policy [''HDEL''] [''HDEL'', ''hash'', ''field''] keyed_items,
   policy [''HMGET''] [''HMGET'', ''hash'', ''field''] keyed_items,
   policy [''HLEN''] [''HLEN'', ''hash''] (exact 1),
   policy [''HRANDFIELD''] [''HRANDFIELD'', ''hash'', ''10''] random_member]"

definition COLLECTION_POLICIES :: "command_policy list" where
  "COLLECTION_POLICIES = [
   policy [''LPUSH'', ''LPUSHX'', ''RPUSH'', ''RPUSHX''] [''RPUSH'', ''list'', ''value'']
     keyed_items,
   policy [''LPOP'', ''RPOP''] [''LPOP'', ''list'', ''10''] optional_count,
   policy [''LLEN''] [''LLEN'', ''list''] (exact 1),
   policy [''LINDEX''] [''LINDEX'', ''list'', ''0''] (exact 2),
   policy [''LRANGE''] [''LRANGE'', ''list'', ''0'', ''99''] collection_range,
   policy [''LSET'', ''LREM''] [''LSET'', ''list'', ''0'', ''value''] (exact 3),
   policy [''LTRIM''] [''LTRIM'', ''list'', ''0'', ''99''] (exact 3),
   policy [''LINSERT''] [''LINSERT'', ''list'', ''BEFORE'', ''pivot'', ''value''] (exact 4),
   policy [''LMOVE''] [''LMOVE'', ''source'', ''destination'', ''LEFT'', ''RIGHT''] (exact 4),
   policy [''RPOPLPUSH''] [''RPOPLPUSH'', ''source'', ''destination''] (exact 2),
   policy [''SADD'', ''SREM''] [''SADD'', ''set'', ''member''] keyed_items,
   policy [''SCARD''] [''SCARD'', ''set''] (exact 1),
   policy [''SISMEMBER'', ''SMOVE''] [''SISMEMBER'', ''set'', ''member''] (between 2 3),
   policy [''SMISMEMBER''] [''SMISMEMBER'', ''set'', ''member''] keyed_items,
   policy [''SPOP''] [''SPOP'', ''set'', ''10''] optional_count,
   policy [''SRANDMEMBER''] [''SRANDMEMBER'', ''set'', ''10''] random_member,
   policy [''ZADD''] [''ZADD'', ''zset'', ''1'', ''member''] zadd,
   policy [''ZCARD''] [''ZCARD'', ''zset''] (exact 1),
   policy [''ZCOUNT'', ''ZLEXCOUNT''] [''ZCOUNT'', ''zset'', ''-inf'', ''+inf''] (exact 3),
   policy [''ZINCRBY''] [''ZINCRBY'', ''zset'', ''1'', ''member''] (exact 3),
   policy [''ZSCORE'', ''ZRANK'', ''ZREVRANK''] [''ZSCORE'', ''zset'', ''member''] (between 2 3),
   policy [''ZMSCORE'', ''ZREM''] [''ZMSCORE'', ''zset'', ''member''] keyed_items,
   policy [''ZREMRANGEBYLEX'', ''ZREMRANGEBYRANK'', ''ZREMRANGEBYSCORE'']
     [''ZREMRANGEBYRANK'', ''zset'', ''0'', ''99''] (exact 3),
   policy [''ZRANGE'', ''ZREVRANGE''] [''ZRANGE'', ''zset'', ''0'', ''99''] sorted_collection_range,
   policy [''ZRANGEBYLEX'', ''ZRANGEBYSCORE'', ''ZREVRANGEBYLEX'', ''ZREVRANGEBYSCORE'']
     [''ZRANGEBYSCORE'', ''zset'', ''-inf'', ''+inf'', ''LIMIT'', ''0'', ''100''] limited_sorted_range,
   policy [''ZPOPMAX'', ''ZPOPMIN''] [''ZPOPMIN'', ''zset'', ''10''] optional_count,
   policy [''ZRANDMEMBER''] [''ZRANDMEMBER'', ''zset'', ''10''] random_member,
   policy [''XADD''] [''XADD'', ''stream'', ''*'', ''field'', ''value''] xadd,
   policy [''XDEL''] [''XDEL'', ''stream'', ''1-0''] keyed_items,
   policy [''XLEN''] [''XLEN'', ''stream''] (exact 1),
   policy [''XRANGE'', ''XREVRANGE''] [''XRANGE'', ''stream'', ''-'', ''+'', ''COUNT'', ''100'']
     stream_range,
   policy [''XTRIM''] [''XTRIM'', ''stream'', ''MAXLEN'', ''100''] xtrim,
   policy [''PFADD''] [''PFADD'', ''hll'', ''element''] keyed_items,
   policy [''PFCOUNT''] [''PFCOUNT'', ''hll''] (between 1 MAX_MULTI_ITEMS),
   policy [''PFMERGE''] [''PFMERGE'', ''destination'', ''source''] keyed_items]"

definition POLICIES :: "command_policy list" where
  "POLICIES = SCALAR_POLICIES @ COLLECTION_POLICIES"

lemmas POLICIES_eval = POLICIES_def [unfolded SCALAR_POLICIES_def COLLECTION_POLICIES_def append.simps]

section \<open>Classification\<close>

datatype Decision = Allow | Reject (reject_command: rstring) (reject_reason: rstring)

fun is_allowed :: "Decision \<Rightarrow> bool" where
  "is_allowed Allow = True"
| "is_allowed (Reject command reason) = False"

fun message :: "Decision \<Rightarrow> rstring" where
  "message Allow = []"
| "message (Reject command reason) =
     ''ERR '' @ command @ '' is not permitted by the Ferrite public playground policy: '' @ reason"

definition normalize :: "rstring \<Rightarrow> rstring" where
  "normalize value = to_ascii_uppercase (trim value)"

definition normalized_name_and_arguments :: "rstring list \<Rightarrow> (rstring \<times> rstring list) option" where
  "normalized_name_and_arguments args =
     (case args of
        [] \<Rightarrow> None
      | first # rest \<Rightarrow>
          if CHR ''.'' \<in> set first then Some (first, rest)
          else if first = ''COMMAND'' then
            (case rest of
               [] \<Rightarrow> None
             | subcommand # rest' \<Rightarrow> Some (first @ ''.'' @ subcommand, rest'))
          else Some (first, rest))"

definition classify_normalized :: "rstring list \<Rightarrow> Decision" where
  "classify_normalized args =
     (case normalized_name_and_arguments args of
        None \<Rightarrow> Reject ''<EMPTY>'' ''empty commands are not allowed''
      | Some (name, policy_arguments) \<Rightarrow>
          (case find (\<lambda>p. name \<in> set (names p)) POLICIES of
             None \<Rightarrow> Reject name ''the command is not on the explicit safe-command allowlist''
           | Some p \<Rightarrow>
               (case validate p policy_arguments of
                  Ok _ \<Rightarrow> Allow
                | Err reason \<Rightarrow> Reject name reason)))"

definition classify_arguments :: "rstring list \<Rightarrow> Decision" where
  "classify_arguments args = classify_normalized (map normalize args)"

definition classify_bytes_arguments :: "bytes list \<Rightarrow> Decision" where
  "classify_bytes_arguments args =
     (case args of
        [] \<Rightarrow> classify_normalized []
      | first # rest \<Rightarrow>
          (case from_utf8 first of
             None \<Rightarrow> Reject ''<NON-UTF8>'' ''command names must be valid UTF-8''
           | Some command \<Rightarrow>
               classify_normalized (normalize command # map (\<lambda>a. normalize (from_utf8_lossy a)) rest)))"

section \<open>The table is unambiguous\<close>

lemma policy_simps [simp]:
  "names (policy n e v) = n" "example (policy n e v) = e" "validate (policy n e v) = v"
  by (simp_all add: policy_def)

definition allowlist :: "rstring list" where
  "allowlist = concat (map names POLICIES)"

lemma distinct_allowlist: "distinct allowlist"
  by code_simp

lemma name_in_allowlist: "p \<in> set POLICIES \<Longrightarrow> name \<in> set (names p) \<Longrightarrow> name \<in> set allowlist"
  by (auto simp: allowlist_def)

lemma distinct_concat_unique:
  "distinct (concat (map f xs)) \<Longrightarrow> x \<in> set xs \<Longrightarrow> y \<in> set xs \<Longrightarrow> z \<in> set (f x) \<Longrightarrow> z \<in> set (f y) \<Longrightarrow>
     f x = f y"
  by (induction xs) auto

text \<open>Looking a name up is a function of the name: no two entries share one.\<close>

lemma find_distinct:
  assumes "distinct (concat (map f xs))" and "x \<in> set xs" and "z \<in> set (f x)"
  shows "find (\<lambda>y. z \<in> set (f y)) xs = Some x"
  using assms
proof (induction xs)
  case (Cons y ys)
  then show ?case
    by (cases "z \<in> set (f y)") auto
qed simp

lemma find_policy_Some_iff:
  "find (\<lambda>p. name \<in> set (names p)) POLICIES = Some p \<longleftrightarrow> p \<in> set POLICIES \<and> name \<in> set (names p)"
  using find_distinct [OF distinct_allowlist [unfolded allowlist_def]]
  by (auto simp: find_Some_iff)

lemma find_policy_None_iff:
  "find (\<lambda>p. name \<in> set (names p)) POLICIES = None \<longleftrightarrow> name \<notin> set allowlist"
  by (auto simp: find_None_iff allowlist_def)

lemma classify_normalized_Allow_iff:
  "classify_normalized args = Allow \<longleftrightarrow>
     (\<exists>name rest p. normalized_name_and_arguments args = Some (name, rest) \<and>
        p \<in> set POLICIES \<and> name \<in> set (names p) \<and> validate p rest = Ok ())"
proof -
  have "(p \<in> set POLICIES \<and> name \<in> set (names p) \<and> v) =
        (find (\<lambda>p. name \<in> set (names p)) POLICIES = Some p \<and> v)" for name p v
    by (simp add: find_policy_Some_iff)
  then show ?thesis
    by (simp only:) (auto simp: classify_normalized_def split: option.splits result.splits)
qed

section \<open>Evaluating the policy on concrete commands\<close>

lemmas normalize_eval =
  normalize_def trim_def trim_chars_def is_whitespace_def to_ascii_uppercase_def ascii_upper_other

lemmas number_eval =
  parse_u64_def parse_i64_def parse_u64_str_def parse_i64_str_def digit_val_def parse_score_def
  parse_f64_def parse_decimal_def parse_exponent_def parse_special_def eq_ignore_ascii_case_def
  is_digit_iff bounded_positive_count_def bounded_bit_offset_def bounded_range_def
  checked_i64_def in_i64_def as_usize_def limits

lemmas option_eval =
  copy_options.simps zadd_options.simps zadd_flags_def validate_xadd_id_def validate_stream_id_def
  validate_stream_trim_spec_def split_once_def get_def

text \<open>A command is allowed if a table entry with its name accepts it.\<close>

definition accepts :: "command_policy \<Rightarrow> rstring list \<Rightarrow> bool" where
  "accepts p args =
     (case normalized_name_and_arguments (map normalize args) of
        None \<Rightarrow> False
      | Some (name, rest) \<Rightarrow> name \<in> set (names p) \<and> validate p rest = Ok ())"

lemma accepts_imp_allowed: "p \<in> set POLICIES \<Longrightarrow> accepts p args \<Longrightarrow> classify_arguments args = Allow"
  by (auto simp: classify_arguments_def classify_normalized_Allow_iff accepts_def split: option.splits)

lemmas accepts_eval =
  accepts_def normalized_name_and_arguments_def normalize_eval number_eval option_eval validator_defs

text \<open>Every entry of the allowlist is usable: its own example command is allowed.\<close>

theorem every_policy_example_allowed:
  "list_all (\<lambda>p. classify_arguments (example p) = Allow) POLICIES"
proof -
  have "list_all (\<lambda>p. accepts p (example p)) POLICIES"
    unfolding POLICIES_eval by (simp add: accepts_eval)
  then show ?thesis by (auto simp: list_all_iff accepts_imp_allowed)
qed

end
