(* ===== verification/Policy_Properties.thy ===== *)
theory Policy_Properties
  imports Policy
begin

text \<open>
  What the allowlist of \<open>policy.rs\<close> guarantees: denial by default, the same verdict on both
  entry points and for every spelling of a command, and the bounds that make an allowed
  command cheap (argument counts, range windows, bit offsets, counts).
\<close>

section \<open>Denial by default\<close>

text \<open>The commands the playground page and the tests name as refused.\<close>

definition administrative_commands :: "rstring list" where
  "administrative_commands =
     [''SHUTDOWN'', ''FLUSHALL'', ''FLUSHDB'', ''CONFIG'', ''DEBUG'', ''MODULE'', ''ACL'', ''SAVE'', ''BGSAVE'', ''BGREWRITEAOF'',
      ''REPLICAOF'', ''PLUGIN'', ''AUDIT'', ''MIGRATE'', ''EVAL'', ''MULTI'', ''SUBSCRIBE'', ''KEYS'', ''SCAN'',
      ''HSCAN'', ''SSCAN'', ''ZSCAN'', ''HGETALL'', ''HKEYS'', ''HVALS'', ''SMEMBERS'', ''XREAD'', ''XREADGROUP'']"

definition not_allowlisted :: rstring where
  "not_allowlisted = ''the command is not on the explicit safe-command allowlist''"

lemma administrative_facts:
  "name \<in> set administrative_commands \<Longrightarrow>
     CHR ''.'' \<notin> set name \<and> name \<noteq> ''COMMAND'' \<and> name \<notin> set allowlist"
proof -
  have "list_all (\<lambda>name. CHR ''.'' \<notin> set name \<and> name \<noteq> ''COMMAND'' \<and> name \<notin> set allowlist)
          administrative_commands"
    by code_simp
  then show "name \<in> set administrative_commands \<Longrightarrow> ?thesis" by (auto simp: list_all_iff)
qed

lemma classify_normalized_not_listed:
  assumes "normalized_name_and_arguments args = Some (name, rest)" and "name \<notin> set allowlist"
  shows "classify_normalized args = Reject name not_allowlisted"
proof -
  from assms(2) have "find (\<lambda>p. name \<in> set (names p)) POLICIES = None"
    by (simp only: find_policy_None_iff not_False_eq_True)
  with assms(1) show ?thesis by (simp add: classify_normalized_def not_allowlisted_def)
qed

text \<open>C10: a command is allowed exactly when some entry of the table carries its normalised name and
  that entry's validator accepts the normalised arguments; everything else is refused.\<close>

theorem classify_allowed_iff:
  "is_allowed (classify_arguments args) \<longleftrightarrow>
     (\<exists>name rest p. normalized_name_and_arguments (map normalize args) = Some (name, rest) \<and>
        p \<in> set POLICIES \<and> name \<in> set (names p) \<and> validate p rest = Ok ())"
proof -
  have "is_allowed d \<longleftrightarrow> d = Allow" for d by (cases d) simp_all
  then show ?thesis by (simp add: classify_arguments_def classify_normalized_Allow_iff)
qed

text \<open>C8: on both entry points an administrative, lifecycle, scripting or unbounded-read command is
  refused by name, in every spelling that differs in case or surrounding white space and
  whatever its arguments are.\<close>

theorem administrative_commands_refused:
  assumes "normalize command \<in> set administrative_commands"
  shows "classify_arguments (command # args) = Reject (normalize command) not_allowlisted \<and>
         (valid_utf8 command \<longrightarrow>
          classify_bytes_arguments (command # bargs) = Reject (normalize command) not_allowlisted)"
proof -
  note facts = administrative_facts [OF assms]
  then have "normalized_name_and_arguments (normalize command # rest) = Some (normalize command, rest)" for rest
    by (simp add: normalized_name_and_arguments_def)
  with facts show ?thesis
    by (auto simp: classify_arguments_def classify_bytes_arguments_def from_utf8_def
        intro!: classify_normalized_not_listed)
qed

theorem administrative_commands_refused_witness:
  "classify_arguments ['' shutdown '', ''NOSAVE''] = Reject ''SHUTDOWN'' not_allowlisted"
proof -
  have n: "normalize '' shutdown '' = ''SHUTDOWN''" by (simp add: normalize_eval)
  then have "normalize '' shutdown '' \<in> set administrative_commands"
    by (simp add: administrative_commands_def)
  from administrative_commands_refused [OF this] show ?thesis by (simp add: n)
qed

section \<open>One verdict for both entry points and all spellings\<close>

lemma normalize_upper: "normalize (to_ascii_uppercase s) = normalize s"
  by (simp add: normalize_def trim_upper)

lemma normalize_idem: "valid_utf8 s \<Longrightarrow> normalize (normalize s) = normalize s"
  by (simp add: normalize_def trim_upper trim_idem)

lemma entry_points_agree:
  assumes "\<forall>a \<in> set args. valid_utf8 a"
  shows "classify_bytes_arguments args = classify_arguments args"
proof (cases args)
  case Nil
  then show ?thesis by (simp add: classify_bytes_arguments_def classify_arguments_def)
next
  case (Cons c rest)
  with assms show ?thesis
    by (simp add: classify_bytes_arguments_def classify_arguments_def from_utf8_def
        from_utf8_lossy_valid cong: map_cong)
qed

text \<open>C11: for arguments that are valid UTF-8, the binary-safe RESP entry point and the textual HTTP
  entry point reach the same decision, reasons included.\<close>

theorem classify_entry_points_agree:
  assumes "\<forall>a \<in> set args. valid_utf8 a"
  shows "classify_bytes_arguments args = classify_arguments args"
  using assms by (rule entry_points_agree)

theorem classify_entry_points_agree_witness:
  "classify_bytes_arguments [''get'', ''k''] = classify_arguments [''get'', ''k'']"
  by (rule classify_entry_points_agree) simp

text \<open>The decision does not depend on the case of the letters, nor on white space around the
  arguments: classifying the normalised command gives the decision of the command.\<close>

theorem classify_spelling_invariant:
  assumes "\<forall>a \<in> set args. valid_utf8 a"
  shows "classify_arguments (map to_ascii_uppercase args) = classify_arguments args \<and>
         classify_arguments (map normalize args) = classify_arguments args"
  using assms by (simp add: classify_arguments_def o_def normalize_upper normalize_idem cong: map_cong)

theorem classify_spelling_invariant_witness:
  "classify_arguments (map to_ascii_uppercase [''get '', ''k'']) = classify_arguments [''get '', ''k'']"
  using classify_spelling_invariant [of "[''get '', ''k'']"] by simp

section \<open>Bounded ranges\<close>

text \<open>
  The specification: Redis resolves a negative index from the end and a range selects the
  existing positions between its two ends.  \<open>range_positions n start stop\<close> are the positions
  of a list, sorted set or string of \<open>n\<close> items that the range selects.
\<close>

definition resolve_index :: "nat \<Rightarrow> int \<Rightarrow> int" where
  "resolve_index n i = (if i < 0 then int n + i else i)"

definition range_positions :: "nat \<Rightarrow> int \<Rightarrow> int \<Rightarrow> nat list" where
  "range_positions n start stop =
     filter (\<lambda>i. resolve_index n start \<le> int i \<and> int i \<le> resolve_index n stop) [0..<n]"

lemma length_filter_interval:
  "length (filter (\<lambda>i. a \<le> int i \<and> int i \<le> b) [0..<n]) \<le> nat (b - max 0 a + 1)"
proof -
  let ?xs = "filter (\<lambda>i. a \<le> int i \<and> int i \<le> b) [0..<n]"
  have "length ?xs = card (set ?xs)" by (rule distinct_card [symmetric]) simp
  also have "\<dots> = card (int ` set ?xs)" by (simp add: card_image inj_on_def)
  also have "\<dots> \<le> card {max 0 a..b}" by (intro card_mono) auto
  finally show ?thesis by simp
qed

lemma checked_width:
  assumes "Option.bind (checked_i64 (stop - start)) (\<lambda>difference. checked_i64 (difference + 1)) = Some w"
    and "start \<le> stop"
  shows "as_usize w = nat (stop - start + 1)"
  using assms as_usize_nonneg [of w]
  by (auto simp: bind_eq_Some_conv checked_i64_def in_i64_def split: if_splits)

lemma bounded_range_Ok:
  assumes "bounded_range start_text stop_text limit label = Ok ()"
  obtains start stop where "parse_i64_str start_text = Ok start" and "parse_i64_str stop_text = Ok stop"
    and "stop < start \<and> (0 \<le> stop \<or> start < 0) \<or>
         start \<le> stop \<and> (0 \<le> start \<or> stop \<le> 0) \<and> stop - start + 1 \<le> int limit"
proof -
  from assms obtain start stop
    where parsed: "parse_i64_str start_text = Ok start" "parse_i64_str stop_text = Ok stop"
      and signs: "\<not> (sgn start \<noteq> sgn stop \<and> start \<noteq> 0 \<and> stop \<noteq> 0)" "\<not> (0 \<le> start \<and> stop < 0)"
      and width: "stop < start \<or>
        (\<exists>w. Option.bind (checked_i64 (stop - start)) (\<lambda>difference. checked_i64 (difference + 1)) = Some w \<and>
             \<not> as_usize w > limit)"
    by (fastforce simp: bounded_range_def parse_i64_def split: if_splits)
  have signs': "start < 0 \<and> stop \<le> 0 \<or> 0 \<le> start \<and> 0 \<le> stop"
    using signs by (auto simp: sgn_if split: if_splits)
  have "stop < start \<or> stop - start + 1 \<le> int limit"
    using width checked_width [of stop start] by fastforce
  with signs' show thesis by (intro that [OF parsed]) linarith
qed

text \<open>A range accepted by the policy is bounded whatever the size of the value it is applied to:
  it never selects more than \<open>limit\<close> elements, negative indexes included.\<close>

theorem bounded_range_selects_at_most:
  assumes "bounded_range start_text stop_text limit label = Ok ()" and "0 < limit"
  shows "\<exists>start stop. parse_i64_str start_text = Ok start \<and> parse_i64_str stop_text = Ok stop \<and>
           (\<forall>n. length (range_positions n start stop) \<le> limit)"
proof -
  obtain start stop where parsed: "parse_i64_str start_text = Ok start" "parse_i64_str stop_text = Ok stop"
    and ok: "stop < start \<and> (0 \<le> stop \<or> start < 0) \<or>
             start \<le> stop \<and> (0 \<le> start \<or> stop \<le> 0) \<and> stop - start + 1 \<le> int limit"
    using assms(1) by (rule bounded_range_Ok)
  have "length (range_positions n start stop) \<le> limit" for n
  proof -
    have "length (range_positions n start stop)
          \<le> nat (resolve_index n stop - max 0 (resolve_index n start) + 1)"
      unfolding range_positions_def by (rule length_filter_interval)
    also have "\<dots> \<le> limit"
      using ok assms(2) by (auto simp: resolve_index_def max_def)
    finally show ?thesis .
  qed
  with parsed show ?thesis by blast
qed

theorem bounded_range_selects_at_most_witness:
  "\<exists>start stop. parse_i64_str ''-100'' = Ok start \<and> parse_i64_str ''-1'' = Ok stop \<and>
     (\<forall>n. length (range_positions n start stop) \<le> 100)"
proof -
  have "bounded_range ''-100'' ''-1'' 100 ''range window'' = Ok ()" by (simp add: number_eval)
  then show ?thesis by (rule bounded_range_selects_at_most) simp
qed

end
