(* ===== verification/Policy_Bounds.thy ===== *)
theory Policy_Bounds
  imports Policy_Properties
begin

text \<open>
  Two bounds that hold for every entry of the allowlist: how many arguments an allowed command
  can have, and how long the reason of a refusal can be.  Each validator is bounded by its own
  lemma; the table is then checked entry by entry.
\<close>

section \<open>Argument counts\<close>

definition count_bounded :: "nat \<Rightarrow> validator \<Rightarrow> bool" where
  "count_bounded n v \<longleftrightarrow> (\<forall>args. v args = Ok () \<longrightarrow> length args \<le> n)"

named_theorems count_bounds "argument-count bounds of the validators"

lemma count_boundedI: "(\<And>args. v args = Ok () \<Longrightarrow> length args \<le> n) \<Longrightarrow> count_bounded n v"
  by (simp add: count_bounded_def)

lemma exact_Ok [simp]: "exact n args = Ok () \<longleftrightarrow> length args = n"
  by (simp add: exact_def)

lemma between_Ok [simp]: "between lo hi args = Ok () \<longleftrightarrow> lo \<le> length args \<and> length args \<le> hi"
  by (simp add: between_def)

lemma at_most_Ok [simp]: "at_most hi args = Ok () \<longleftrightarrow> length args \<le> hi"
  by (simp add: at_most_def)

lemma simple_count_bounds [count_bounds]:
  "n \<le> k \<Longrightarrow> count_bounded k (exact n)"
  "n \<le> k \<Longrightarrow> count_bounded k (at_most n)"
  "n \<le> k \<Longrightarrow> count_bounded k (between m n)"
  "1 \<le> k \<Longrightarrow> count_bounded k ping"
  "1 \<le> k \<Longrightarrow> count_bounded k hello"
  "1 \<le> k \<Longrightarrow> count_bounded k select"
  "5 \<le> k \<Longrightarrow> count_bounded k copy"
  "2 \<le> k \<Longrightarrow> count_bounded k optional_count"
  "2 \<le> k \<Longrightarrow> count_bounded k getbit"
  "3 \<le> k \<Longrightarrow> count_bounded k setbit"
  "3 \<le> k \<Longrightarrow> count_bounded k random_member"
  "3 \<le> k \<Longrightarrow> count_bounded k string_range"
  "3 \<le> k \<Longrightarrow> count_bounded k collection_range"
  "4 \<le> k \<Longrightarrow> count_bounded k sorted_collection_range"
  "7 \<le> k \<Longrightarrow> count_bounded k limited_sorted_range"
  "5 \<le> k \<Longrightarrow> count_bounded k stream_range"
  by (auto simp: count_bounded_def ping_def hello_def select_def copy_def optional_count_def getbit_def
      setbit_def random_member_def string_range_def collection_range_def sorted_collection_range_def
      limited_sorted_range_def stream_range_def)

lemma pair_count_bounds [count_bounds]:
  "64 \<le> k \<Longrightarrow> count_bounded k key_value_pairs"
  "65 \<le> k \<Longrightarrow> count_bounded k hash_pairs"
  "33 \<le> k \<Longrightarrow> count_bounded k keyed_items"
  by (auto simp: count_bounded_def key_value_pairs_def hash_pairs_def keyed_items_def limits
      split: if_splits) presburger+

lemma zadd_options_Ok:
  assumes "zadd_options args index options = Ok (index', options')"
    and "distinct options" and "set options \<subseteq> set zadd_flags"
  shows "index' \<le> index + 6 - length options \<and> distinct options' \<and> set options' \<subseteq> set zadd_flags"
  using assms
proof (induction args index options rule: zadd_options.induct)
  case (1 args index options)
  have "length options = card (set options)" using "1.prems"(2) by (simp add: distinct_card)
  also have "\<dots> \<le> card (set zadd_flags)" using "1.prems"(3) by (intro card_mono) simp_all
  also have "\<dots> \<le> 6" by (simp add: zadd_flags_def card.insert_remove)
  finally have six: "length options \<le> 6" .
  show ?case
  proof (cases "index < length args \<and> args ! index \<in> set zadd_flags \<and> args ! index \<notin> set options")
    case True
    have d: "distinct (options @ [args ! index])" "set (options @ [args ! index]) \<subseteq> set zadd_flags"
      using True "1.prems"(2,3) by simp_all
    then have "length (options @ [args ! index]) \<le> 6"
      using card_mono [of "set zadd_flags" "set (options @ [args ! index])"] \<open>card (set zadd_flags) \<le> 6\<close>
        distinct_card [of "options @ [args ! index]"] by simp
    moreover have "index' \<le> index + 1 + 6 - length (options @ [args ! index]) \<and> distinct options' \<and>
        set options' \<subseteq> set zadd_flags"
      using True "1.prems"(1) by (intro "1.IH" [OF _ refl _ _ _ d]) (simp_all add: zadd_options.simps [of args index])
    ultimately show ?thesis by (simp add: add.commute)
  next
    case False
    with "1.prems" six show ?thesis
      by (auto simp: zadd_options.simps [of args index] Let_def split: if_splits)
  qed
qed

lemma even_half_le: "n div 2 \<le> 32 \<Longrightarrow> even n \<Longrightarrow> n \<le> 64" for n :: nat
  by presburger

lemma trim_spec_Ok:
  "validate_stream_trim_spec args start = Ok index \<Longrightarrow> index \<le> start + 5 \<and> index \<le> length args"
  by (auto simp: validate_stream_trim_spec_def Let_def split: if_splits)

lemma stream_count_bounds [count_bounds]:
  "71 \<le> k \<Longrightarrow> count_bounded k zadd"
  "72 \<le> k \<Longrightarrow> count_bounded k xadd"
  "6 \<le> k \<Longrightarrow> count_bounded k xtrim"
proof -
  show "count_bounded k zadd" if "71 \<le> k"
  proof (rule count_boundedI)
    fix args assume "zadd args = Ok ()"
    then obtain index options where opts: "zadd_options args 1 [] = Ok (index, options)"
      and "length (drop index args) div 2 \<le> 32" "even (length (drop index args))"
      by (auto simp: zadd_def Let_def limits split: if_splits)
    then have "length (drop index args) \<le> 64" using even_half_le by blast
    then have "length args \<le> index + 64" by simp
    moreover have "index \<le> 7" using zadd_options_Ok [OF opts] by simp
    ultimately show "length args \<le> k" using that by simp
  qed
  show "count_bounded k xadd" if "72 \<le> k"
  proof (rule count_boundedI)
    fix args assume ok: "xadd args = Ok ()"
    define start :: nat where "start = (if get args 1 = Some ''NOMKSTREAM'' then 2 else 1)"
    from ok obtain index where
      index: "(if get args start = Some ''MAXLEN'' \<or> get args start = Some ''MINID''
         then validate_stream_trim_spec args start else Ok start) = Ok index"
      and "length (drop (index + 1) args) div 2 \<le> 32" "even (length (drop (index + 1) args))"
      unfolding xadd_def start_def [symmetric] Let_def
      by (auto simp: limits simp del: get_Some_iff split: if_splits)
    then have "length (drop (index + 1) args) \<le> 64" using even_half_le by blast
    then have "length args \<le> index + 1 + 64" by simp
    moreover have "index \<le> start + 5" using index by (auto split: if_splits dest: trim_spec_Ok)
    moreover have "start \<le> 2" by (simp add: start_def)
    ultimately show "length args \<le> k" using that by simp
  qed
  show "count_bounded k xtrim" if "6 \<le> k"
    using that by (auto simp: count_bounded_def xtrim_def dest!: trim_spec_Ok split: if_splits)
qed

lemma all_policies_count_bounded: "list_all (\<lambda>p. count_bounded 72 (validate p)) POLICIES"
  unfolding POLICIES_eval by (simp add: count_bounds limits)

lemma command_policies_count_bounded:
  "list_all (\<lambda>p. (\<exists>name \<in> set (names p). take 8 name = ''COMMAND.'') \<longrightarrow> count_bounded 32 (validate p)) POLICIES"
  unfolding POLICIES_eval by (simp add: count_bounds limits)

text \<open>No allowed command has more than 73 words, so the policy bounds the work of a request well
  below the protocol's own limit of 256 arguments.\<close>

theorem allowed_command_length:
  assumes "classify_arguments args = Allow"
  shows "length args \<le> 73"
proof -
  from assms obtain name rest p where
    n: "normalized_name_and_arguments (map normalize args) = Some (name, rest)"
    and p: "p \<in> set POLICIES" "name \<in> set (names p)" "validate p rest = Ok ()"
    by (auto simp: classify_arguments_def classify_normalized_Allow_iff)
  then have "length rest \<le> 72"
    using all_policies_count_bounded by (auto simp: list_all_iff count_bounded_def)
  show ?thesis
  proof (cases "\<exists>sub tail. map normalize args = ''COMMAND'' # sub # tail")
    case True
    then obtain sub tail where args: "map normalize args = ''COMMAND'' # sub # tail" by (elim exE)
    with n have "name = ''COMMAND.'' @ sub" "rest = tail"
      by (simp_all add: normalized_name_and_arguments_def)
    with p have "length tail \<le> 32"
      using command_policies_count_bounded by (fastforce simp: list_all_iff count_bounded_def)
    moreover have "length args = Suc (Suc (length tail))" using args by (metis length_Cons length_map)
    ultimately show ?thesis by simp
  next
    case False
    with n \<open>length rest \<le> 72\<close> show ?thesis
      by (cases args) (auto simp: normalized_name_and_arguments_def split: if_splits list.splits)
  qed
qed

theorem allowed_command_length_witness: "length [''COMMAND'', ''INFO'', ''GET''] \<le> 73"
  by (rule allowed_command_length)
    (simp add: classify_arguments_def classify_normalized_def POLICIES_eval accepts_eval)

section \<open>Lengths of refusal reasons\<close>

text \<open>
  A reason quotes at most one argument; \<open>reason_bounded\<close> says that it is no longer than the
  longest argument and 128 bytes.
\<close>

definition reason_bounded :: "validator \<Rightarrow> bool" where
  "reason_bounded v \<longleftrightarrow>
     (\<forall>args r B. (\<forall>a \<in> set args. length a \<le> B) \<longrightarrow> v args = Err r \<longrightarrow> length r \<le> B + 128)"

named_theorems reason_bounds "length bounds of the validators' reasons"

lemma reason_boundedI: "(\<And>args r. v args = Err r \<Longrightarrow> length r \<le> 128) \<Longrightarrow> reason_bounded v"
  unfolding reason_bounded_def by (meson le_trans le_add2)

lemma length_show_nat_small: "n < 1000000 \<Longrightarrow> length (show_nat n) \<le> 6"
  using length_show_nat [of n 6] by simp

lemma show_limits [simp]:
  "length (show_nat MAX_MULTI_ITEMS) = 2" "length (show_nat MAX_COLLECTION_PAGE) = 3"
  "length (show_nat MAX_STRING_RANGE) = 5" "length (show_nat MAX_BIT_OFFSET) = 6"
  "length (show_nat MAX_DATABASE) = 2"
  by (simp_all add: limits show_nat.simps)

lemma number_reasons:
  "parse_u64 value label = Err r \<Longrightarrow> length r = length label + 31"
  "parse_i64 value label = Err r \<Longrightarrow> length r = length label + 19"
  by (auto simp: parse_u64_def parse_i64_def)

lemma bounded_positive_count_reason: "bounded_positive_count value = Err r \<Longrightarrow> length r \<le> 40"
  by (auto simp: bounded_positive_count_def dest: number_reasons split: if_splits)

lemma bounded_bit_offset_reason: "bounded_bit_offset value = Err r \<Longrightarrow> length r \<le> 60"
  by (auto simp: bounded_bit_offset_def dest: number_reasons split: if_splits)

lemma parse_score_reason: "parse_score value = Err r \<Longrightarrow> length r \<le> 40"
  by (auto simp: parse_score_def split: option.splits if_splits)

lemma parse_scores_reason: "parse_scores pairs = Err r \<Longrightarrow> length r \<le> 40"
  by (induction pairs rule: parse_scores.induct) (auto dest: parse_score_reason)

lemma bounded_range_reason:
  "bounded_range a b limit label = Err r \<Longrightarrow> limit < 1000000 \<Longrightarrow> length r \<le> length label + 80"
  using length_show_nat_small [of limit]
  by (auto simp: bounded_range_def Let_def dest: number_reasons split: if_splits)

lemma count_reasons:
  "exact n args = Err r \<Longrightarrow> n < 1000000 \<Longrightarrow> length r \<le> 40"
  "at_most n args = Err r \<Longrightarrow> n < 1000000 \<Longrightarrow> length r \<le> 40"
  "between m n args = Err r \<Longrightarrow> m < 1000000 \<Longrightarrow> n < 1000000 \<Longrightarrow> length r \<le> 60"
  using length_show_nat_small [of n] length_show_nat_small [of m]
  by (auto simp: exact_def at_most_def between_def split: if_splits)

lemma stream_id_reason: "validate_stream_id value = Err r \<Longrightarrow> length r \<le> 60"
  by (auto simp: validate_stream_id_def dest: number_reasons)

lemma trim_spec_reason: "validate_stream_trim_spec args start = Err r \<Longrightarrow> length r \<le> 80"
  by (auto simp: validate_stream_trim_spec_def Let_def split: if_splits
      dest!: number_reasons stream_id_reason bounded_positive_count_reason)

lemmas fixed_reasons =
  count_reasons number_reasons bounded_positive_count_reason bounded_bit_offset_reason
  parse_scores_reason bounded_range_reason trim_spec_reason

lemma counted_reason_bounds [reason_bounds]:
  "n < 1000000 \<Longrightarrow> reason_bounded (exact n)"
  "n < 1000000 \<Longrightarrow> reason_bounded (at_most n)"
  "m < 1000000 \<Longrightarrow> n < 1000000 \<Longrightarrow> reason_bounded (between m n)"
  by (rule reason_boundedI, drule count_reasons, simp_all)+

lemma fixed_reason_bounds [reason_bounds]:
  "reason_bounded ping" "reason_bounded hello" "reason_bounded select" "reason_bounded optional_count"
  "reason_bounded getbit" "reason_bounded setbit" "reason_bounded random_member"
  "reason_bounded key_value_pairs" "reason_bounded hash_pairs" "reason_bounded keyed_items"
  "reason_bounded string_range" "reason_bounded collection_range"
  "reason_bounded sorted_collection_range" "reason_bounded limited_sorted_range"
  "reason_bounded stream_range" "reason_bounded xadd"
  by (rule reason_boundedI,
      auto simp: ping_def hello_def select_def optional_count_def getbit_def setbit_def
        random_member_def key_value_pairs_def hash_pairs_def keyed_items_def string_range_def
        collection_range_def sorted_collection_range_def limited_sorted_range_def stream_range_def
        xadd_def validate_xadd_id_def Let_def
      dest!: fixed_reasons split: if_splits option.splits, (simp_all add: limits)?)+

lemma copy_options_reason:
  "copy_options args index saw_db saw_replace = Err r \<Longrightarrow> \<forall>a \<in> set args. length a \<le> B \<Longrightarrow>
     length r \<le> B + 128"
proof (induction args index saw_db saw_replace rule: copy_options.induct)
  case (1 args index saw_db saw_replace)
  have arg: "length (args ! index) \<le> B" if "index < length args" using that "1.prems"(2) by simp
  from "1.prems"(1) consider
      (missing) "r = ''DB requires a destination database''"
    | (number) a where "parse_u64 a ''destination database'' = Err r"
    | (large) "length r \<le> 60"
    | (db) "copy_options args (index + 2) True saw_replace = Err r" "index < length args"
        "args ! index = ''DB''" "\<not> saw_db"
    | (replace) "copy_options args (index + 1) saw_db True = Err r" "index < length args"
        "args ! index = ''REPLACE''" "\<not> saw_replace"
    | (twice) "index < length args" "r = args ! index @ '' may be specified only once''"
    | (other) "index < length args" "r = ''unsupported COPY option '' @ args ! index"
    by (subst (asm) copy_options.simps) (auto simp: Let_def split: if_splits)
  then show ?case
  proof cases
    case db
    with "1.IH"(1) [of "args ! index" 0] "1.prems"(2) show ?thesis by simp
  next
    case replace
    with "1.IH"(2) [of "args ! index"] "1.prems"(2) show ?thesis by simp
  next
    case number
    then show ?thesis by (auto dest: number_reasons)
  qed (use arg in simp_all)
qed

lemma zadd_options_reason:
  "zadd_options args index options = Err r \<Longrightarrow> \<forall>a \<in> set args. length a \<le> B \<Longrightarrow> length r \<le> B + 128"
proof (induction args index options rule: zadd_options.induct)
  case (1 args index options)
  have arg: "length (args ! index) \<le> B" if "index < length args" using that "1.prems"(2) by simp
  have unfold: "zadd_options args index options =
      (if index < length args then
         if args ! index \<notin> set zadd_flags then Ok (index, options)
         else if args ! index \<in> set options then Err (args ! index @ '' may be specified only once'')
         else zadd_options args (index + 1) (options @ [args ! index])
       else Ok (index, options))"
    by (simp only: zadd_options.simps [of args index options] Let_def)
  show ?case
  proof (cases "args ! index \<in> set options")
    case True
    with "1.prems"(1) arg show ?thesis unfolding unfold by (fastforce split: if_splits)
  next
    case False
    with "1.prems"(1) have more: "index < length args" "args ! index \<in> set zadd_flags"
      "zadd_options args (index + 1) (options @ [args ! index]) = Err r"
      unfolding unfold by (simp_all split: if_splits)
    with False "1.IH" [OF more(1) refl _ False] "1.prems"(2) show ?thesis by simp
  qed
qed

lemma reason_bounded_copy [reason_bounds]: "reason_bounded copy"
  unfolding reason_bounded_def
proof (intro allI impI)
  fix args r B
  assume B: "\<forall>a \<in> set args. length a \<le> B" and "copy args = Err r"
  then consider "between 2 5 args = Err r" | "copy_options args 2 False False = Err r"
    by (auto simp: copy_def)
  then show "length r \<le> B + 128"
    using B by cases (auto dest: count_reasons copy_options_reason)
qed

lemma zadd_reason: "zadd args = Err r \<Longrightarrow> zadd_options args 1 [] = Err r \<or> length r \<le> 128"
  unfolding zadd_def
  by (cases "zadd_options args 1 []")
    (auto simp: Let_def dest!: parse_scores_reason split: if_splits)

lemma reason_bounded_zadd [reason_bounds]: "reason_bounded zadd"
  unfolding reason_bounded_def
proof (intro allI impI)
  fix args r B
  assume B: "\<forall>a \<in> set args. length a \<le> B" and "zadd args = Err r"
  then show "length r \<le> B + 128" using zadd_reason [of args r] zadd_options_reason [OF _ B] by fastforce
qed

lemma reason_bounded_xtrim [reason_bounds]: "reason_bounded xtrim"
  unfolding reason_bounded_def
proof (intro allI impI)
  fix args r B
  assume B: "\<forall>a \<in> set args. length a \<le> B" and "xtrim args = Err r"
  then consider "r = ''requires a key, trim strategy, and threshold''"
    | "validate_stream_trim_spec args 1 = Err r"
    | i where "validate_stream_trim_spec args 1 = Ok i" "i \<noteq> length args"
        "r = ''unsupported XTRIM option '' @ args ! i"
    unfolding xtrim_def by (cases "validate_stream_trim_spec args 1") (auto split: if_splits)
  then show "length r \<le> B + 128"
  proof cases
    case 2
    then show ?thesis using trim_spec_reason by fastforce
  next
    case 3
    then have "i < length args" using trim_spec_Ok [OF 3(1)] by simp
    then have "length (args ! i) \<le> B" using B by simp
    with 3 show ?thesis by simp
  qed simp
qed

lemma all_policies_reason_bounded: "list_all (\<lambda>p. reason_bounded (validate p)) POLICIES"
  unfolding POLICIES_eval by (simp add: reason_bounds limits)

lemma allowlist_name_short: "name \<in> set allowlist \<Longrightarrow> length name \<le> 16"
proof -
  have "list_all (\<lambda>name. length name \<le> 16) allowlist" by (simp add: allowlist_def POLICIES_eval)
  then show "name \<in> set allowlist \<Longrightarrow> ?thesis" by (auto simp: list_all_iff)
qed

lemma normalized_name_length:
  "normalized_name_and_arguments args = Some (name, rest) \<Longrightarrow> \<forall>a \<in> set args. length a \<le> B \<Longrightarrow>
     length name \<le> B + 8 \<and> (\<forall>a \<in> set rest. length a \<le> B)"
  by (auto simp: normalized_name_and_arguments_def split: list.splits if_splits)

lemma classify_normalized_message:
  assumes "\<forall>a \<in> set args. length a \<le> B"
  shows "length (message (classify_normalized args)) \<le> B + 256"
proof (cases "normalized_name_and_arguments args")
  case None
  then show ?thesis by (simp add: classify_normalized_def)
next
  case (Some nr)
  obtain name rest where nr: "nr = (name, rest)" by fastforce
  note len = normalized_name_length [OF Some [unfolded nr] assms]
  show ?thesis
  proof (cases "find (\<lambda>p. name \<in> set (names p)) POLICIES")
    case None
    with Some nr len show ?thesis by (simp add: classify_normalized_def)
  next
    case found: (Some p)
    then have p: "p \<in> set POLICIES" "name \<in> set (names p)" by (simp_all only: find_policy_Some_iff)
    then have "length name \<le> 16" by (auto intro: allowlist_name_short name_in_allowlist)
    moreover have "length r \<le> B + 128" if "validate p rest = Err r" for r
      using that p(1) len all_policies_reason_bounded by (auto simp: list_all_iff reason_bounded_def)
    ultimately show ?thesis
      using Some nr found by (auto simp: classify_normalized_def split: result.splits)
  qed
qed

lemma length_normalize: "length (normalize s) \<le> length s"
  by (simp add: normalize_def length_trim_le)

text \<open>The refusal sent for a binary command is never longer than three times its longest argument
  (the worst case of the lossy UTF-8 view) and a constant.\<close>

lemma refusal_message_length:
  assumes "\<forall>a \<in> set args. length a \<le> B"
  shows "length (message (classify_bytes_arguments args)) \<le> 3 * B + 256"
proof (cases args)
  case Nil
  then show ?thesis using classify_normalized_message [of "[]" 0] by (simp add: classify_bytes_arguments_def)
next
  case (Cons c rest)
  show ?thesis
  proof (cases "from_utf8 c")
    case None
    with Cons show ?thesis by (simp add: classify_bytes_arguments_def )
  next
    case (Some s)
    have "length (normalize c) \<le> 3 * B" using assms Cons length_normalize [of c] by simp
    moreover have "length (normalize (from_utf8_lossy a)) \<le> 3 * B" if "a \<in> set rest" for a
    proof -
      from that have "length a \<le> B" using assms Cons by simp
      then show ?thesis
        using length_normalize [of "from_utf8_lossy a"] length_from_utf8_lossy [of a] by linarith
    qed
    ultimately show ?thesis
      using Some Cons
        classify_normalized_message [of "normalize c # map (\<lambda>a. normalize (from_utf8_lossy a)) rest" "3 * B"]
      by (simp add: classify_bytes_arguments_def)
  qed
qed

end
