(* ===== verification/Forwarding.thy ===== *)
theory Forwarding
  imports Child_Link Policy_Bounds
begin

text \<open>
  What may be written to the Ferrite child: the encodings of the commands the public policy allows.
  The proxy, the HTTP handlers and the key pages are all measured against this set.
\<close>

definition allowed_requests :: "bytes set" where
  "allowed_requests = {encode_command args |args. args \<noteq> [] \<and> is_allowed (classify_bytes_arguments args)}"

lemma allowed_request:
  "args \<noteq> [] \<Longrightarrow> is_allowed (classify_bytes_arguments args) \<Longrightarrow> encode_command args \<in> allowed_requests"
  by (auto simp: allowed_requests_def)

text \<open>A literal command name with arguments its policy accepts.\<close>

lemma allowed_by_policy:
  assumes "p \<in> set POLICIES" and "name \<in> set (names p)" and "valid_utf8 name" and "normalize name = name"
    and "CHR ''.'' \<notin> set name" and "name \<noteq> ''COMMAND''"
    and "validate p (map (\<lambda>a. normalize (from_utf8_lossy a)) rest) = Ok ()"
  shows "classify_bytes_arguments (name # rest) = Allow"
proof -
  let ?rest = "map (\<lambda>a. normalize (from_utf8_lossy a)) rest"
  have "normalized_name_and_arguments (name # ?rest) = Some (name, ?rest)"
    using assms(5,6) by (simp add: normalized_name_and_arguments_def)
  with assms(1,2,7) have "classify_normalized (name # ?rest) = Allow"
    by (auto simp: classify_normalized_Allow_iff)
  with assms(3,4) show ?thesis by (simp add: classify_bytes_arguments_def from_utf8_def)
qed

end
