(* ===== verification/Policy_Tests.thy ===== *)
theory Policy_Tests
  imports Forwarding Launcher_Text
begin

text \<open>
  The repository's own tests of the policy (module \<open>tests\<close> of \<open>policy.rs\<close>), each as a predicate on
  the model's policy, and that it holds: the model makes the decisions the tests expect of the
  code.
\<close>

section \<open>The tests\<close>

definition assert_allowed :: "rstring list \<Rightarrow> bool" where
  "assert_allowed arguments \<longleftrightarrow> classify_arguments arguments = Allow"

definition rejects :: "Decision \<Rightarrow> rstring \<Rightarrow> bool" where
  "rejects decision reason \<longleftrightarrow> \<not> is_allowed decision \<and> contains reason (message decision)"

definition assert_rejected :: "rstring list \<Rightarrow> rstring \<Rightarrow> bool" where
  "assert_rejected arguments reason \<longleftrightarrow> rejects (classify_arguments arguments) reason"

definition assert_rejected_bytes :: "bytes list \<Rightarrow> rstring \<Rightarrow> bool" where
  "assert_rejected_bytes arguments reason \<longleftrightarrow> rejects (classify_bytes_arguments arguments) reason"

definition every_allowlisted_policy_has_a_working_example :: bool where
  "every_allowlisted_policy_has_a_working_example \<longleftrightarrow> list_all (\<lambda>p. assert_allowed (example p)) POLICIES"

definition allows_safe_bounded_data_and_introspection_commands :: bool where
  "allows_safe_bounded_data_and_introspection_commands \<longleftrightarrow> list_all assert_allowed
     [[''PING''],
      [''ECHO'', ''hello''],
      [''HELLO'', ''3''],
      [''COMMAND'', ''COUNT''],
      [''COMMAND.INFO'', ''GET'', ''SET''],
      [''INFO'', ''SERVER''],
      [''SET'', ''key'', ''value''],
      [''GET'', ''key''],
      [''MGET'', ''one'', ''two''],
      [''COPY'', ''source'', ''destination'', ''DB'', ''15'', ''REPLACE''],
      [''GETBIT'', ''bitmap'', ''4294967288''],
      [''SETBIT'', ''bitmap'', ''524287'', ''1''],
      [''HSET'', ''hash'', ''field'', ''value''],
      [''HMGET'', ''hash'', ''one'', ''two''],
      [''LRANGE'', ''list'', ''0'', ''99''],
      [''LRANGE'', ''list'', ''-100'', ''-1''],
      [''ZRANGE'', ''zset'', ''0'', ''99'', ''WITHSCORES''],
      [''XRANGE'', ''stream'', ''-'', ''+'', ''COUNT'', ''100''],
      [''XREVRANGE'', ''stream'', ''+'', ''-'', ''COUNT'', ''1''],
      [''XTRIM'', ''stream'', ''MAXLEN'', ''~'', ''100'', ''LIMIT'', ''100'']]"

definition off_the_allowlist :: "rstring list \<Rightarrow> bool" where
  "off_the_allowlist arguments \<longleftrightarrow> assert_rejected arguments ''explicit safe-command allowlist''"

definition rejects_every_command_not_explicitly_allowlisted :: bool where
  "rejects_every_command_not_explicitly_allowlisted \<longleftrightarrow> list_all off_the_allowlist
     [[''PLUGIN'', ''LIST''],
      [''AUDIT'', ''START''],
      [''SHUTDOWN''],
      [''CONFIG'', ''SET'', ''appendonly'', ''yes''],
      [''EVAL'', ''return 1'', ''0''],
      [''HGETALL'', ''hash''],
      [''HKEYS'', ''hash''],
      [''HVALS'', ''hash''],
      [''SMEMBERS'', ''set''],
      [''KEYS'', ''*''],
      [''SCAN'', ''0'', ''COUNT'', ''100''],
      [''HSCAN'', ''hash'', ''0'', ''COUNT'', ''100''],
      [''SSCAN'', ''set'', ''0'', ''COUNT'', ''100''],
      [''ZSCAN'', ''zset'', ''0'', ''COUNT'', ''100''],
      [''XREAD'', ''COUNT'', ''10'', ''STREAMS'', ''events'', ''0-0''],
      [''XREAD'', ''STREAMS'', ''COUNT'', ''10'', ''events'', ''0-0''],
      [''XREADGROUP'', ''GROUP'', ''group'', ''consumer'', ''COUNT'', ''10'', ''STREAMS'', ''events'', ''>''],
      [''SUBSCRIBE'', ''channel''],
      [''MULTI''],
      [''MOCKARRAY'', ''10'', ''10'']]"

definition applies_root_subcommand_and_dotted_normalization_consistently :: bool where
  "applies_root_subcommand_and_dotted_normalization_consistently \<longleftrightarrow>
     list_all assert_allowed
       [[''COMMAND'', ''COUNT''],
        [''command.count''],
        [''COMMAND'', ''INFO'', ''GET''],
        [''command.info'', ''get'']] \<and>
     list_all off_the_allowlist
       [[''MIGRATE'', ''START'', ''redis://example.invalid''],
        [''migrate.start'', ''redis://example.invalid''],
        [''PLUGIN'', ''LOAD'', ''example''],
        [''plugin.load'', ''example''],
        [''AUDIT'', ''START''],
        [''audit.start'']]"

definition rejects_unbounded_or_oversized_ranges :: bool where
  "rejects_unbounded_or_oversized_ranges \<longleftrightarrow> list_all (\<lambda>arguments. assert_rejected arguments ''range'')
     [[''LRANGE'', ''list'', ''0'', ''-1''],
      [''LRANGE'', ''list'', ''0'', ''100''],
      [''LRANGE'', ''list'', ''-101'', ''-1''],
      [''ZRANGE'', ''zset'', ''0'', ''-1''],
      [''ZREVRANGE'', ''zset'', ''0'', ''100''],
      [''GETRANGE'', ''value'', ''0'', ''65536'']]"

definition requires_bounded_stream_ranges :: bool where
  "requires_bounded_stream_ranges \<longleftrightarrow> list_all (\<lambda>arguments. assert_rejected arguments ''COUNT'')
     [[''XRANGE'', ''stream'', ''-'', ''+''],
      [''XRANGE'', ''stream'', ''-'', ''+'', ''COUNT'', ''101''],
      [''XREVRANGE'', ''stream'', ''+'', ''-'', ''COUNT'', ''0'']]"

definition repeated :: "nat \<Rightarrow> rstring list \<Rightarrow> rstring list" where
  "repeated n items = concat (replicate n items)"

definition bounds_multi_item_commands :: bool where
  "bounds_multi_item_commands \<longleftrightarrow>
     (let too_many = (\<lambda>arguments. assert_rejected arguments (show_nat MAX_MULTI_ITEMS)) in
      too_many (''MGET'' # repeated (MAX_MULTI_ITEMS + 1) [''key'']) \<and>
      too_many ([''HMGET'', ''hash''] @ repeated (MAX_MULTI_ITEMS + 1) [''field'']) \<and>
      too_many (''MSET'' # repeated (MAX_MULTI_ITEMS + 1) [''key'', ''value'']) \<and>
      (let zadd = [''ZADD'', ''zset''] @ repeated MAX_MULTI_ITEMS [''1'', ''member''] in
       assert_allowed zadd \<and> too_many (zadd @ [''1'', ''member''])) \<and>
      (let xadd = [''XADD'', ''stream'', ''*''] @ repeated MAX_MULTI_ITEMS [''field'', ''value''] in
       assert_allowed xadd \<and> too_many (xadd @ [''field'', ''value''])))"

definition rejects_arguments_that_can_crash_or_exhaust_the_child :: bool where
  "rejects_arguments_that_can_crash_or_exhaust_the_child \<longleftrightarrow> list_all (\<lambda>(arguments, reason). assert_rejected arguments reason)
     [([''COPY'', ''source'', ''destination'', ''DB'', ''16''], ''at most 15''),
      ([''XTRIM'', ''stream'', ''MAXLEN'', ''=''], ''threshold''),
      ([''XTRIM'', ''stream'', ''MINID'', ''~''], ''threshold''),
      ([''XTRIM'', ''stream'', ''MAXLEN'', ''100'', ''LIMIT'', ''10''], ''approximate''),
      ([''XADD'', ''stream'', ''MAXLEN'', ''='', ''100'', ''LIMIT'', ''10'', ''*'', ''field'', ''value''], ''approximate''),
      ([''XADD'', ''stream'', ''18446744073709551615-18446744073709551615'', ''field'', ''value''], ''monotonic''),
      ([''SETBIT'', ''bitmap'', ''4294967288'', ''1''], ''bit offset''),
      ([''SETBIT'', ''bitmap'', ''1'', ''2''], ''0 or 1'')]"

definition binary_policy_matches_text_policy_and_preserves_binary_safe_data :: bool where
  "binary_policy_matches_text_policy_and_preserves_binary_safe_data \<longleftrightarrow>
     classify_bytes_arguments [''XRANGE'', ''stream'', ''-'', ''+''] = classify_arguments [''XRANGE'', ''stream'', ''-'', ''+''] \<and>
     assert_rejected_bytes [[CHR 0xFF, CHR 0xFE]] ''command names must be valid UTF-8'' \<and>
     classify_bytes_arguments [''SET'', [CHR 0xFF, CHR 0xFE], [CHR 0x80, CHR 0x81]] = Allow"

definition removed_scan_and_stream_read_commands_cannot_bypass_the_allowlist :: bool where
  "removed_scan_and_stream_read_commands_cannot_bypass_the_allowlist \<longleftrightarrow> list_all off_the_allowlist
     [[''SCAN'', ''0'', ''COUNT'', ''10'', ''COUNT'', ''1000000''],
      [''XREAD'', ''COUNT'', ''10'', ''COUNT'', ''1000000'', ''STREAMS'', ''stream'', ''0-0''],
      [''XREAD'', ''STREAMS'', ''COUNT'', ''10'', ''stream'', ''0-0'']]"

definition rejection_messages_name_the_policy_and_reason :: bool where
  "rejection_messages_name_the_policy_and_reason \<longleftrightarrow>
     (let refusal = message (classify_arguments [''SHUTDOWN'']) in
      contains ''SHUTDOWN'' refusal \<and> contains ''public playground policy'' refusal \<and>
      contains ''unbounded'' (message (classify_arguments [''LRANGE'', ''list'', ''0'', ''-1''])))"

section \<open>Their results\<close>

lemmas test_eval = assert_allowed_def assert_rejected_def rejects_def off_the_allowlist_def assert_rejected_bytes_def

text \<open>The entries of the table the tests are about, and looking them up.\<close>

definition tested_policies :: "command_policy list" where
  "tested_policies =
     [policy [''PING''] [''PING''] ping,
      policy [''ECHO''] [''ECHO'', ''hello''] (exact 1),
      policy [''HELLO''] [''HELLO'', ''3''] hello,
      policy [''COMMAND.COUNT''] [''COMMAND'', ''COUNT''] (exact 0),
      policy [''COMMAND.INFO''] [''COMMAND'', ''INFO'', ''GET''] (between 1 MAX_MULTI_ITEMS),
      policy [''INFO''] [''INFO''] (at_most 1),
      policy [''SET'', ''SETNX''] [''SET'', ''key'', ''value''] (between 2 8),
      policy [''GET'', ''GETDEL''] [''GET'', ''key''] (exact 1),
      policy [''MGET''] [''MGET'', ''key-1'', ''key-2''] (between 1 MAX_MULTI_ITEMS),
      policy [''COPY''] [''COPY'', ''source'', ''destination''] copy,
      policy [''GETBIT''] [''GETBIT'', ''key'', ''0''] getbit,
      policy [''SETBIT''] [''SETBIT'', ''key'', ''0'', ''1''] setbit,
      policy [''HSET''] [''HSET'', ''hash'', ''field'', ''value''] hash_pairs,
      policy [''HMGET''] [''HMGET'', ''hash'', ''field''] keyed_items,
      policy [''LRANGE''] [''LRANGE'', ''list'', ''0'', ''99''] collection_range,
      policy [''ZRANGE'', ''ZREVRANGE''] [''ZRANGE'', ''zset'', ''0'', ''99''] sorted_collection_range,
      policy [''XRANGE'', ''XREVRANGE''] [''XRANGE'', ''stream'', ''-'', ''+'', ''COUNT'', ''100''] stream_range,
      policy [''XTRIM''] [''XTRIM'', ''stream'', ''MAXLEN'', ''100''] xtrim,
      policy [''GETRANGE''] [''GETRANGE'', ''key'', ''0'', ''1023''] string_range,
      policy [''MSET'', ''MSETNX''] [''MSET'', ''key-1'', ''value-1''] key_value_pairs,
      policy [''ZADD''] [''ZADD'', ''zset'', ''1'', ''member''] zadd,
      policy [''XADD''] [''XADD'', ''stream'', ''*'', ''field'', ''value''] xadd]"

lemma tested_policies_listed: "set tested_policies \<subseteq> set POLICIES"
  unfolding tested_policies_def POLICIES_eval set_simps by (intro subsetI) (elim insertE emptyE; simp)

definition tested_policy :: "rstring \<Rightarrow> command_policy option" where
  "tested_policy name = find (\<lambda>p. name \<in> set (names p)) tested_policies"

lemma classify_tested:
  assumes "normalized_name_and_arguments (map normalize args) = Some (name, rest)" and "tested_policy name = Some p"
  shows "classify_arguments args = (case validate p rest of Ok _ \<Rightarrow> Allow | Err reason \<Rightarrow> Reject name reason)"
proof -
  from assms(2) have "p \<in> set tested_policies" "name \<in> set (names p)"
    by (auto simp: tested_policy_def find_Some_iff)
  then have "find (\<lambda>p. name \<in> set (names p)) POLICIES = Some p"
    using tested_policies_listed by (auto simp only: find_policy_Some_iff)
  with assms(1) show ?thesis by (simp add: classify_arguments_def classify_normalized_def)
qed

lemma allowedI:
  assumes "normalized_name_and_arguments (map normalize args) = Some (name, rest)" and "tested_policy name = Some p"
    and "validate p rest = Ok ()"
  shows "assert_allowed args"
  using classify_tested [OF assms(1,2)] assms(3) by (simp add: assert_allowed_def)

lemma rejectedI:
  assumes "normalized_name_and_arguments (map normalize args) = Some (name, rest)" and "tested_policy name = Some p"
    and "validate p rest = Err reason" and "contains part reason"
  shows "assert_rejected args part"
proof -
  from assms(4) have "contains part (message (Reject name reason))"
    unfolding contains_iff message.simps by (metis append_assoc)
  with classify_tested [OF assms(1,2)] assms(3) show ?thesis by (simp add: assert_rejected_def rejects_def)
qed

lemma off_the_allowlistI:
  assumes "normalized_name_and_arguments (map normalize args) = Some (name, rest)" and "name \<notin> set allowlist"
  shows "off_the_allowlist args"
proof -
  have "contains ''explicit safe-command allowlist'' (message (Reject name not_allowlisted))"
    unfolding contains_iff
    by (intro exI [of _ "''ERR '' @ name @ '' is not permitted by the Ferrite public playground policy: the command is not on the ''"]
        exI [of _ "[]"]) (simp add: not_allowlisted_def)
  with classify_normalized_not_listed [OF assms] show ?thesis
    by (simp add: off_the_allowlist_def assert_rejected_def rejects_def classify_arguments_def)
qed

lemmas named_eval = normalized_name_and_arguments_def normalize_eval
lemmas tested_eval = tested_policy_def tested_policies_def
lemmas validate_eval = number_eval option_eval validator_defs
lemmas allowlist_eval = allowlist_def [unfolded POLICIES_eval, simplified]

lemma safe_commands_hold: allows_safe_bounded_data_and_introspection_commands
  unfolding allows_safe_bounded_data_and_introspection_commands_def list.pred_inject
  by (intro conjI list.pred_inject(1); (rule allowedI, simp add: named_eval, simp add: tested_eval, simp add: validate_eval))

lemma unlisted_commands_hold: rejects_every_command_not_explicitly_allowlisted
  unfolding rejects_every_command_not_explicitly_allowlisted_def list.pred_inject
  by (intro conjI list.pred_inject(1); (rule off_the_allowlistI, simp add: named_eval, simp add: allowlist_eval))

lemma range_tests_hold: rejects_unbounded_or_oversized_ranges
  unfolding rejects_unbounded_or_oversized_ranges_def list.pred_inject
  by (intro conjI list.pred_inject(1);
      (rule rejectedI, simp add: named_eval, simp add: tested_eval, simp add: validate_eval, simp add: show_nat.simps))

lemma stream_tests_hold: requires_bounded_stream_ranges
  unfolding requires_bounded_stream_ranges_def list.pred_inject
  by (intro conjI list.pred_inject(1);
      (rule rejectedI, simp add: named_eval, simp add: tested_eval, simp add: validate_eval, simp add: show_nat.simps))

lemma crash_tests_hold: rejects_arguments_that_can_crash_or_exhaust_the_child
  unfolding rejects_arguments_that_can_crash_or_exhaust_the_child_def list.pred_inject prod.case
  by (intro conjI list.pred_inject(1);
      (rule rejectedI, simp add: named_eval, simp add: tested_eval, simp add: validate_eval, simp add: show_nat.simps))

lemma normalization_holds: applies_root_subcommand_and_dotted_normalization_consistently
  unfolding applies_root_subcommand_and_dotted_normalization_consistently_def list.pred_inject
  by (intro conjI list.pred_inject(1);
      (rule allowedI, simp add: named_eval, simp add: tested_eval, simp add: validate_eval |
       rule off_the_allowlistI, simp add: named_eval, simp add: allowlist_eval))

lemma removed_commands_hold: removed_scan_and_stream_read_commands_cannot_bypass_the_allowlist
  unfolding removed_scan_and_stream_read_commands_cannot_bypass_the_allowlist_def list.pred_inject
  by (intro conjI list.pred_inject(1); (rule off_the_allowlistI, simp add: named_eval, simp add: allowlist_eval))

lemma repeated_eval:
  "repeated 0 items = []" "repeated (Suc n) items = items @ repeated n items"
  "repeated (numeral k) items = items @ repeated (pred_numeral k) items"
  by (simp_all add: repeated_def numeral_eq_Suc)

lemma multi_item_tests_hold: bounds_multi_item_commands
proof -
  have count: "show_nat MAX_MULTI_ITEMS = ''32''" by (simp add: show_nat.simps limits)
  have "assert_rejected (''MGET'' # repeated (MAX_MULTI_ITEMS + 1) [''key'']) ''32''"
    "assert_rejected ([''HMGET'', ''hash''] @ repeated (MAX_MULTI_ITEMS + 1) [''field'']) ''32''"
    "assert_rejected (''MSET'' # repeated (MAX_MULTI_ITEMS + 1) [''key'', ''value'']) ''32''"
    "assert_rejected (([''ZADD'', ''zset''] @ repeated MAX_MULTI_ITEMS [''1'', ''member'']) @ [''1'', ''member'']) ''32''"
    "assert_rejected (([''XADD'', ''stream'', ''*''] @ repeated MAX_MULTI_ITEMS [''field'', ''value'']) @ [''field'', ''value'']) ''32''"
    unfolding MAX_MULTI_ITEMS_def
    by (rule rejectedI, simp add: named_eval repeated_eval, simp add: tested_eval, simp add: validate_eval,
        simp add: show_nat.simps)+
  moreover have "assert_allowed ([''ZADD'', ''zset''] @ repeated MAX_MULTI_ITEMS [''1'', ''member''])"
    "assert_allowed ([''XADD'', ''stream'', ''*''] @ repeated MAX_MULTI_ITEMS [''field'', ''value''])"
    unfolding MAX_MULTI_ITEMS_def
    by (rule allowedI, simp add: named_eval repeated_eval, simp add: tested_eval, simp add: validate_eval)+
  ultimately show ?thesis
    unfolding bounds_multi_item_commands_def Let_def count by blast
qed

lemma binary_tests_hold: binary_policy_matches_text_policy_and_preserves_binary_safe_data
proof -
  have bad: "\<not> valid_utf8 [CHR 0xFF, CHR 0xFE]"
    by (simp add: valid_utf8_def utf8_chunks.simps utf8_scan_def char_width_def)
  have "policy [''SET'', ''SETNX''] [''SET'', ''key'', ''value''] (between 2 8) \<in> set POLICIES"
    using tested_policies_listed by (auto simp: tested_policies_def)
  then have "classify_bytes_arguments [''SET'', [CHR 0xFF, CHR 0xFE], [CHR 0x80, CHR 0x81]] = Allow"
    by (rule allowed_by_policy) (simp_all add: normalize_eval validator_defs)
  then show ?thesis
    using bad entry_points_agree [of "[''XRANGE'', ''stream'', ''-'', ''+'']"]
    by (simp add: binary_policy_matches_text_policy_and_preserves_binary_safe_data_def assert_rejected_bytes_def
      rejects_def classify_bytes_arguments_def)
qed

lemma message_tests_hold: rejection_messages_name_the_policy_and_reason
proof -
  have s: "classify_arguments [''SHUTDOWN''] = Reject ''SHUTDOWN'' not_allowlisted"
    unfolding classify_arguments_def
    by (rule classify_normalized_not_listed, simp add: named_eval, simp add: allowlist_eval)
  have "assert_rejected [''LRANGE'', ''list'', ''0'', ''-1''] ''unbounded''"
    by (rule rejectedI, simp add: named_eval, simp add: tested_eval, simp add: validate_eval, simp)
  then show ?thesis
    by (simp add: rejection_messages_name_the_policy_and_reason_def s not_allowlisted_def assert_rejected_def rejects_def)
qed

end
