(* ===== verification/Policy_Rules.thy ===== *)
theory Policy_Rules
  imports Policy_Bounds
begin

text \<open>
  What single entries of the allowlist accept: the option grammar of \<open>COPY\<close>, the window of
  \<open>SETBIT\<close>, generated stream identifiers, the pairs of \<open>ZADD\<close>, and the \<open>LIMIT\<close> clause of the
  sorted ranges with the spelling that slips past it.
\<close>

section \<open>\<open>COPY\<close>\<close>

text \<open>The grammar the documentation of the command gives: each option at most once, in any order.\<close>

definition database_ok :: "rstring \<Rightarrow> bool" where
  "database_ok d \<longleftrightarrow> (\<exists>n. parse_u64_str d = Ok n \<and> n \<le> 15)"

definition copy_grammar :: "rstring list \<Rightarrow> bool" where
  "copy_grammar options \<longleftrightarrow>
     options = [] \<or> options = [''REPLACE''] \<or>
     (\<exists>d. database_ok d \<and>
        options \<in> {[''DB'', d], [''DB'', d, ''REPLACE''], [''REPLACE'', ''DB'', d]})"

lemma database_ok_keyword: "\<not> database_ok ''REPLACE''" "\<not> database_ok ''DB''"
  by (simp_all add: database_ok_def parse_u64_str_def digit_val_def)

lemma list_of_length_5: "length xs \<le> 5 \<Longrightarrow> 2 \<le> length xs \<Longrightarrow>
   (\<exists>a b. xs = [a, b]) \<or> (\<exists>a b c. xs = [a, b, c]) \<or> (\<exists>a b c d. xs = [a, b, c, d]) \<or>
   (\<exists>a b c d e. xs = [a, b, c, d, e])"
  by (cases xs; cases "tl xs"; cases "tl (tl xs)"; cases "tl (tl (tl xs))"; cases "tl (tl (tl (tl xs)))";
      cases "tl (tl (tl (tl (tl xs))))") auto

text \<open>One step of the option loop, on the options that are left.\<close>

fun copy_rest :: "rstring list \<Rightarrow> bool \<Rightarrow> bool \<Rightarrow> bool" where
  "copy_rest [] saw_db saw_replace = True"
| "copy_rest (option # rest) saw_db saw_replace =
     (if option = ''DB'' \<and> \<not> saw_db then
        (case rest of [] \<Rightarrow> False | d # rest' \<Rightarrow> database_ok d \<and> copy_rest rest' True saw_replace)
      else option = ''REPLACE'' \<and> \<not> saw_replace \<and> copy_rest rest saw_db True)"

lemma copy_options_rest:
  "copy_options args index saw_db saw_replace = Ok () \<longleftrightarrow> copy_rest (drop index args) saw_db saw_replace"
proof (induction args index saw_db saw_replace rule: copy_options.induct)
  case (1 args index saw_db saw_replace)
  have unfold: "copy_options args index saw_db saw_replace =
     (if index < length args then
        (if args ! index = ''DB'' \<and> \<not> saw_db then
           and_then (ok_or ''DB requires a destination database'' (get args (index + 1))) (\<lambda>database.
           and_then (parse_u64 database ''destination database'') (\<lambda>database.
             if database > MAX_DATABASE
             then Err (''destination database must be at most '' @ show_nat MAX_DATABASE)
             else copy_options args (index + 2) True saw_replace))
         else if args ! index = ''REPLACE'' \<and> \<not> saw_replace then
           copy_options args (index + 1) saw_db True
         else if args ! index = ''DB'' \<or> args ! index = ''REPLACE'' then
           Err (args ! index @ '' may be specified only once'')
         else Err (''unsupported COPY option '' @ args ! index))
      else Ok ())"
    by (simp only: copy_options.simps [of args index saw_db saw_replace] Let_def)
  show ?case
  proof (cases "index < length args")
    case False
    with unfold show ?thesis by simp
  next
    case True
    then have d1: "drop index args = args ! index # drop (Suc index) args" by (rule Cons_nth_drop_Suc [symmetric])
    show ?thesis
    proof (cases "args ! index = ''DB'' \<and> \<not> saw_db")
      case db: True
      show ?thesis
      proof (cases "Suc index < length args")
        case False
        with db True d1 unfold show ?thesis by (simp add: get_def)
      next
        case more: True
        then have d2: "drop (Suc index) args = args ! Suc index # drop (Suc (Suc index)) args"
          by (rule Cons_nth_drop_Suc [symmetric])
        have get1: "get args (index + 1) = Some (args ! Suc index)" using more by simp
        have ih: "copy_options args (index + 2) True saw_replace = Ok () \<longleftrightarrow>
              copy_rest (drop (index + 2) args) True saw_replace" if "n \<le> MAX_DATABASE" for n
          using "1.IH"(1) [OF True refl db, of n] that by simp
        have "copy_options args index saw_db saw_replace = Ok () \<longleftrightarrow>
              (\<exists>n. parse_u64_str (args ! Suc index) = Ok n \<and> n \<le> MAX_DATABASE \<and>
                   copy_options args (index + 2) True saw_replace = Ok ())"
          unfolding unfold get1 using True db
          by (cases "parse_u64_str (args ! Suc index)") (simp_all add: parse_u64_def)
        also have "\<dots> \<longleftrightarrow> database_ok (args ! Suc index) \<and> copy_rest (drop (index + 2) args) True saw_replace"
          unfolding database_ok_def using ih by (auto simp: MAX_DATABASE_def)
        also have "\<dots> \<longleftrightarrow> copy_rest (drop index args) saw_db saw_replace"
          unfolding d1 d2 using db by simp
        finally show ?thesis .
      qed
    next
      case False
      show ?thesis
      proof (cases "args ! index = ''REPLACE'' \<and> \<not> saw_replace")
        case replace: True
        with "1.IH"(2) [OF True refl False] have
          "copy_options args (index + 1) saw_db True = Ok () \<longleftrightarrow> copy_rest (drop (index + 1) args) saw_db True"
          by simp
        with replace show ?thesis unfolding unfold d1 using True by simp
      next
        case other: False
        have "copy_options args index saw_db saw_replace \<noteq> Ok ()"
          unfolding unfold using True False other by auto
        moreover have "\<not> copy_rest (drop index args) saw_db saw_replace"
          unfolding d1 using False other by auto
        ultimately show ?thesis by simp
      qed
    qed
  qed
qed

text \<open>\<open>COPY\<close> is allowed exactly with a source, a destination and, each at most once and in any
  order, \<open>REPLACE\<close> and \<open>DB n\<close> with \<open>n\<close> at most 15.\<close>

theorem copy_accepts_iff:
  "copy args = Ok () \<longleftrightarrow>
     (\<exists>source destination options. args = source # destination # options \<and> copy_grammar options)"
proof
  assume "copy args = Ok ()"
  then have len: "2 \<le> length args" "length args \<le> 5" and rest: "copy_rest (drop 2 args) False False"
    by (auto simp: copy_def copy_options_rest)
  from list_of_length_5 [OF len(2,1)] rest
  show "\<exists>source destination options. args = source # destination # options \<and> copy_grammar options"
    by (auto simp: copy_grammar_def database_ok_keyword split: if_splits)
next
  assume "\<exists>source destination options. args = source # destination # options \<and> copy_grammar options"
  then show "copy args = Ok ()"
    by (auto simp: copy_def copy_options_rest copy_grammar_def)
qed

section \<open>\<open>SETBIT\<close>, \<open>XADD\<close> and \<open>ZADD\<close>\<close>

text \<open>An allowed \<open>SETBIT\<close> can never grow a string beyond 64 KiB: the byte it addresses lies below
  that bound, and the bit it writes is 0 or 1.\<close>

theorem setbit_window:
  assumes "setbit args = Ok ()"
  shows "\<exists>key offset bit n. args = [key, offset, bit] \<and> parse_u64_str offset = Ok n \<and>
           n div 8 < MAX_STRING_RANGE \<and> bit \<in> {''0'', ''1''}"
proof -
  from assms have "length args = 3" by (auto simp: setbit_def)
  then obtain key offset bit where args: "args = [key, offset, bit]"
    by (auto simp: length_Suc_conv numeral_3_eq_3)
  with assms obtain n where "parse_u64_str offset = Ok n" and "n \<le> MAX_BIT_OFFSET" and "bit \<in> {''0'', ''1''}"
    by (auto simp: setbit_def bounded_bit_offset_def parse_u64_def split: if_splits)
  moreover from this have "n div 8 < MAX_STRING_RANGE" by (simp add: limits)
  ultimately show ?thesis using args by blast
qed

theorem setbit_window_witness:
  "\<exists>key offset bit n. [''k'', ''524287'', ''1''] = [key, offset, bit] \<and> parse_u64_str offset = Ok n \<and>
     n div 8 < MAX_STRING_RANGE \<and> bit \<in> {''0'', ''1''}"
  by (rule setbit_window) (simp add: setbit_def number_eval)

lemma trim_spec_advances: "validate_stream_trim_spec args start = Ok index \<Longrightarrow> start < index"
  by (auto simp: validate_stream_trim_spec_def Let_def split: if_split_asm)

lemma parse_scores_hd: "parse_scores (score # rest) = Ok () \<Longrightarrow> parse_score score = Ok ()"
  by (cases rest) auto

lemma flag_no_score:
  assumes "flag \<in> set zadd_flags"
  shows "parse_score flag \<noteq> Ok ()"
proof -
  have "list_all (\<lambda>flag. parse_score flag \<noteq> Ok ()) zadd_flags" by code_simp
  with assms show ?thesis by (simp add: list_all_iff)
qed

text \<open>An allowed \<open>XADD\<close> lets the server generate the entry identifier: whatever stream options
  come first, the identifier is \<open>*\<close> and is followed by one to 32 complete field/value pairs.\<close>

theorem xadd_generated_id:
  assumes "xadd args = Ok ()"
  shows "\<exists>key options pairs. args = key # options @ ''*'' # pairs \<and> length options \<le> 6 \<and>
           pairs \<noteq> [] \<and> even (length pairs) \<and> length pairs div 2 \<le> MAX_MULTI_ITEMS"
proof -
  let ?index1 = "if get args 1 = Some ''NOMKSTREAM'' then 2 else 1 :: nat"
  from assms obtain index
    where start: "(if get args ?index1 = Some ''MAXLEN'' \<or> get args ?index1 = Some ''MINID''
                   then validate_stream_trim_spec args ?index1 else Ok ?index1) = Ok index"
      and id: "index < length args" "validate_xadd_id (args ! index) = Ok ()"
      and pairs: "drop (index + 1) args \<noteq> []" "even (length (drop (index + 1) args))"
        "length (drop (index + 1) args) div 2 \<le> MAX_MULTI_ITEMS"
    unfolding xadd_def Let_def
    by (simp only: and_then_Ok_iff ok_or_Ok_iff get_Some_iff split: if_split_asm) fastforce+
  have "index \<le> 7" and "1 \<le> index"
    using start trim_spec_Ok [of args ?index1 index] trim_spec_advances [of args ?index1 index]
    by (simp_all split: if_split_asm)
  have star: "args ! index = ''*''" using id(2) by (simp add: validate_xadd_id_def split: if_split_asm)
  have "args = take index args @ args ! index # drop (index + 1) args"
    using id(1) by (simp add: id_take_nth_drop)
  moreover have "take index args = hd args # tl (take index args)"
    using id(1) \<open>1 \<le> index\<close> by (cases args; cases index) simp_all
  ultimately have "args = hd args # tl (take index args) @ ''*'' # drop (index + 1) args"
    unfolding star by (metis append_Cons)
  moreover have "length (tl (take index args)) \<le> 6" using \<open>index \<le> 7\<close> by simp
  ultimately show ?thesis using pairs by blast
qed

theorem xadd_generated_id_witness:
  "\<exists>key options pairs. [''s'', ''MAXLEN'', ''~'', ''10'', ''*'', ''f'', ''v''] = key # options @ ''*'' # pairs \<and>
     length options \<le> 6 \<and> pairs \<noteq> [] \<and> even (length pairs) \<and> length pairs div 2 \<le> MAX_MULTI_ITEMS"
  by (rule xadd_generated_id) (simp add: xadd_def option_eval number_eval)

lemma ex_list_split: "(\<exists>xs. P xs) \<longleftrightarrow> P [] \<or> (\<exists>x xs. P (x # xs))"
  by (metis neq_Nil_conv)

lemma zadd_options_iff:
  assumes "index \<le> length args"
  shows "zadd_options args index options = Ok (index', options') \<longleftrightarrow>
    (\<exists>flags. drop index args = flags @ drop index' args \<and> options' = options @ flags \<and>
       index' = index + length flags \<and> set flags \<subseteq> set zadd_flags \<and> distinct flags \<and>
       set flags \<inter> set options = {} \<and> (drop index' args = [] \<or> hd (drop index' args) \<notin> set zadd_flags))"
  using assms
proof (induction args index options rule: zadd_options.induct)
  case (1 args index options)
  have unfold: "zadd_options args index options =
     (if index < length args then
        (if args ! index \<notin> set zadd_flags then Ok (index, options)
         else if args ! index \<in> set options then Err (args ! index @ '' may be specified only once'')
         else zadd_options args (index + 1) (options @ [args ! index]))
      else Ok (index, options))"
    by (simp only: zadd_options.simps [of args index options] Let_def)
  show ?case (is "?l \<longleftrightarrow> (\<exists>flags. ?r flags)")
  proof (cases "index < length args")
    case False
    then have "zadd_options args index options = Ok (index, options)" by (simp add: unfold)
    moreover have "drop index args = []" using False by simp
    ultimately show ?thesis using False "1.prems" by auto
  next
    case True
    then have d: "drop index args = args ! index # drop (index + 1) args"
      by (simp add: Cons_nth_drop_Suc)
    have nil: "?r [] \<longleftrightarrow> index' = index \<and> options' = options \<and> args ! index \<notin> set zadd_flags"
      using True by (auto simp: d)
    have cons: "?r (f # flags) \<longleftrightarrow> f = args ! index \<and> f \<in> set zadd_flags \<and> f \<notin> set options \<and>
        drop (index + 1) args = flags @ drop index' args \<and> options' = (options @ [args ! index]) @ flags \<and>
        index' = index + 1 + length flags \<and> set flags \<subseteq> set zadd_flags \<and> distinct flags \<and>
        set flags \<inter> set (options @ [args ! index]) = {} \<and>
        (drop index' args = [] \<or> hd (drop index' args) \<notin> set zadd_flags)" for f flags
      unfolding d by auto
    have split: "(\<exists>flags. ?r flags) \<longleftrightarrow> ?r [] \<or> (\<exists>f flags. ?r (f # flags))"
      by (rule ex_list_split)
    consider "args ! index \<notin> set zadd_flags" | "args ! index \<in> set zadd_flags" "args ! index \<in> set options"
      | (more) "args ! index \<in> set zadd_flags" "args ! index \<notin> set options" by blast
    then show ?thesis
    proof cases
      case more
      then have "zadd_options args index options = zadd_options args (index + 1) (options @ [args ! index])"
        using True by (simp add: unfold)
      moreover have "\<not> args ! index \<notin> set zadd_flags" using more by simp
      then have "zadd_options args (index + 1) (options @ [args ! index]) = Ok (index', options') \<longleftrightarrow>
          (\<exists>flags. drop (index + 1) args = flags @ drop index' args \<and> options' = (options @ [args ! index]) @ flags \<and>
             index' = index + 1 + length flags \<and> set flags \<subseteq> set zadd_flags \<and> distinct flags \<and>
             set flags \<inter> set (options @ [args ! index]) = {} \<and>
             (drop index' args = [] \<or> hd (drop index' args) \<notin> set zadd_flags))"
        using True more by (intro "1.IH" [OF True refl]) simp_all
      ultimately show ?thesis
        unfolding split nil cons using more by simp
    qed (unfold split nil cons unfold, use True in auto)
  qed
qed

text \<open>\<open>ZADD\<close> is allowed exactly with a key, distinct options of the six known ones, and one to 32
  score/member pairs whose scores are numbers other than NaN, a single pair with \<open>INCR\<close>.\<close>

theorem zadd_accepts_iff:
  "zadd args = Ok () \<longleftrightarrow>
     (\<exists>key flags pairs. args = key # flags @ pairs \<and> set flags \<subseteq> set zadd_flags \<and> distinct flags \<and>
        pairs \<noteq> [] \<and> even (length pairs) \<and> length pairs div 2 \<le> MAX_MULTI_ITEMS \<and>
        parse_scores pairs = Ok () \<and> (''INCR'' \<in> set flags \<longrightarrow> length pairs = 2))"
proof
  assume ok: "zadd args = Ok ()"
  then have "\<not> length args < 3" by (auto simp: zadd_def)
  with ok obtain index flags where opts: "zadd_options args 1 [] = Ok (index, flags)"
    and pairs: "drop index args \<noteq> []" "even (length (drop index args))"
      "length (drop index args) div 2 \<le> MAX_MULTI_ITEMS" "parse_scores (drop index args) = Ok ()"
      "''INCR'' \<in> set flags \<longrightarrow> length (drop index args) = 2"
    by (auto simp: zadd_def Let_def split: if_split_asm)
  from opts \<open>\<not> length args < 3\<close> have "drop 1 args = flags @ drop index args"
    and "set flags \<subseteq> set zadd_flags" and "distinct flags"
    by (simp_all add: zadd_options_iff)
  moreover from this \<open>\<not> length args < 3\<close> have "args = hd args # flags @ drop index args"
    by (cases args) simp_all
  ultimately show "\<exists>key flags pairs. args = key # flags @ pairs \<and> set flags \<subseteq> set zadd_flags \<and> distinct flags \<and>
        pairs \<noteq> [] \<and> even (length pairs) \<and> length pairs div 2 \<le> MAX_MULTI_ITEMS \<and>
        parse_scores pairs = Ok () \<and> (''INCR'' \<in> set flags \<longrightarrow> length pairs = 2)"
    using pairs by blast
next
  assume "\<exists>key flags pairs. args = key # flags @ pairs \<and> set flags \<subseteq> set zadd_flags \<and> distinct flags \<and>
        pairs \<noteq> [] \<and> even (length pairs) \<and> length pairs div 2 \<le> MAX_MULTI_ITEMS \<and>
        parse_scores pairs = Ok () \<and> (''INCR'' \<in> set flags \<longrightarrow> length pairs = 2)"
  then obtain key flags pairs where args: "args = key # flags @ pairs"
    and flags: "set flags \<subseteq> set zadd_flags" "distinct flags" and pairs: "pairs \<noteq> []" "even (length pairs)"
      "length pairs div 2 \<le> MAX_MULTI_ITEMS" "parse_scores pairs = Ok ()"
      "''INCR'' \<in> set flags \<longrightarrow> length pairs = 2"
    by blast
  have "hd pairs \<notin> set zadd_flags"
    using pairs(1,4) by (intro notI) (auto simp: neq_Nil_conv flag_no_score dest!: parse_scores_hd)
  then have opts: "zadd_options args 1 [] = Ok (1 + length flags, flags)"
    using flags by (simp add: zadd_options_iff args)
  have "2 \<le> length pairs" using pairs(1,2) by (cases pairs; cases "tl pairs") auto
  then have long: "\<not> length args < 3" by (simp add: args)
  have drop: "drop (1 + length flags) args = pairs" by (simp add: args)
  show "zadd args = Ok ()"
    unfolding zadd_def opts and_then.simps prod.case Let_def drop using long pairs by simp
qed

theorem zadd_accepts_iff_witness: "zadd [''z'', ''CH'', ''NX'', ''1'', ''a'', ''2'', ''b''] = Ok ()"
proof -
  have "parse_scores [''1'', ''a'', ''2'', ''b''] = Ok ()"
    by (simp add: parse_score_def parse_f64_def parse_decimal_def number_eval limits)
  then show ?thesis
    unfolding zadd_accepts_iff
    by (intro exI [of _ "''z''"] exI [of _ "[''CH'', ''NX'']"] exI [of _ "[''1'', ''a'', ''2'', ''b'']"])
      (simp add: zadd_flags_def limits)
qed

section \<open>The \<open>LIMIT\<close> of the sorted ranges\<close>

lemma position_Some:
  "position P xs = Some i \<Longrightarrow> i < length xs \<and> P (xs ! i) \<and> (\<forall>j < i. \<not> P (xs ! j))"
proof (induction xs arbitrary: i)
  case (Cons x xs)
  then show ?case by (auto simp: less_Suc_eq_0_disj split: if_split_asm)
qed simp

lemma nth_three: "i < 3 \<Longrightarrow> (a # b # c # rest) ! i \<in> {a, b, c}" for i :: nat
  by (cases i; cases "i - 1"; cases "i - 2") auto

text \<open>When neither the key nor a bound of the range is spelled \<open>LIMIT\<close>, an allowed by-score or by-lex
  range carries a \<open>LIMIT\<close> clause after them whose count lies between 1 and 100.\<close>

theorem sorted_range_limit_bounded:
  assumes "limited_sorted_range (key # lo # hi # rest) = Ok ()" and "''LIMIT'' \<notin> {key, lo, hi}"
  shows "\<exists>before offset count after n. rest = before @ [''LIMIT'', offset, count] @ after \<and>
           parse_u64_str count = Ok n \<and> 1 \<le> n \<and> n \<le> MAX_COLLECTION_PAGE"
proof -
  let ?args = "key # lo # hi # rest"
  from assms(1) obtain i where pos: "position (\<lambda>argument. argument = ''LIMIT'') ?args = Some i"
    and i2: "i + 2 < length ?args" and count: "bounded_positive_count (?args ! (i + 2)) = Ok ()"
    by (auto simp: limited_sorted_range_def simp del: position.simps nth_Cons_Suc)
  from position_Some [OF pos] have found: "?args ! i = ''LIMIT''" by simp
  with assms(2) nth_three [of i key lo hi rest] have "\<not> i < 3" by auto
  then have "3 \<le> i" by simp
  have shift: "?args ! (3 + j) = rest ! j" for j by (simp add: numeral_3_eq_3)
  from \<open>3 \<le> i\<close> obtain j where i: "i = 3 + j" by (auto simp: le_iff_add)
  have "j + 2 < length rest" using i2 i by simp
  then have "rest = take j rest @ rest ! j # rest ! (j + 1) # rest ! (j + 2) # drop (j + 3) rest"
    by (simp add: Cons_nth_drop_Suc numeral_3_eq_3 numeral_2_eq_2)
  moreover have "rest ! j = ''LIMIT''" using found unfolding i shift .
  ultimately have "rest = take j rest @ [''LIMIT'', rest ! (j + 1), rest ! (j + 2)] @ drop (j + 3) rest" by simp
  moreover have "bounded_positive_count (rest ! (j + 2)) = Ok ()"
    using count shift [of "j + 2"] unfolding i by (simp add: add.assoc)
  then obtain n where "parse_u64_str (rest ! (j + 2)) = Ok n" "1 \<le> n" "n \<le> MAX_COLLECTION_PAGE"
    by (auto simp: bounded_positive_count_def parse_u64_def split: if_split_asm)
  ultimately show ?thesis by blast
qed

theorem sorted_range_limit_bounded_witness:
  "\<exists>before offset count after n. [''LIMIT'', ''5'', ''100''] = before @ [''LIMIT'', offset, count] @ after \<and>
     parse_u64_str count = Ok n \<and> 1 \<le> n \<and> n \<le> MAX_COLLECTION_PAGE"
  by (rule sorted_range_limit_bounded [of "''zset''" "''-INF''" "''+INF''"])
    (simp_all add: limited_sorted_range_def number_eval get_def)

text \<open>C37: the guard of the previous property is needed: the first argument spelled \<open>LIMIT\<close> is taken for the
  keyword, so that a by-score range over a key named \<open>limit\<close> is allowed with every count, a
  count beyond the bound or no number at all included.\<close>

theorem sorted_range_limit_key_bypass:
  "classify_arguments [''ZRANGEBYSCORE'', ''limit'', ''0'', ''100'', ''LIMIT'', ''0'', count] = Allow"
proof -
  let ?args = "[''ZRANGEBYSCORE'', ''limit'', ''0'', ''100'', ''LIMIT'', ''0'', count]"
  define p where "p = policy [''ZRANGEBYLEX'', ''ZRANGEBYSCORE'', ''ZREVRANGEBYLEX'', ''ZREVRANGEBYSCORE'']
     [''ZRANGEBYSCORE'', ''zset'', ''-inf'', ''+inf'', ''LIMIT'', ''0'', ''100''] limited_sorted_range"
  have "p \<in> set POLICIES" unfolding POLICIES_eval p_def set_simps by (simp only: insert_iff simp_thms)
  moreover have "map normalize ?args =
      [''ZRANGEBYSCORE'', ''LIMIT'', ''0'', ''100'', ''LIMIT'', ''0'', normalize count]"
    by (simp add: normalize_eval)
  then have "accepts p ?args"
    by (simp add: p_def accepts_def normalized_name_and_arguments_def limited_sorted_range_def number_eval get_def)
  ultimately show ?thesis by (rule accepts_imp_allowed)
qed

end
