(* ===== verification/Resp_Roundtrip.thy ===== *)
theory Resp_Roundtrip
  imports Resp_Decode
begin

text \<open>
  What decoding and encoding promise to each other: a well-formed value survives the round trip
  and is charged exactly its size; a decoded value is well-formed, lies within every limit and was
  paid for byte by byte, so that forwarding it again costs no more than reading it did.
\<close>

section \<open>Shape of a value\<close>

definition flat :: "('a \<times> 'a) list \<Rightarrow> 'a list" where
  "flat es = concat (map (\<lambda>(k, v). [k, v]) es)"

lemma flat_simps [simp]:
  "flat [] = []" "flat ((k, v) # es) = k # v # flat es" "length (flat es) = 2 * length es"
  "flat (es @ fs) = flat es @ flat fs"
  by (simp_all add: flat_def length_concat o_def case_prod_beta sum_list_triv)

fun children :: "RespValue \<Rightarrow> RespValue list" where
  "children (Array (Some vs)) = vs"
| "children (Set vs) = vs"
| "children (Push vs) = vs"
| "children (Map es) = flat es"
| "children _ = []"

lemma child_size: "c \<in> set (children v) \<Longrightarrow> size c < size v"
proof (cases v rule: children.cases)
  case (4 es)
  assume "c \<in> set (children v)"
  with 4 obtain k w where "(k, w) \<in> set es" and "c = k \<or> c = w" by (auto simp: flat_def)
  then have "size c \<le> size_prod size size (k, w)" by auto
  also have "\<dots> < Suc (size_list (size_prod size size) es)"
    using \<open>(k, w) \<in> set es\<close> by (simp add: less_Suc_eq_le size_list_estimation')
  finally show "size c < size v" by (simp add: 4)
qed (auto simp: less_Suc_eq_le size_list_estimation' intro: le_SucI)

text \<open>The number of values, of announced children, and the nesting below a value.\<close>

function nodes :: "RespValue \<Rightarrow> nat" where
  "nodes v = 1 + sum_list (map nodes (children v))"
  by pat_completeness auto
termination by (relation "measure size") (simp_all add: child_size)

function elements :: "RespValue \<Rightarrow> nat" where
  "elements v = length (children v) + sum_list (map elements (children v))"
  by pat_completeness auto
termination by (relation "measure size") (simp_all add: child_size)

function height :: "RespValue \<Rightarrow> nat" where
  "height v = foldr max (map (\<lambda>c. Suc (height c)) (children v)) 0"
  by pat_completeness auto
termination by (relation "measure size") (simp_all add: child_size)

function all_values :: "(RespValue \<Rightarrow> bool) \<Rightarrow> RespValue \<Rightarrow> bool" where
  "all_values P v \<longleftrightarrow> P v \<and> list_all (all_values P) (children v)"
  by pat_completeness auto
termination by (relation "measure (\<lambda>(P, v). size v)") (simp_all add: child_size)

declare nodes.simps [simp del] elements.simps [simp del] height.simps [simp del] all_values.simps [simp del]

lemma foldr_max_le: "foldr max ns 0 \<le> k \<longleftrightarrow> (\<forall>n \<in> set ns. n \<le> k)" for k :: nat
  by (induction ns) auto

lemma height_le_iff: "height v \<le> k \<longleftrightarrow> (\<forall>c \<in> set (children v). Suc (height c) \<le> k)"
  by (simp add: height.simps [of v] foldr_max_le)

text \<open>What the protocol and the limits demand of one value, its children aside.\<close>

definition text_line :: "rstring \<Rightarrow> bool" where
  "text_line s \<longleftrightarrow> valid_utf8 s \<and> LF \<notin> set s"

fun admissible :: "RespValue \<Rightarrow> bool" where
  "admissible (Simple s) = text_line s"
| "admissible (Error e) = text_line e"
| "admissible (Integer i) = in_i64 i"
| "admissible (Bulk (Some data)) = (length data \<le> MAX_RESP_BULK_LENGTH)"
| "admissible (Array (Some vs)) = (length vs \<le> MAX_RESP_ARRAY_LENGTH)"
| "admissible (Double s) = text_line s"
| "admissible (BigNumber s) = text_line s"
| "admissible (BlobError data) = (length data \<le> MAX_RESP_BULK_LENGTH)"
| "admissible (Verbatim data) = (length data \<le> MAX_RESP_BULK_LENGTH)"
| "admissible (Map es) = (length es \<le> MAX_RESP_ARRAY_LENGTH)"
| "admissible (Set vs) = (length vs \<le> MAX_RESP_ARRAY_LENGTH)"
| "admissible (Push vs) = (length vs \<le> MAX_RESP_ARRAY_LENGTH)"
| "admissible _ = True"

abbreviation decodable :: "RespValue \<Rightarrow> bool" where
  "decodable \<equiv> all_values admissible"

fun is_error :: "RespValue \<Rightarrow> bool" where
  "is_error (Error _) = True"
| "is_error _ = False"

abbreviation error_free :: "RespValue \<Rightarrow> bool" where
  "error_free \<equiv> all_values (\<lambda>v. \<not> is_error v)"

lemma wires_append [simp]: "wires (vs @ ws) = wires vs @ wires ws"
  by (induction vs) simp_all

lemma wire_entries_flat: "wire_entries es = wires (flat es)"
  by (induction es) auto

section \<open>Reading one line and one payload\<close>

lemma as_usize_nat: "n \<le> MAX_RESP_BULK_LENGTH \<Longrightarrow> as_usize (int n) = n"
  by (simp add: as_usize_def limits)

lemma parse_number_show:
  "in_i64 i \<Longrightarrow> parse_number (show_int i) field = Ok i"
  by (simp add: parse_number_def parse_i64_show_int)

lemma parse_number_length:
  "n \<le> MAX_RESP_BULK_LENGTH \<Longrightarrow> parse_number (show_nat n) field = Ok (int n)"
  using parse_number_show [of "int n" field] by (simp add: show_int_of_nat in_i64_def limits)

lemma parse_number_null: "parse_number ''-1'' field = Ok (-1)"
  using parse_number_show [of "-1" field] by (simp add: in_i64_def limits show_int_def show_nat.simps)

lemma show_nat_no_lf: "LF \<notin> set (show_nat n)"
  using show_int_no_lf [of "int n"] by (simp only: show_int_of_nat) simp

lemma read_header_line:
  assumes "LF \<notin> set (prefix # payload)" and "small_limits b" and "affords (length payload + 3) 1 0 b"
  shows "read_header (s\<lparr>pending := line prefix payload @ rest\<rparr>) b =
           Ok (prefix, payload, s\<lparr>pending := rest\<rparr>, spend (length payload + 3) 1 0 b)"
proof -
  have "read_until LF (s\<lparr>pending := line prefix payload @ rest\<rparr>) =
        Ok (prefix # payload @ crlf, s\<lparr>pending := rest\<rparr>)"
    using assms(1) by (auto simp: line_def read_until_def)
  moreover have "consume_node b = Ok (spend 0 1 0 b)"
    using assms(2,3) by (simp add: consume_node_Ok affords_def)
  moreover have "consume_bytes (spend 0 1 0 b) (length payload + 3) = Ok (spend (length payload + 3) 1 0 b)"
    using assms(2,3) by (simp add: consume_bytes_Ok affords_def)
  moreover have "ends_with (prefix # payload @ crlf) crlf"
    using ends_with_append [of "prefix # payload" crlf] by simp
  moreover have "consume_bytes (spend 0 1 0 b) (length (prefix # payload @ crlf)) =
      Ok (spend (length payload + 3) 1 0 b)"
    using calculation(3) by (simp add: eval_nat_numeral)
  moreover have "take (length (prefix # payload @ crlf) - 2) (prefix # payload @ crlf) = prefix # payload"
    by simp
  ultimately show ?thesis
    unfolding read_header_def
    by (simp only: fallible_simps and_then.simps map_err.simps prod.case list.case list.distinct not_True_eq_False
        if_False)
qed

lemma read_payload_data:
  assumes "small_limits b" and "affords (length data + 2) 0 0 b"
  shows "read_payload kind (length data) (s\<lparr>pending := data @ crlf @ rest\<rparr>) b =
           Ok (data, s\<lparr>pending := rest\<rparr>, spend (length data + 2) 0 0 b)"
proof -
  have "consume_bytes b (length data + 2) = Ok (spend (length data + 2) 0 0 b)"
    using assms by (simp add: consume_bytes_Ok affords_def)
  moreover have "read_exact (length data + 2) (s\<lparr>pending := data @ crlf @ rest\<rparr>) =
      Ok (data @ crlf, s\<lparr>pending := rest\<rparr>)"
    by (simp add: read_exact_def)
  ultimately show ?thesis by (simp add: read_payload_def)
qed

lemma read_header_Ok:
  assumes "read_header s b = Ok (prefix, payload, s', b')" and "small_limits b" and "within_limits b"
  shows "pending s = line prefix payload @ pending s' \<and> ending s' = ending s \<and> LF \<notin> set (prefix # payload) \<and>
         affords (length payload + 3) 1 0 b \<and> b' = spend (length payload + 3) 1 0 b"
proof -
  from assms(1) obtain b1 l s1 where node: "consume_node b = Ok b1"
    and until: "read_until LF s = Ok (l, s1)"
    and tail: "(if l = [] then Err (Fail ''Ferrite closed the connection without a response'')
       else if \<not> ends_with l crlf then Err (Fail ''RESP response line did not end with CRLF'')
       else and_then (fallible (consume_bytes b1 (length l))) (\<lambda>budget.
           case take (length l - 2) l of
             [] \<Rightarrow> Err (Fail ''received an empty RESP response line'')
           | prefix # payload \<Rightarrow> Ok (prefix, payload, s1, budget))) = Ok (prefix, payload, s', b')"
    unfolding read_header_def and_then_Ok_iff fallible_Ok_iff map_err_Ok_iff split_paired_Ex prod.case by blast
  from tail have l: "ends_with l crlf"
    by (simp split: if_split_asm)
  with tail obtain b2 where bytes: "consume_bytes b1 (length l) = Ok b2"
    and last: "(case take (length l - 2) l of [] \<Rightarrow> Err (Fail ''received an empty RESP response line'')
           | prefix # payload \<Rightarrow> Ok (prefix, payload, s1, b2)) = Ok (prefix, payload, s', b')"
    by (simp split: if_split_asm) blast
  from last have pp: "take (length l - 2) l = prefix # payload" and eqs: "s1 = s'" "b2 = b'"
    by (simp_all split: list.split_asm)
  have charged: "consume_node b = Ok (spend 0 1 0 b)" "consume_bytes (spend 0 1 0 b) (length l) = Ok b'"
    using node bytes assms(2) by (simp_all add: consume_node_Ok eqs)
  note until = until [unfolded eqs]
  have l_eq: "l = line prefix payload" using ends_with_crlfD [OF l] unfolding pp by (simp add: line_def)
  with until have found: "split_after LF (pending s) = Some (l, pending s') \<or> LF \<notin> set (pending s)"
    by (auto simp: read_until_def split_after_None split: option.splits)
  from read_until_Ok [OF until] have p: "pending s = l @ pending s'" and e: "ending s' = ending s" by simp_all
  have "LF \<in> set l" by (simp add: l_eq line_def)
  with found p have "split_after LF (pending s) = Some (l, pending s')" by auto
  then have "LF \<notin> set (butlast l)" by (auto dest: split_after_Some)
  moreover have "butlast l = prefix # payload @ [CR]" by (simp add: l_eq line_def butlast_append)
  ultimately have "LF \<notin> set (prefix # payload)" by simp
  moreover have "affords (length payload + 3) 1 0 b \<and> b' = spend (length payload + 3) 1 0 b"
    using charged assms(2,3) by (simp add: consume_node_Ok consume_bytes_Ok l_eq affords_def within_limits_def)
  ultimately show ?thesis using p e l_eq by simp
qed

lemma read_payload_Ok:
  assumes "read_payload kind n s b = Ok (data, s', b')" and "small_limits b" and "within_limits b"
  shows "pending s = data @ crlf @ pending s' \<and> ending s' = ending s \<and> length data = n \<and>
         affords (n + 2) 0 0 b \<and> b' = spend (n + 2) 0 0 b"
proof -
  from assms obtain d where exact: "read_exact (n + 2) s = Ok (d, s')" and d: "ends_with d crlf"
    and data: "data = take n d"
    and charged: "bytes_used b + (n + 2) \<le> byte_limit b" "b' = spend (n + 2) 0 0 b"
    by (auto simp: read_payload_def consume_bytes_Ok split: if_splits)
  from read_exact_Ok [OF exact] have "pending s = d @ pending s'" "ending s' = ending s" "length d = n + 2"
    by simp_all
  moreover from this have "d = data @ crlf" using ends_with_crlfD [OF d] unfolding data by simp
  ultimately show ?thesis using charged assms(3) by (simp add: affords_def within_limits_def)
qed

section \<open>Reading back what was written\<close>

lemma leaf_shape: "children v = [] \<Longrightarrow> nodes v = 1 \<and> elements v = 0 \<and> height v = 0"
  by (simp add: nodes.simps [of v] elements.simps [of v] height.simps [of v])

lemma decodable_iff: "decodable v \<longleftrightarrow> admissible v \<and> list_all decodable (children v)"
  by (rule all_values.simps)

definition reads_back :: "nat \<Rightarrow> RespValue \<Rightarrow> bool" where
  "reads_back d v \<longleftrightarrow> (\<forall>s b rest. small_limits b \<longrightarrow> affords (length (wire v)) (nodes v) (elements v) b \<longrightarrow>
     read_value d (s\<lparr>pending := wire v @ rest\<rparr>) b =
       Ok (v, s\<lparr>pending := rest\<rparr>, spend (length (wire v)) (nodes v) (elements v) b))"

lemma read_blob:
  assumes "prefix \<noteq> LF" and "small_limits b" and "affords (length (blob prefix data)) 1 0 b"
  shows "read_header (s\<lparr>pending := blob prefix data @ rest\<rparr>) b =
      Ok (prefix, show_nat (length data), s\<lparr>pending := data @ crlf @ rest\<rparr>,
          spend (length (show_nat (length data)) + 3) 1 0 b)"
    and "read_payload kind (length data) (s\<lparr>pending := data @ crlf @ rest\<rparr>)
      (spend (length (show_nat (length data)) + 3) 1 0 b) =
      Ok (data, s\<lparr>pending := rest\<rparr>, spend (length (blob prefix data)) 1 0 b)"
proof -
  let ?n = "show_nat (length data)"
  have total: "length ?n + 3 + (length data + 2) = length (blob prefix data)" by (simp add: length_blob)
  have "affords (length ?n + 3) 1 0 b"
    using assms(3) by (rule affords_mono) (simp_all add: length_blob)
  then show "read_header (s\<lparr>pending := blob prefix data @ rest\<rparr>) b =
      Ok (prefix, ?n, s\<lparr>pending := data @ crlf @ rest\<rparr>, spend (length ?n + 3) 1 0 b)"
    using read_header_line [where prefix = prefix and payload = ?n and b = b and s = s and rest = "data @ crlf @ rest"] assms(1,2)
    by (simp add: blob_def show_nat_no_lf)
  show "read_payload kind (length data) (s\<lparr>pending := data @ crlf @ rest\<rparr>) (spend (length ?n + 3) 1 0 b) =
      Ok (data, s\<lparr>pending := rest\<rparr>, spend (length (blob prefix data)) 1 0 b)"
    using read_payload_data [where b = "spend (length ?n + 3) 1 0 b" and data = data and kind = kind and s = s and rest = rest] assms(2,3)
    unfolding spend_simps total by simp
qed

lemma reads_back_blob:
  assumes "admissible v" and "d \<le> MAX_RESP_DEPTH" and "v \<in> {Bulk (Some data), BlobError data, Verbatim data}"
  shows "reads_back d v"
proof -
  have bound: "length data \<le> MAX_RESP_BULK_LENGTH" using assms(1,3) by auto
  have shape: "nodes v = 1" "elements v = 0" using leaf_shape [of v] assms(3) by auto
  have deep: "\<not> MAX_RESP_DEPTH < d" using assms(2) by simp
  have range: "\<not> int (length data) < -1" "int (length data) \<noteq> -1" "\<not> int (length data) < 0"
    "\<not> MAX_RESP_BULK_LENGTH < length data" using bound by linarith+
  note number = parse_number_length [OF bound] as_usize_nat [OF bound]
  show ?thesis
    unfolding reads_back_def shape
  proof (intro allI impI)
    fix s b rest
    assume small: "small_limits b" and afford: "affords (length (wire v)) 1 0 b"
    consider "v = Bulk (Some data)" | "v = BlobError data" | "v = Verbatim data" using assms(3) by blast
    then show "read_value d (s\<lparr>pending := wire v @ rest\<rparr>) b =
        Ok (v, s\<lparr>pending := rest\<rparr>, spend (length (wire v)) 1 0 b)"
    proof cases
      case 1
      with afford have "affords (length (blob CHR ''$'' data)) 1 0 b" by simp
      note read = read_blob [OF _ small this]
      show ?thesis unfolding 1 wire.simps
        by (simp add: read_value.simps [of d] deep read number range del: append.simps append_assoc One_nat_def)
    next
      case 2
      with afford have "affords (length (blob CHR ''!'' data)) 1 0 b" by simp
      note read = read_blob [OF _ small this]
      show ?thesis unfolding 2 wire.simps
        by (simp add: read_value.simps [of d] deep read number range del: append.simps append_assoc One_nat_def)
    next
      case 3
      with afford have "affords (length (blob CHR ''='' data)) 1 0 b" by simp
      note read = read_blob [OF _ small this]
      show ?thesis unfolding 3 wire.simps
        by (simp add: read_value.simps [of d] deep read number range del: append.simps append_assoc One_nat_def)
    qed
  qed
qed

lemma reads_back_leaf:
  assumes "children v = []" and "admissible v" and "d \<le> MAX_RESP_DEPTH" and "\<forall>vs. v \<noteq> Array (Some vs)"
    and "\<forall>es. v \<noteq> Map es" and "\<forall>vs. v \<noteq> Set vs" and "\<forall>vs. v \<noteq> Push vs"
  shows "reads_back d v"
proof -
  have deep: "\<not> MAX_RESP_DEPTH < d" using assms(3) by simp
  note eval = leaf_shape read_header_line text_line_def read_value.simps [of d] deep
    from_utf8_lossy_valid parse_number_show parse_number_null parse_text_def show_int_no_lf [unfolded list.set]
  have shape: "nodes v = 1" "elements v = 0" using leaf_shape [OF assms(1)] by simp_all
  show ?thesis
  proof (cases v)
    case (Bulk data)
    then show ?thesis
      using assms(1-3) shape reads_back_blob [of v d] by (cases data) (simp_all add: reads_back_def eval)
  next
    case (Array vs)
    then show ?thesis
      using assms shape by (cases vs) (simp_all add: reads_back_def eval)
  next
    case (Boolean x)
    then show ?thesis
      using assms shape by (cases x) (simp_all add: reads_back_def eval)
  next
    case (BlobError data)
    with assms(2,3) show ?thesis by (intro reads_back_blob) auto
  next
    case (Verbatim data)
    with assms(2,3) show ?thesis by (intro reads_back_blob) auto
  qed (use assms(2,4-7) shape in \<open>simp_all add: reads_back_def eval\<close>)
qed

text \<open>Lists and entries.\<close>

abbreviation cost :: "(RespValue \<Rightarrow> nat) \<Rightarrow> RespValue list \<Rightarrow> nat" where
  "cost f vs \<equiv> sum_list (map f vs)"

lemma reads_backD:
  "reads_back d v \<Longrightarrow> small_limits b \<Longrightarrow> affords (length (wire v)) (nodes v) (elements v) b \<Longrightarrow>
     read_value d (s\<lparr>pending := wire v @ rest\<rparr>) b =
       Ok (v, s\<lparr>pending := rest\<rparr>, spend (length (wire v)) (nodes v) (elements v) b)"
  by (simp add: reads_back_def)

lemma read_values_back:
  assumes "list_all (reads_back d) vs" and "small_limits b" and "affords (length (wires vs)) (cost nodes vs) (cost elements vs) b"
  shows "read_values d (length vs) (s\<lparr>pending := wires vs @ rest\<rparr>) b =
           Ok (vs, s\<lparr>pending := rest\<rparr>, spend (length (wires vs)) (cost nodes vs) (cost elements vs) b)"
  using assms
proof (induction vs arbitrary: b)
  case Nil
  then show ?case by (simp add: read_values.simps [of d 0])
next
  case (Cons v vs)
  have "affords (length (wire v)) (nodes v) (elements v) b"
    using Cons.prems(3) by (rule affords_mono) simp_all
  then have "read_value d (s\<lparr>pending := wire v @ wires vs @ rest\<rparr>) b =
      Ok (v, s\<lparr>pending := wires vs @ rest\<rparr>, spend (length (wire v)) (nodes v) (elements v) b)"
    using Cons.prems by (intro reads_backD) simp_all
  then show ?case
    using Cons.prems Cons.IH by (simp add: read_values.simps [of d "Suc (length vs)"])
qed

lemma read_entries_back:
  assumes "list_all (reads_back d) (flat es)" and "small_limits b"
    and "affords (length (wires (flat es))) (cost nodes (flat es)) (cost elements (flat es)) b"
  shows "read_entries d (length es) (s\<lparr>pending := wires (flat es) @ rest\<rparr>) b =
           Ok (es, s\<lparr>pending := rest\<rparr>,
               spend (length (wires (flat es))) (cost nodes (flat es)) (cost elements (flat es)) b)"
  using assms
proof (induction es arbitrary: b)
  case Nil
  then show ?case by (simp add: read_entries.simps [of d 0])
next
  case (Cons e es)
  obtain k v where e: "e = (k, v)" by fastforce
  have afford: "affords (length (wire k)) (nodes k) (elements k) b"
    "affords (length (wire v)) (nodes v) (elements v) (spend (length (wire k)) (nodes k) (elements k) b)"
    using Cons.prems(3) by (auto intro: affords_mono simp: e)
  have "read_value d (s\<lparr>pending := wire k @ wire v @ wires (flat es) @ rest\<rparr>) b =
      Ok (k, s\<lparr>pending := wire v @ wires (flat es) @ rest\<rparr>, spend (length (wire k)) (nodes k) (elements k) b)"
    using Cons.prems afford by (intro reads_backD) (simp_all add: e)
  moreover have "read_value d (s\<lparr>pending := wire v @ wires (flat es) @ rest\<rparr>) (spend (length (wire k)) (nodes k) (elements k) b) =
      Ok (v, s\<lparr>pending := wires (flat es) @ rest\<rparr>,
          spend (length (wire v)) (nodes v) (elements v) (spend (length (wire k)) (nodes k) (elements k) b))"
    using Cons.prems afford by (intro reads_backD) (simp_all add: e)
  ultimately show ?case
    using Cons.prems Cons.IH by (simp add: read_entries.simps [of d "Suc (length es)"] e add.assoc)
qed

lemma aggregate_shape:
  "nodes v = 1 + cost nodes (children v)" "elements v = length (children v) + cost elements (children v)"
  by (rule nodes.simps elements.simps)+

lemma reads_back_aggregate:
  assumes "admissible v" and "d \<le> MAX_RESP_DEPTH" and "list_all (reads_back (d + 1)) (children v)"
    and "v \<in> {Array (Some vs), Set vs, Push vs, Map es}"
  shows "reads_back d v"
  unfolding reads_back_def
proof (intro allI impI)
  fix s b rest
  assume small: "small_limits b" and afford: "affords (length (wire v)) (nodes v) (elements v) b"
  define n where "n = (if v = Map es then length es else length vs)"
  define prefix where "prefix = hd (wire v)"
  let ?cs = "children v" and ?h = "length (show_nat n) + 3"
  have n: "n \<le> MAX_RESP_ARRAY_LENGTH" using assms(1,4) by (auto simp: n_def)
  then have n': "n \<le> MAX_RESP_BULK_LENGTH" by (simp add: limits)
  have w: "wire v = line prefix (show_nat n) @ wires ?cs" and p: "prefix \<noteq> LF"
    using assms(4) by (auto simp: n_def prefix_def wire_entries_flat line_def)
  define b1 where "b1 = spend ?h 1 0 b"
  have header: "read_header (s\<lparr>pending := wire v @ rest\<rparr>) b = Ok (prefix, show_nat n, s\<lparr>pending := wires ?cs @ rest\<rparr>, b1)"
    unfolding w b1_def append_assoc
    using p small affords_mono [OF afford] by (intro read_header_line) (simp_all add: show_nat_no_lf w aggregate_shape)
  define b2 where "b2 = spend 0 0 (length ?cs) b1"
  have reserve: "reserve_elements b1 (length ?cs) = Ok b2"
    using small afford by (simp add: reserve_elements_Ok b1_def b2_def affords_def aggregate_shape)
  have small2: "small_limits b2" using small by (simp add: b1_def b2_def)
  have afford2: "affords (length (wires ?cs)) (cost nodes ?cs) (cost elements ?cs) b2"
    using afford by (simp add: b1_def b2_def w aggregate_shape add.commute add.left_commute)
  have total: "spend (length (wires ?cs)) (cost nodes ?cs) (cost elements ?cs) b2 =
      spend (length (wire v)) (nodes v) (elements v) b"
    by (simp add: b1_def b2_def w aggregate_shape)
  have deep: "\<not> MAX_RESP_DEPTH < d" using assms(2) by simp
  have range: "int n \<noteq> -1" "\<not> int n < -1" "\<not> int n < 0" "\<not> MAX_RESP_ARRAY_LENGTH < n" using n by simp_all
  note number = parse_number_length [OF n'] as_usize_nat [OF n']
  note eval = header deep number range fallible_simps
  note vals = read_values_back [OF assms(3) small2 afford2, where s = s and rest = rest, unfolded total]
  consider "v = Array (Some vs)" | "v = Set vs" | "v = Push vs" | "v = Map es" using assms(4) by blast
  then show "read_value d (s\<lparr>pending := wire v @ rest\<rparr>) b =
      Ok (v, s\<lparr>pending := rest\<rparr>, spend (length (wire v)) (nodes v) (elements v) b)"
  proof cases
    case 1
    then have "n = length vs" "?cs = vs" "prefix = CHR ''*''" by (simp_all add: n_def prefix_def line_def)
    then show ?thesis using eval reserve vals 1 by (simp add: read_value.simps [of d])
  next
    case 2
    then have "n = length vs" "?cs = vs" "prefix = CHR ''~''" by (simp_all add: n_def prefix_def line_def)
    then show ?thesis using eval reserve vals 2 by (simp add: read_value.simps [of d])
  next
    case 3
    then have "n = length vs" "?cs = vs" "prefix = CHR ''>''" by (simp_all add: n_def prefix_def line_def)
    then show ?thesis using eval reserve vals 3 by (simp add: read_value.simps [of d])
  next
    case 4
    then have c: "n = length es" "?cs = flat es" "prefix = CHR ''%''" by (simp_all add: n_def prefix_def line_def)
    note ents = read_entries_back [OF assms(3) [unfolded c] small2 afford2 [unfolded c], where s = s and rest = rest]
    show ?thesis using eval reserve ents total 4 c by (simp add: read_value.simps [of d] mult.commute)
  qed
qed

lemma decodable_reads_back: "decodable v \<Longrightarrow> d + height v \<le> MAX_RESP_DEPTH \<Longrightarrow> reads_back d v"
proof (induction v arbitrary: d rule: nodes.induct)
  case (1 v)
  have adm: "admissible v" and kids: "list_all decodable (children v)"
    using "1.prems"(1) decodable_iff [of v] by simp_all
  have d: "d \<le> MAX_RESP_DEPTH" using "1.prems"(2) by simp
  have "reads_back (d + 1) c" if c: "c \<in> set (children v)" for c
  proof (rule "1.IH" [OF c])
    show "decodable c" using kids c by (simp add: list_all_iff)
    show "d + 1 + height c \<le> MAX_RESP_DEPTH"
      using "1.prems"(2) c height_le_iff [of v "height v"] by fastforce
  qed
  then have sub: "list_all (reads_back (d + 1)) (children v)" by (simp add: list_all_iff)
  show ?case
  proof (cases "children v = [] \<and> (\<forall>vs. v \<noteq> Array (Some vs)) \<and> (\<forall>es. v \<noteq> Map es) \<and>
      (\<forall>vs. v \<noteq> Set vs) \<and> (\<forall>vs. v \<noteq> Push vs)")
    case True
    with adm d show ?thesis by (intro reads_back_leaf) blast+
  next
    case False
    then obtain vs es where "v \<in> {Array (Some vs), Set vs, Push vs, Map es}"
      by (cases v rule: children.cases) auto
    with adm d sub show ?thesis by (rule reads_back_aggregate)
  qed
qed

text \<open>C6: reading back what was written: a well-formed value nested no deeper than the guard allows, and
  no larger than the budget affords, is decoded from its wire form to itself; exactly its bytes
  leave the stream, whatever follows them, and exactly its bytes, nodes and children are charged.\<close>

theorem read_value_wire_roundtrip:
  assumes "decodable v" and "d + height v \<le> MAX_RESP_DEPTH" and "small_limits b"
    and "affords (length (wire v)) (nodes v) (elements v) b"
  shows "read_value d \<lparr>pending = wire v @ rest, ending = e\<rparr> b =
           Ok (v, \<lparr>pending = rest, ending = e\<rparr>, spend (length (wire v)) (nodes v) (elements v) b)"
  using reads_backD [OF decodable_reads_back [OF assms(1,2)] assms(3,4),
      where s = "\<lparr>pending = [], ending = e\<rparr>" and rest = rest]
  by simp

theorem read_value_wire_roundtrip_witness:
  "\<exists>b. read_value 0 \<lparr>pending = wire (Array (Some [Integer (-7), Null])) @ ''+OK'', ending = Silent\<rparr> (new_budget 100) =
     Ok (Array (Some [Integer (-7), Null]), \<lparr>pending = ''+OK'', ending = Silent\<rparr>, b)"
proof -
  let ?v = "Array (Some [Integer (-7), Null])"
  have "decodable ?v"
    by (simp add: all_values.simps [of admissible] in_i64_def limits)
  moreover have "0 + height ?v \<le> MAX_RESP_DEPTH"
    by (simp add: height.simps [of "Array x" for x] height.simps [of Null] height.simps [of "Integer x" for x] limits)
  moreover have "small_limits (new_budget 100)" by (simp add: limits)
  moreover have "affords (length (wire ?v)) (nodes ?v) (elements ?v) (new_budget 100)"
    by (simp add: affords_def new_budget_def with_limits_def nodes.simps elements.simps show_int_def show_nat.simps limits)
  ultimately show ?thesis by (intro exI) (rule read_value_wire_roundtrip)
qed

end
