(* ===== verification/Resp_Sound.thy ===== *)
theory Resp_Sound
  imports Resp_Roundtrip
begin

text \<open>
  Whatever \<open>read_value_budgeted\<close> accepts is well-formed, nested within the guard, within every limit
  of the budget and paid for: the bytes taken from the stream are exactly the bytes charged.
\<close>

section \<open>The bill of a decoded sequence\<close>

definition paid ::
    "nat \<Rightarrow> stream \<Rightarrow> ResponseBudget \<Rightarrow> RespValue list \<Rightarrow> stream \<Rightarrow> ResponseBudget \<Rightarrow> bool" where
  "paid d s b vs s' b' \<longleftrightarrow>
     (\<exists>c. pending s = c @ pending s' \<and> ending s' = ending s \<and>
        b' = spend (length c) (cost nodes vs) (cost elements vs) b \<and>
        affords (length c) (cost nodes vs) (cost elements vs) b \<and>
        length (wires vs) \<le> 3 * length c \<and>
        (list_all error_free vs \<longrightarrow> length (wires vs) \<le> length c)) \<and>
     list_all (\<lambda>v. decodable v \<and> d + height v \<le> MAX_RESP_DEPTH) vs"

lemma paid_limits: "paid d s b vs s' b' \<Longrightarrow> small_limits b' = small_limits b \<and> within_limits b'"
  by (auto simp: paid_def within_limits_def affords_def)

lemma paid_Nil: "within_limits b \<Longrightarrow> paid d s b [] s b"
  by (simp add: paid_def affords_def within_limits_def)

lemma paid_append:
  assumes "paid d s b vs s1 b1" and "paid d s1 b1 ws s2 b2"
  shows "paid d s b (vs @ ws) s2 b2"
proof -
  from assms(1) obtain c where c: "pending s = c @ pending s1" "ending s1 = ending s"
    "b1 = spend (length c) (cost nodes vs) (cost elements vs) b" "length (wires vs) \<le> 3 * length c"
    "list_all error_free vs \<longrightarrow> length (wires vs) \<le> length c"
    "list_all (\<lambda>v. decodable v \<and> d + height v \<le> MAX_RESP_DEPTH) vs"
    unfolding paid_def by blast
  from assms(2) obtain e where e: "pending s1 = e @ pending s2" "ending s2 = ending s1"
    "b2 = spend (length e) (cost nodes ws) (cost elements ws) b1"
    "affords (length e) (cost nodes ws) (cost elements ws) b1" "length (wires ws) \<le> 3 * length e"
    "list_all error_free ws \<longrightarrow> length (wires ws) \<le> length e"
    "list_all (\<lambda>v. decodable v \<and> d + height v \<le> MAX_RESP_DEPTH) ws"
    unfolding paid_def by blast
  show ?thesis
    unfolding paid_def
  proof (intro conjI exI [of _ "c @ e"])
    show "list_all error_free (vs @ ws) \<longrightarrow> length (wires (vs @ ws)) \<le> length (c @ e)"
      using c(5) e(6) by auto
  qed (use c e in simp_all)
qed

lemma paid_line:
  assumes "read_header s b = Ok (prefix, payload, s', b')" and "small_limits b" and "within_limits b"
    and "children v = []" and "admissible v" and "d \<le> MAX_RESP_DEPTH"
    and "length (wire v) \<le> (if is_error v then 3 * (length payload + 3) else length payload + 3)"
  shows "paid d s b [v] s' b'"
proof -
  note header = read_header_Ok [OF assms(1-3)]
  have shape: "nodes v = 1" "elements v = 0" "height v = 0" "decodable v" "error_free v \<longleftrightarrow> \<not> is_error v"
    using assms(4,5) leaf_shape [of v] by (simp_all add: all_values.simps [of _ v])
  show ?thesis
    unfolding paid_def
    using header shape assms(6,7) by (intro conjI exI [of _ "line prefix payload"]) (auto split: if_splits)
qed

lemma parsed_length:
  assumes "parse_number payload field = Ok i" and "0 \<le> i"
  shows "length (show_nat (as_usize i)) \<le> length payload"
proof -
  from assms(1) have p: "parse_i64_str payload = Ok i"
    by (auto simp: parse_number_def split: option.splits)
  from parse_i64_range [OF p] assms(2) have "as_usize i = nat i" by (intro as_usize_nonneg) (auto simp: in_i64_def)
  with length_show_int_parsed [OF p] assms(2) show ?thesis by (simp add: show_int_def)
qed

lemma paid_blob:
  assumes "read_header s b = Ok (prefix, payload, s1, b1)" and "small_limits b" and "within_limits b"
    and "parse_number payload field = Ok i" and "0 \<le> i" and "as_usize i \<le> MAX_RESP_BULK_LENGTH"
    and "read_payload kind (as_usize i) s1 b1 = Ok (data, s', b')" and "d \<le> MAX_RESP_DEPTH"
    and "v \<in> {Bulk (Some data), BlobError data, Verbatim data}"
  shows "paid d s b [v] s' b'"
proof -
  note header = read_header_Ok [OF assms(1-3)]
  have b1: "small_limits b1" "within_limits b1" "b1 = spend (length payload + 3) 1 0 b"
    using header assms(2) by (simp_all add: within_limits_def affords_def)
  note payload = read_payload_Ok [OF assms(7) b1(1,2)]
  have shape: "nodes v = 1" "elements v = 0" "height v = 0" "children v = []" "admissible v"
    using assms(6,9) payload leaf_shape [of v] by auto
  then have ok: "decodable v" by (simp add: all_values.simps [of _ v])
  have w: "length (wire v) \<le> length (line prefix payload @ data @ crlf)"
    using assms(9) payload parsed_length [OF assms(4,5)] by (auto simp: length_blob)
  show ?thesis
    unfolding paid_def
  proof (intro conjI exI [of _ "line prefix payload @ data @ crlf"])
    show "b' = spend (length (line prefix payload @ data @ crlf)) (cost nodes [v]) (cost elements [v]) b"
      using payload by (simp add: b1(3) shape)
    show "affords (length (line prefix payload @ data @ crlf)) (cost nodes [v]) (cost elements [v]) b"
      using payload header by (simp add: b1(3) shape)
  qed (use header payload w ok shape assms(8) in simp_all)
qed

lemma paid_aggregate:
  assumes "read_header s b = Ok (prefix, payload, s1, b1)" and "small_limits b" and "within_limits b"
    and "parse_number payload field = Ok i" and "0 \<le> i" and "as_usize i \<le> MAX_RESP_ARRAY_LENGTH"
    and "reserve_elements b1 (length (children v)) = Ok b2" and "paid (d + 1) s1 b2 (children v) s' b'"
    and "d \<le> MAX_RESP_DEPTH" and "v \<in> {Array (Some vs), Set vs, Push vs, Map es}"
    and "as_usize i = (if v = Map es then length es else length vs)"
  shows "paid d s b [v] s' b'"
proof -
  note header = read_header_Ok [OF assms(1-3)]
  have b1: "small_limits b1" "b1 = spend (length payload + 3) 1 0 b"
    using header assms(2) by simp_all
  have b2: "b2 = spend 0 0 (length (children v)) b1" using assms(7) b1(1) by (simp add: reserve_elements_Ok)
  from assms(8) obtain c where c: "pending s1 = c @ pending s'" "ending s' = ending s1"
    "b' = spend (length c) (cost nodes (children v)) (cost elements (children v)) b2"
    "affords (length c) (cost nodes (children v)) (cost elements (children v)) b2"
    "length (wires (children v)) \<le> 3 * length c"
    "list_all error_free (children v) \<longrightarrow> length (wires (children v)) \<le> length c"
    and kids: "list_all (\<lambda>v. decodable v \<and> d + 1 + height v \<le> MAX_RESP_DEPTH) (children v)"
    unfolding paid_def by blast
  have w: "length (wire v) = length (show_nat (as_usize i)) + 3 + length (wires (children v))"
    using assms(10,11) by (auto simp: wire_entries_flat)
  have "admissible v" using assms(6,10,11) by auto
  with kids have ok: "decodable v" by (simp add: decodable_iff [of v] list_all_iff)
  have deep: "d + height v \<le> MAX_RESP_DEPTH"
    using kids assms(9) height_le_iff [of v "MAX_RESP_DEPTH - d"] by (fastforce simp: list_all_iff)
  show ?thesis
    unfolding paid_def
  proof (intro conjI exI [of _ "line prefix payload @ c"])
    show "b' = spend (length (line prefix payload @ c)) (cost nodes [v]) (cost elements [v]) b"
      using c by (simp add: b1(2) b2 aggregate_shape)
    show "affords (length (line prefix payload @ c)) (cost nodes [v]) (cost elements [v]) b"
      using c by (simp add: b1(2) b2 aggregate_shape)
    show "length (wires [v]) \<le> 3 * length (line prefix payload @ c)"
      using c(5) w parsed_length [OF assms(4,5)] by simp
    show "list_all error_free [v] \<longrightarrow> length (wires [v]) \<le> length (line prefix payload @ c)"
      using c(6) w parsed_length [OF assms(4,5)] by (auto simp: all_values.simps [of _ v])
  qed (use header c ok deep in simp_all)
qed

section \<open>Lists and entries\<close>

lemma read_values_paid:
  assumes step: "\<And>s b v s' b'. read_value d s b = Ok (v, s', b') \<Longrightarrow> small_limits b \<Longrightarrow> within_limits b \<Longrightarrow>
      paid d s b [v] s' b'"
    and "read_values d n s b = Ok (vs, s', b')" and "small_limits b" and "within_limits b"
  shows "length vs = n \<and> paid d s b vs s' b'"
  using assms(2-)
proof (induction n arbitrary: s b vs)
  case 0
  then show ?case by (simp add: read_values.simps [of d 0] paid_Nil)
next
  case (Suc n)
  then obtain v s1 b1 ws where v: "read_value d s b = Ok (v, s1, b1)"
    and ws: "read_values d n s1 b1 = Ok (ws, s', b')" and vs: "vs = v # ws"
    by (auto simp: read_values.simps [of d "Suc n"])
  note first = step [OF v Suc.prems(2,3)]
  from Suc.IH [OF ws] paid_limits [OF first] Suc.prems(2) have "length ws = n" "paid d s1 b1 ws s' b'" by simp_all
  with paid_append [OF first] show ?case by (simp add: vs)
qed

lemma read_entries_paid:
  assumes step: "\<And>s b v s' b'. read_value d s b = Ok (v, s', b') \<Longrightarrow> small_limits b \<Longrightarrow> within_limits b \<Longrightarrow>
      paid d s b [v] s' b'"
    and "read_entries d n s b = Ok (es, s', b')" and "small_limits b" and "within_limits b"
  shows "length es = n \<and> paid d s b (flat es) s' b'"
  using assms(2-)
proof (induction n arbitrary: s b es)
  case 0
  then show ?case by (simp add: read_entries.simps [of d 0] paid_Nil)
next
  case (Suc n)
  then obtain k s1 b1 v s2 b2 fs where k: "read_value d s b = Ok (k, s1, b1)"
    and v: "read_value d s1 b1 = Ok (v, s2, b2)"
    and fs: "read_entries d n s2 b2 = Ok (fs, s', b')" and es: "es = (k, v) # fs"
    by (auto simp: read_entries.simps [of d "Suc n"])
  note first = step [OF k Suc.prems(2,3)]
  from paid_limits [OF first] Suc.prems(2) have "small_limits b1" "within_limits b1" by simp_all
  note second = step [OF v this]
  from Suc.IH [OF fs] paid_limits [OF second] \<open>small_limits b1\<close>
  have "length fs = n" "paid d s2 b2 (flat fs) s' b'" by simp_all
  with paid_append [OF first paid_append [OF second]] show ?case by (simp add: es)
qed

section \<open>One value\<close>

lemma parsed_i64: "parse_number payload field = Ok i \<Longrightarrow> in_i64 i \<and> length (show_int i) \<le> length payload"
  by (auto simp: parse_number_def dest: parse_i64_range length_show_int_parsed split: option.splits)

lemma lossy_no_lf: "LF \<notin> set s \<Longrightarrow> LF \<notin> set (from_utf8_lossy s)"
proof
  assume "LF \<notin> set s" and "LF \<in> set (from_utf8_lossy s)"
  then obtain ok c where "(ok, c) \<in> set (utf8_chunks s)" and "LF \<in> set c"
    by (auto simp: from_utf8_lossy_def replacement_char_def split: if_splits)
  then have "LF \<in> set (concat (map snd (utf8_chunks s)))" by force
  with \<open>LF \<notin> set s\<close> show False by (simp add: concat_chunks)
qed

lemma text_line_lossy: "LF \<notin> set s \<Longrightarrow> text_line (from_utf8_lossy s)"
  by (simp add: text_line_def valid_from_utf8_lossy lossy_no_lf)

lemma prefix_cases:
  fixes prefix :: u8
  obtains (simple) "prefix = CHR ''+''" | (error) "prefix = CHR ''-''" | (int) "prefix = CHR '':''"
    | (bulk) "prefix = CHR ''$''" | (array) "prefix = CHR ''*''" | (null) "prefix = CHR ''_''"
    | (bool) "prefix = CHR ''#''" | (double) "prefix = CHR '',''" | (big) "prefix = CHR ''(''"
    | (blob) "prefix = CHR ''!'' \<or> prefix = CHR ''=''" | (map) "prefix = CHR ''%''"
    | (seq) "prefix = CHR ''~'' \<or> prefix = CHR ''>''"
    | (other) "prefix \<noteq> CHR ''+''" "prefix \<noteq> CHR ''-''" "prefix \<noteq> CHR '':''" "prefix \<noteq> CHR ''$''" "prefix \<noteq> CHR ''*''" "prefix \<noteq> CHR ''_''" "prefix \<noteq> CHR ''#''"
       "prefix \<noteq> CHR '',''" "prefix \<noteq> CHR ''(''" "prefix \<noteq> CHR ''!''" "prefix \<noteq> CHR ''=''" "prefix \<noteq> CHR ''%''" "prefix \<noteq> CHR ''~''" "prefix \<noteq> CHR ''>''"
  using that by fast

lemma read_value_step:
  assumes read: "read_value d s b = Ok (v, s', b')" and small: "small_limits b" and within: "within_limits b"
    and ih_values: "\<And>n s b vs s' b'. read_values (d + 1) n s b = Ok (vs, s', b') \<Longrightarrow> small_limits b \<Longrightarrow>
      within_limits b \<Longrightarrow> d \<le> MAX_RESP_DEPTH \<Longrightarrow> length vs = n \<and> paid (d + 1) s b vs s' b'"
    and ih_entries: "\<And>n s b es s' b'. read_entries (d + 1) n s b = Ok (es, s', b') \<Longrightarrow> small_limits b \<Longrightarrow>
      within_limits b \<Longrightarrow> d \<le> MAX_RESP_DEPTH \<Longrightarrow> length es = n \<and> paid (d + 1) s b (flat es) s' b'"
  shows "paid d s b [v] s' b'"
proof -
  have d: "d \<le> MAX_RESP_DEPTH" using read by (simp add: read_value.simps [of d] split: if_split_asm)
  then have deep: "\<not> MAX_RESP_DEPTH < d" by simp
  from read obtain prefix payload s1 b1 where header: "read_header s b = Ok (prefix, payload, s1, b1)"
    by (simp add: read_value.simps [of d] deep) blast
  note h = read_header_Ok [OF header small within]
  have b1: "small_limits b1" "within_limits b1" using h small by (simp_all add: within_limits_def affords_def)
  note body = read [unfolded read_value.simps [of d s b] header and_then.simps prod.case if_not_P [OF deep]]
  have line: "paid d s b [v] s' b'"
    if "(v, s', b') = (w, s1, b1)" "children w = []" "admissible w"
      "length (wire w) \<le> (if is_error w then 3 * (length payload + 3) else length payload + 3)" for w
    using paid_line [OF header small within that(2,3) d that(4)] that(1) by simp
  note blob = paid_blob [OF header small within _ _ _ _ d]
  have reserved: "small_limits b2 \<and> within_limits b2" if "reserve_elements b1 n = Ok b2" for n b2
    using that b1 by (auto simp: reserve_elements_Ok within_limits_def)
  have seq_case: "paid d s b [w] s' b'"
    if "parse_number payload field = Ok i" "0 \<le> i" "as_usize i \<le> MAX_RESP_ARRAY_LENGTH"
      "reserve_elements b1 (as_usize i) = Ok b2" "read_values (d + 1) (as_usize i) s1 b2 = Ok (vs, s', b')"
      "w \<in> {Array (Some vs), Set vs, Push vs}" for field i b2 vs w
    using ih_values [OF that(5)] reserved [OF that(4)] d that
    by (intro paid_aggregate [OF header small within that(1,2,3), where ?b2.0 = b2 and vs = vs and es = "[]"]) auto
  have map_case: "paid d s b [Map es] s' b'"
    if "parse_number payload field = Ok i" "0 \<le> i" "as_usize i \<le> MAX_RESP_ARRAY_LENGTH"
      "reserve_elements b1 (as_usize i * 2) = Ok b2" "read_entries (d + 1) (as_usize i) s1 b2 = Ok (es, s', b')"
    for field i b2 es
    using ih_entries [OF that(5)] reserved [OF that(4)] d that
    by (intro paid_aggregate [OF header small within that(1,2,3), where ?b2.0 = b2 and es = es]) (auto simp: mult.commute)
  have lf: "LF \<notin> set payload" using h by simp
  show ?thesis
  proof (cases rule: prefix_cases [of prefix])
    case simple
    with body have "(v, s', b') = (Simple payload, s1, b1)" and "valid_utf8 payload"
      by (auto split: option.split_asm)
    with lf show ?thesis by (intro line [where w = "Simple payload"]) (simp_all add: text_line_def)
  next
    case error
    with body have "(v, s', b') = (Error (from_utf8_lossy payload), s1, b1)" by auto
    with lf length_from_utf8_lossy [of payload] show ?thesis by (intro line [where w = "Error (from_utf8_lossy payload)"]) (simp_all add: text_line_lossy)
  next
    case int
    with body obtain i where "(v, s', b') = (Integer i, s1, b1)" and "parse_number payload ''integer'' = Ok i"
      by auto
    then show ?thesis by (intro line [where w = "Integer i"]) (auto dest: parsed_i64)
  next
    case bulk
    with body obtain i where i: "parse_number payload ''bulk length'' = Ok i"
      and rest: "i = -1 \<and> (v, s', b') = (Bulk None, s1, b1) \<or>
        0 \<le> i \<and> as_usize i \<le> MAX_RESP_BULK_LENGTH \<and>
        (\<exists>data. read_payload ''bulk'' (as_usize i) s1 b1 = Ok (data, s', b') \<and> v = Bulk (Some data))"
      by (auto split: if_split_asm)
    from i have "length (show_int i) \<le> length payload" by (auto dest: parsed_i64)
    moreover have "length (show_int (-1)) = 2" by (simp add: show_int_def show_nat.simps)
    ultimately have "paid d s b [v] s' b'" if "i = -1" "(v, s', b') = (Bulk None, s1, b1)"
      using that by (intro line [where w = "Bulk None"]) simp_all
    moreover have "paid d s b [v] s' b'" if "\<not> (i = -1 \<and> (v, s', b') = (Bulk None, s1, b1))"
      using that rest by (auto intro!: blob [OF i])
    ultimately show ?thesis by blast
  next
    case array
    with body obtain i where i: "parse_number payload ''array length'' = Ok i"
      and rest: "i = -1 \<and> (v, s', b') = (Array None, s1, b1) \<or>
        0 \<le> i \<and> as_usize i \<le> MAX_RESP_ARRAY_LENGTH \<and>
        (\<exists>b2 vs. reserve_elements b1 (as_usize i) = Ok b2 \<and>
           read_values (d + 1) (as_usize i) s1 b2 = Ok (vs, s', b') \<and> v = Array (Some vs))"
      by (auto split: if_split_asm)
    from i have "length (show_int i) \<le> length payload" by (auto dest: parsed_i64)
    moreover have "length (show_int (-1)) = 2" by (simp add: show_int_def show_nat.simps)
    ultimately have "paid d s b [v] s' b'" if "i = -1" "(v, s', b') = (Array None, s1, b1)"
      using that by (intro line [where w = "Array None"]) simp_all
    moreover have "paid d s b [v] s' b'" if "\<not> (i = -1 \<and> (v, s', b') = (Array None, s1, b1))"
      using that rest by (auto intro!: seq_case [OF i])
    ultimately show ?thesis by blast
  next
    case null
    with body have "(v, s', b') = (Null, s1, b1)" by simp
    then show ?thesis by (intro line [where w = "Null"]) simp_all
  next
    case bool
    with body obtain x where "(v, s', b') = (Boolean x, s1, b1)" and "length payload = 1"
      by (auto split: if_split_asm)
    then show ?thesis by (intro line [where w = "Boolean x"]) simp_all
  next
    case double
    with body have "(v, s', b') = (Double payload, s1, b1)" and "valid_utf8 payload"
      by (auto simp: parse_text_def split: option.split_asm)
    with lf show ?thesis by (intro line [where w = "Double payload"]) (simp_all add: text_line_def)
  next
    case big
    with body have "(v, s', b') = (BigNumber payload, s1, b1)" and "valid_utf8 payload"
      by (auto simp: parse_text_def split: option.split_asm)
    with lf show ?thesis by (intro line [where w = "BigNumber payload"]) (simp_all add: text_line_def)
  next
    case blob
    then show ?thesis
    proof
      assume "prefix = CHR ''!''"
      with body obtain i data where "parse_number payload ''blob length'' = Ok i" "0 \<le> i"
        "as_usize i \<le> MAX_RESP_BULK_LENGTH" "read_payload ''blob'' (as_usize i) s1 b1 = Ok (data, s', b')"
        "v = BlobError data"
        by (auto split: if_split_asm)
      then show ?thesis by (intro paid_blob [OF header small within _ _ _ _ d]) auto
    next
      assume "prefix = CHR ''=''"
      with body obtain i data where "parse_number payload ''blob length'' = Ok i" "0 \<le> i"
        "as_usize i \<le> MAX_RESP_BULK_LENGTH" "read_payload ''blob'' (as_usize i) s1 b1 = Ok (data, s', b')"
        "v = Verbatim data"
        by (auto split: if_split_asm)
      then show ?thesis by (intro paid_blob [OF header small within _ _ _ _ d]) auto
    qed
  next
    case map
    with body obtain i b2 es where "parse_number payload ''map length'' = Ok i" "0 \<le> i"
      "as_usize i \<le> MAX_RESP_ARRAY_LENGTH" "reserve_elements b1 (as_usize i * 2) = Ok b2"
      "read_entries (d + 1) (as_usize i) s1 b2 = Ok (es, s', b')" "v = Map es"
      by (auto split: if_split_asm)
    then show ?thesis using map_case by blast
  next
    case seq
    then show ?thesis
    proof
      assume "prefix = CHR ''~''"
      with body obtain i b2 vs where "parse_number payload ''aggregate length'' = Ok i" "0 \<le> i"
        "as_usize i \<le> MAX_RESP_ARRAY_LENGTH" "reserve_elements b1 (as_usize i) = Ok b2"
        "read_values (d + 1) (as_usize i) s1 b2 = Ok (vs, s', b')" "v = Set vs"
        by (auto split: if_split_asm)
      then show ?thesis by (intro seq_case) auto
    next
      assume "prefix = CHR ''>''"
      with body obtain i b2 vs where "parse_number payload ''aggregate length'' = Ok i" "0 \<le> i"
        "as_usize i \<le> MAX_RESP_ARRAY_LENGTH" "reserve_elements b1 (as_usize i) = Ok b2"
        "read_values (d + 1) (as_usize i) s1 b2 = Ok (vs, s', b')" "v = Push vs"
        by (auto split: if_split_asm)
      then show ?thesis by (intro seq_case) auto
    qed
  next
    case other
    with body show ?thesis by simp
  qed
qed

lemma read_value_paid:
  "read_value d s b = Ok (v, s', b') \<Longrightarrow> small_limits b \<Longrightarrow> within_limits b \<Longrightarrow> paid d s b [v] s' b'"
proof (induction "MAX_RESP_DEPTH + 1 - d" arbitrary: d s b v s' b' rule: less_induct)
  case less
  have ih: "read_value (d + 1) s b = Ok (v, s', b') \<Longrightarrow> small_limits b \<Longrightarrow> within_limits b \<Longrightarrow>
      paid (d + 1) s b [v] s' b'" if "d \<le> MAX_RESP_DEPTH" for s b v s' b'
    by (rule less.hyps) (use that in simp_all)
  show ?case
  proof (rule read_value_step [OF less.prems])
    show "length vs = n \<and> paid (d + 1) s b vs s' b'"
      if "read_values (d + 1) n s b = Ok (vs, s', b')" "small_limits b" "within_limits b" "d \<le> MAX_RESP_DEPTH"
      for n s b vs s' b'
      using read_values_paid [OF ih [OF that(4)] that(1-3)] .
    show "length es = n \<and> paid (d + 1) s b (flat es) s' b'"
      if "read_entries (d + 1) n s b = Ok (es, s', b')" "small_limits b" "within_limits b" "d \<le> MAX_RESP_DEPTH"
      for n s b es s' b'
      using read_entries_paid [OF ih [OF that(4)] that(1-3)] .
  qed
qed

section \<open>What an accepted reply guarantees\<close>

text \<open>C5: a reply accepted under a byte budget of \<open>n\<close> is well-formed, nested at most 64 deep, made of at
  most 8192 values with at most 8192 announced children, and the bytes taken from the stream, at
  most \<open>n\<close>, are exactly the bytes charged; what follows the reply stays in the stream.\<close>

theorem read_value_within_budget:
  assumes "read_value 0 s (new_budget n) = Ok (v, s', b')" and "n < USIZE_MAX"
  shows "decodable v \<and> height v \<le> MAX_RESP_DEPTH \<and> nodes v \<le> MAX_RESPONSE_NODES \<and>
         elements v \<le> MAX_RESPONSE_ELEMENTS \<and>
         (\<exists>taken. pending s = taken @ pending s' \<and> length taken = bytes_used b' \<and> length taken \<le> n)"
proof -
  have "paid 0 s (new_budget n) [v] s' b'"
    using assms by (intro read_value_paid) simp_all
  then show ?thesis
    unfolding paid_def by (auto simp: affords_def new_budget_def with_limits_def)
qed

theorem read_value_within_budget_witness:
  "nodes (Boolean True) \<le> MAX_RESPONSE_NODES"
proof -
  have "read_value 0 \<lparr>pending = ''#t'' @ crlf, ending = Silent\<rparr> (new_budget 64) =
      Ok (Boolean True, \<lparr>pending = [], ending = Silent\<rparr>, spend 4 1 0 (new_budget 64))"
    using read_header_line [where prefix = "CHR ''#''" and payload = "''t''" and b = "new_budget 64"
        and s = "\<lparr>pending = [], ending = Silent\<rparr>" and rest = "[]"]
    by (simp add: read_value.simps [of 0] line_def affords_def new_budget_def with_limits_def small_limits_def limits)
  from read_value_within_budget [OF this] show ?thesis by (simp add: limits)
qed

text \<open>A reply can be forwarded as it was read: encoding an accepted reply that carries no error needs
  no more bytes than it was charged, so it fits every buffer its budget fits; an error text
  whose invalid bytes were replaced takes at most three times its bytes.\<close>

theorem reencoding_fits:
  assumes "read_value 0 s (new_budget n) = Ok (v, s', b')" and "n < USIZE_MAX"
  shows "length (wire v) \<le> 3 * n \<and> (error_free v \<longrightarrow> encode_value v [] n = Ok (wire v))"
proof -
  have "paid 0 s (new_budget n) [v] s' b'"
    using assms by (intro read_value_paid) simp_all
  then obtain c :: bytes where "length c \<le> n" "length (wire v) \<le> 3 * length c"
    "error_free v \<longrightarrow> length (wire v) \<le> length c"
    unfolding paid_def by (auto simp: affords_def new_budget_def with_limits_def)
  then show ?thesis using encode_is_emit(1) [OF assms(2), of v "[]"] by (auto simp: emit_def)
qed

theorem reencoding_fits_witness: "encode_value (Integer 7) [] 64 = Ok ('':7'' @ crlf)"
proof -
  have "read_value 0 \<lparr>pending = '':+07'' @ crlf, ending = Silent\<rparr> (new_budget 64) =
      Ok (Integer 7, \<lparr>pending = [], ending = Silent\<rparr>, spend 6 1 0 (new_budget 64))"
    using read_header_line [where prefix = "CHR '':''" and payload = "''+07''" and b = "new_budget 64"
        and s = "\<lparr>pending = [], ending = Silent\<rparr>" and rest = "[]"]
    by (simp add: read_value.simps [of 0] line_def affords_def new_budget_def with_limits_def small_limits_def
        parse_number_def parse_i64_str_def digit_val_def limits)
  from reencoding_fits [OF this] show ?thesis
    by (simp add: limits all_values.simps [of "\<lambda>v. \<not> is_error v" "Integer 7"] line_def show_int_def show_nat.simps)
qed

end
