(* ===== verification/Frame_Codec.thy ===== *)
theory Frame_Codec
  imports Resp_Sound
begin

text \<open>
  The contract of a framed encoding on a byte stream, stated once as the locale \<open>frame_codec\<close>: a
  decoder that gives back what the encoder wrote and leaves the rest of the stream alone.  From
  it follow that no frame is a prefix of another frame's bytes and that a pipeline of frames is
  taken apart frame by frame.  Replies and client commands are its instances.
\<close>

text \<open>Decoding \<open>n\<close> frames one after the other.\<close>

fun decode_all :: "(stream \<Rightarrow> ('v \<times> stream, fault) result) \<Rightarrow> nat \<Rightarrow> stream \<Rightarrow> ('v list \<times> stream, fault) result" where
  "decode_all dec 0 s = Ok ([], s)"
| "decode_all dec (Suc n) s =
     and_then (dec s) (\<lambda>(v, s). and_then (decode_all dec n s) (\<lambda>(vs, s). Ok (v # vs, s)))"

locale frame_codec =
  fixes enc :: "'v \<Rightarrow> bytes"
    and dec :: "stream \<Rightarrow> ('v \<times> stream, fault) result"
    and fits :: "'v \<Rightarrow> bool"
  assumes dec_enc: "fits v \<Longrightarrow> dec (s\<lparr>pending := enc v @ rest\<rparr>) = Ok (v, s\<lparr>pending := rest\<rparr>)"
begin

lemma unique_frame:
  assumes "fits v" and "fits w" and "enc v @ xs = enc w @ ys"
  shows "v = w \<and> xs = ys"
proof -
  let ?s = "\<lparr>pending = [], ending = Silent\<rparr>"
  have "dec (?s\<lparr>pending := enc v @ xs\<rparr>) = Ok (v, ?s\<lparr>pending := xs\<rparr>)" by (rule dec_enc [OF assms(1)])
  moreover have "dec (?s\<lparr>pending := enc w @ ys\<rparr>) = Ok (w, ?s\<lparr>pending := ys\<rparr>)" by (rule dec_enc [OF assms(2)])
  ultimately show ?thesis using assms(3) by simp
qed

lemma no_prefix: "fits v \<Longrightarrow> fits w \<Longrightarrow> enc w = enc v @ ys \<Longrightarrow> v = w \<and> ys = []"
  using unique_frame [of v w ys "[]"] by simp

lemma decode_pipeline:
  "list_all fits vs \<Longrightarrow>
     decode_all dec (length vs) (s\<lparr>pending := concat (map enc vs) @ rest\<rparr>) = Ok (vs, s\<lparr>pending := rest\<rparr>)"
proof (induction vs)
  case (Cons v vs)
  then have "dec (s\<lparr>pending := enc v @ concat (map enc vs) @ rest\<rparr>) = Ok (v, s\<lparr>pending := concat (map enc vs) @ rest\<rparr>)"
    by (intro dec_enc) simp
  with Cons show ?case by simp
qed simp

end

section \<open>Replies\<close>

text \<open>Reading one reply under a fresh budget of \<open>n\<close> bytes, as every caller does.\<close>

definition read_reply :: "nat \<Rightarrow> stream \<Rightarrow> (RespValue \<times> stream, fault) result" where
  "read_reply n s = and_then (read_value 0 s (new_budget n)) (\<lambda>(v, s, _). Ok (v, s))"

definition fits_budget :: "nat \<Rightarrow> RespValue \<Rightarrow> bool" where
  "fits_budget n v \<longleftrightarrow>
     decodable v \<and> height v \<le> MAX_RESP_DEPTH \<and> nodes v \<le> MAX_RESPONSE_NODES \<and>
     elements v \<le> MAX_RESPONSE_ELEMENTS \<and> length (wire v) \<le> n \<and> n < USIZE_MAX"

lemma read_reply_wire:
  "fits_budget n v \<Longrightarrow> read_reply n (s\<lparr>pending := wire v @ rest\<rparr>) = Ok (v, s\<lparr>pending := rest\<rparr>)"
  using decodable_reads_back [of v 0] reads_backD [of 0 v "new_budget n" rest s]
  by (simp add: fits_budget_def read_reply_def affords_def new_budget_def with_limits_def small_limits_def limits)

interpretation reply_codec: frame_codec wire "read_reply n" "fits_budget n" for n
  by unfold_locales (rule read_reply_wire)

text \<open>Replies are framed without ambiguity: two well-formed replies that start the same byte stream
  are the same reply and leave the same rest.\<close>

theorem reply_frames_unique:
  assumes "fits_budget n v" and "fits_budget n w" and "wire v @ xs = wire w @ ys"
  shows "v = w \<and> xs = ys"
  using assms by (rule reply_codec.unique_frame)

lemma fits_small_integer: "fits_budget 64 (Integer 7)" "fits_budget 64 (Integer 8)"
  by (simp_all add: fits_budget_def all_values.simps [of admissible] leaf_shape in_i64_def show_int_def
      show_nat.simps limits)

theorem reply_frames_unique_witness: "wire (Integer 7) @ ''+OK'' \<noteq> wire (Integer 8) @ ''+OK''"
proof
  assume "wire (Integer 7) @ ''+OK'' = wire (Integer 8) @ ''+OK''"
  from reply_frames_unique [OF fits_small_integer(1,2) this] show False by simp
qed

end
