(* ===== verification/Resp_Refusal.thy ===== *)
theory Resp_Refusal
  imports Resp_Roundtrip Frame_Codec
begin

text \<open>
  The other half of the round trip of \<open>Resp_Roundtrip\<close>: a well-formed reply that does not fit the budget
  is refused, and with the message of a counter it overdraws.  Together they say that the budget
  decides exactly which well-formed replies are decoded.
\<close>

definition overdrawn :: "nat \<Rightarrow> nat \<Rightarrow> nat \<Rightarrow> ResponseBudget \<Rightarrow> rstring \<Rightarrow> bool" where
  "overdrawn x n m b e \<longleftrightarrow>
     e = byte_refusal b \<and> byte_limit b < bytes_used b + x \<or>
     e = node_refusal b \<and> node_limit b < nodes_used b + n \<or>
     e = element_refusal b \<and> element_limit b < elements_used b + m"

lemma overdrawn_mono: "overdrawn x n e b msg \<Longrightarrow> x \<le> x' \<Longrightarrow> n \<le> n' \<Longrightarrow> e \<le> e' \<Longrightarrow> overdrawn x' n' e' b msg"
  by (auto simp: overdrawn_def)

lemma overdrawn_spend [simp]:
  "overdrawn y m f (spend x n e b) = overdrawn (x + y) (n + m) (e + f) b"
  by (rule ext) (simp add: overdrawn_def spend_def byte_refusal_def node_refusal_def element_refusal_def add.assoc)

lemma within_limits_spend: "within_limits (spend x n e b) \<longleftrightarrow> affords x n e b"
  by (simp add: within_limits_def affords_def)

definition fails_with :: "('a, fault) result \<Rightarrow> (rstring \<Rightarrow> bool) \<Rightarrow> bool" where
  "fails_with r P \<longleftrightarrow> (\<exists>e. r = Err (Fail e) \<and> P e)"

lemma fails_with_mono: "fails_with r P \<Longrightarrow> (\<And>e. P e \<Longrightarrow> Q e) \<Longrightarrow> fails_with r Q"
  by (auto simp: fails_with_def)

lemma fails_with_then: "fails_with r P \<Longrightarrow> fails_with (and_then r k) P"
  by (auto simp: fails_with_def)

section \<open>Headers and payloads\<close>

lemma read_header_refused:
  assumes "LF \<notin> set (prefix # payload)" and "small_limits b" and "within_limits b"
    and "\<not> affords (length payload + 3) 1 0 b"
  shows "fails_with (read_header (s\<lparr>pending := line prefix payload @ rest\<rparr>) b) (overdrawn (length payload + 3) 1 0 b)"
proof (cases "node_limit b < nodes_used b + 1")
  case True
  then have "consume_node b = Err (node_refusal b)" using node_budget.refuses [of b] assms(2) by simp
  with True show ?thesis by (simp add: read_header_def fails_with_def overdrawn_def)
next
  case False
  let ?l = "prefix # payload @ crlf"
  from False have node: "consume_node b = Ok (spend 0 1 0 b)" using assms(2) by (simp add: consume_node_Ok)
  from False assms(3,4) have over: "byte_limit b < bytes_used b + length ?l"
    by (simp add: affords_def within_limits_def)
  then have "consume_bytes (spend 0 1 0 b) (length ?l) = Err (byte_refusal b)"
    using byte_budget.refuses [of "spend 0 1 0 b" "length ?l"] assms(2) by (simp add: byte_refusal_def del: list.size)
  moreover have "read_until LF (s\<lparr>pending := line prefix payload @ rest\<rparr>) = Ok (?l, s\<lparr>pending := rest\<rparr>)"
    using assms(1) by (auto simp: line_def read_until_def)
  moreover have "ends_with ?l crlf" using ends_with_append [of "prefix # payload" crlf] by simp
  ultimately have "read_header (s\<lparr>pending := line prefix payload @ rest\<rparr>) b = Err (Fail (byte_refusal b))"
    unfolding read_header_def node
    by (simp only: fallible_simps and_then.simps map_err.simps prod.case list.distinct not_True_eq_False if_False)
  with over show ?thesis by (simp add: fails_with_def overdrawn_def)
qed

lemma read_payload_refused:
  assumes "small_limits b" and "within_limits b" and "\<not> affords (n + 2) 0 0 b"
  shows "fails_with (read_payload kind n s b) (overdrawn (n + 2) 0 0 b)"
proof -
  from assms(2,3) have "byte_limit b < bytes_used b + (n + 2)" by (simp add: affords_def within_limits_def)
  moreover from this have "consume_bytes b (n + 2) = Err (byte_refusal b)"
    using byte_budget.refuses [of b "n + 2"] assms(1) by simp
  ultimately show ?thesis by (simp add: read_payload_def fails_with_def overdrawn_def)
qed

section \<open>Values\<close>

definition refused :: "nat \<Rightarrow> RespValue \<Rightarrow> bool" where
  "refused d v \<longleftrightarrow> (\<forall>s b rest. small_limits b \<longrightarrow> within_limits b \<longrightarrow>
     \<not> affords (length (wire v)) (nodes v) (elements v) b \<longrightarrow>
     fails_with (read_value d (s\<lparr>pending := wire v @ rest\<rparr>) b) (overdrawn (length (wire v)) (nodes v) (elements v) b))"

lemma refusedD:
  "refused d v \<Longrightarrow> small_limits b \<Longrightarrow> within_limits b \<Longrightarrow> \<not> affords (length (wire v)) (nodes v) (elements v) b \<Longrightarrow>
     fails_with (read_value d (s\<lparr>pending := wire v @ rest\<rparr>) b) (overdrawn (length (wire v)) (nodes v) (elements v) b)"
  by (simp add: refused_def)

text \<open>Every value starts with a line.\<close>

lemma header_refused:
  assumes "d \<le> MAX_RESP_DEPTH" and "wire v = line prefix payload @ body" and "LF \<notin> set (prefix # payload)"
    and "small_limits b" and "within_limits b" and "\<not> affords (length payload + 3) 1 0 b"
  shows "fails_with (read_value d (s\<lparr>pending := wire v @ rest\<rparr>) b) (overdrawn (length (wire v)) (nodes v) (elements v) b)"
proof -
  have "1 \<le> nodes v" by (simp add: nodes.simps [of v])
  with read_header_refused [OF assms(3-6), where s = s and rest = "body @ rest"] assms(1,2)
  have "fails_with (read_header (s\<lparr>pending := wire v @ rest\<rparr>) b) (overdrawn (length (wire v)) (nodes v) (elements v) b)"
    by (auto intro: overdrawn_mono elim!: fails_with_mono simp: line_def)
  with assms(1) show ?thesis
    by (simp add: read_value.simps [of d] fails_with_then)
qed

lemma refused_line:
  assumes "d \<le> MAX_RESP_DEPTH" and "wire v = line prefix payload" and "LF \<notin> set (prefix # payload)" and "children v = []"
  shows "refused d v"
  unfolding refused_def
proof (intro allI impI)
  fix s b rest
  assume small: "small_limits b" and within: "within_limits b" and over: "\<not> affords (length (wire v)) (nodes v) (elements v) b"
  then have "\<not> affords (length payload + 3) 1 0 b" using leaf_shape [OF assms(4)] assms(2) by (simp add: line_def numeral_3_eq_3)
  with assms small within show "fails_with (read_value d (s\<lparr>pending := wire v @ rest\<rparr>) b)
      (overdrawn (length (wire v)) (nodes v) (elements v) b)"
    by (intro header_refused [where body = "[]"]) auto
qed


text \<open>A payload after its line.\<close>

lemma refused_blob:
  assumes "d \<le> MAX_RESP_DEPTH" and "length data \<le> MAX_RESP_BULK_LENGTH"
    and v: "v \<in> {Bulk (Some data), BlobError data, Verbatim data}"
  shows "refused d v"
  unfolding refused_def
proof (intro allI impI)
  fix s b rest
  assume small: "small_limits b" and within: "within_limits b" and over: "\<not> affords (length (wire v)) (nodes v) (elements v) b"
  define prefix where "prefix = hd (wire v)"
  let ?n = "show_nat (length data)" and ?r = "read_value d (s\<lparr>pending := wire v @ rest\<rparr>) b"
  have w: "wire v = line prefix ?n @ data @ crlf" and p: "prefix \<noteq> LF"
    using v by (auto simp: prefix_def blob_def line_def)
  have shape: "nodes v = 1" "elements v = 0" using leaf_shape [of v] v by auto
  have total: "length (wire v) = length ?n + 3 + (length data + 2)" by (simp add: w line_def)
  show "fails_with ?r (overdrawn (length (wire v)) (nodes v) (elements v) b)"
  proof (cases "affords (length ?n + 3) 1 0 b")
    case False
    with assms(1) w p small within show ?thesis by (intro header_refused) (auto simp: show_nat_no_lf)
  next
    case True
    let ?b = "spend (length ?n + 3) 1 0 b"
    have header: "read_header (s\<lparr>pending := wire v @ rest\<rparr>) b = Ok (prefix, ?n, s\<lparr>pending := data @ crlf @ rest\<rparr>, ?b)"
      unfolding w append_assoc using p small True by (intro read_header_line) (auto simp: show_nat_no_lf)
    have "\<not> affords (length data + 2) 0 0 ?b" using over by (simp add: shape total)
    from read_payload_refused [OF _ _ this] True small
    have payload: "fails_with (read_payload kind (length data) s' ?b) (overdrawn (length (wire v)) (nodes v) (elements v) b)" for kind s'
      by (auto simp: within_limits_spend shape total elim!: fails_with_mono overdrawn_mono)
    have deep: "\<not> MAX_RESP_DEPTH < d" using assms(1) by simp
    have range: "\<not> int (length data) < -1" "int (length data) \<noteq> -1" "\<not> int (length data) < 0"
      "\<not> MAX_RESP_BULK_LENGTH < length data" using assms(2) by linarith+
    note eval = read_value.simps [of d] deep header parse_number_length [OF assms(2)] as_usize_nat [OF assms(2)] range
    from v consider "v = Bulk (Some data)" | "v = BlobError data" | "v = Verbatim data" by blast
    then show ?thesis
    proof cases
      case 1
      then have "prefix = CHR ''$''" by (simp add: prefix_def blob_def line_def)
      with payload show ?thesis by (simp add: eval fails_with_then)
    next
      case 2
      then have "prefix = CHR ''!''" by (simp add: prefix_def blob_def line_def)
      with payload show ?thesis by (simp add: eval fails_with_then)
    next
      case 3
      then have "prefix = CHR ''=''" by (simp add: prefix_def blob_def line_def)
      with payload show ?thesis by (simp add: eval fails_with_then)
    qed
  qed
qed

section \<open>Lists and entries\<close>

text \<open>The children before the one that is refused are read back.\<close>

lemma read_values_refused:
  assumes "list_all (reads_back d) vs" and "list_all (refused d) vs" and "small_limits b" and "within_limits b"
    and "\<not> affords (length (wires vs)) (cost nodes vs) (cost elements vs) b"
  shows "fails_with (read_values d (length vs) (s\<lparr>pending := wires vs @ rest\<rparr>) b)
    (overdrawn (length (wires vs)) (cost nodes vs) (cost elements vs) b)"
  using assms
proof (induction vs arbitrary: b)
  case Nil
  then show ?case by (simp add: affords_def within_limits_def)
next
  case (Cons v vs)
  let ?b = "spend (length (wire v)) (nodes v) (elements v) b"
  show ?case
  proof (cases "affords (length (wire v)) (nodes v) (elements v) b")
    case True
    with Cons.prems have "read_value d (s\<lparr>pending := wire v @ wires vs @ rest\<rparr>) b = Ok (v, s\<lparr>pending := wires vs @ rest\<rparr>, ?b)"
      by (intro reads_backD) simp_all
    moreover have "fails_with (read_values d (length vs) (s\<lparr>pending := wires vs @ rest\<rparr>) ?b)
        (overdrawn (length (wires vs)) (cost nodes vs) (cost elements vs) ?b)"
      using Cons.prems True by (intro Cons.IH) (simp_all add: within_limits_spend)
    ultimately show ?thesis
      by (simp add: read_values.simps [of d "Suc (length vs)"] fails_with_then)
  next
    case False
    with Cons.prems have "fails_with (read_value d (s\<lparr>pending := wire v @ wires vs @ rest\<rparr>) b)
        (overdrawn (length (wire v)) (nodes v) (elements v) b)"
      by (intro refusedD) simp_all
    then have "fails_with (read_value d (s\<lparr>pending := wires (v # vs) @ rest\<rparr>) b)
        (overdrawn (length (wires (v # vs))) (cost nodes (v # vs)) (cost elements (v # vs)) b)"
      by (auto elim!: fails_with_mono overdrawn_mono)
    then show ?thesis by (simp add: read_values.simps [of d "Suc (length vs)"] fails_with_then)
  qed
qed


lemma read_entries_refused:
  assumes "list_all (reads_back d) (flat es)" and "list_all (refused d) (flat es)" and "small_limits b" and "within_limits b"
    and "\<not> affords (length (wires (flat es))) (cost nodes (flat es)) (cost elements (flat es)) b"
  shows "fails_with (read_entries d (length es) (s\<lparr>pending := wires (flat es) @ rest\<rparr>) b)
    (overdrawn (length (wires (flat es))) (cost nodes (flat es)) (cost elements (flat es)) b)"
  using assms
proof (induction es arbitrary: b)
  case Nil
  then show ?case by (simp add: affords_def within_limits_def)
next
  case (Cons e es)
  obtain k v where e: "e = (k, v)" by fastforce
  let ?all = "overdrawn (length (wires (flat (e # es)))) (cost nodes (flat (e # es))) (cost elements (flat (e # es))) b"
  let ?b1 = "spend (length (wire k)) (nodes k) (elements k) b"
  let ?b2 = "spend (length (wire v)) (nodes v) (elements v) ?b1"
  let ?s0 = "s\<lparr>pending := wire k @ wire v @ wires (flat es) @ rest\<rparr>" and ?s1 = "s\<lparr>pending := wire v @ wires (flat es) @ rest\<rparr>"
  have goal: "read_entries d (length (e # es)) (s\<lparr>pending := wires (flat (e # es)) @ rest\<rparr>) b =
      and_then (read_value d ?s0 b) (\<lambda>(key, s, budget).
        and_then (read_value d s budget) (\<lambda>(value, s, budget).
        and_then (read_entries d (length es) s budget) (\<lambda>(entries, s, budget). Ok ((key, value) # entries, s, budget))))"
    by (simp add: read_entries.simps [of d "Suc (length es)"] e)
  consider (key) "\<not> affords (length (wire k)) (nodes k) (elements k) b"
    | (val) "affords (length (wire k)) (nodes k) (elements k) b" "\<not> affords (length (wire v)) (nodes v) (elements v) ?b1"
    | (rest) "affords (length (wire k)) (nodes k) (elements k) b" "affords (length (wire v)) (nodes v) (elements v) ?b1"
    by blast
  then show ?case
  proof cases
    case key
    with Cons.prems have "fails_with (read_value d ?s0 b) (overdrawn (length (wire k)) (nodes k) (elements k) b)"
      by (intro refusedD) (simp_all add: e)
    then have "fails_with (read_value d ?s0 b) ?all" by (auto simp: e elim!: fails_with_mono overdrawn_mono)
    then show ?thesis unfolding goal by (rule fails_with_then)
  next
    case val
    with Cons.prems have "fails_with (read_value d ?s1 ?b1) (overdrawn (length (wire v)) (nodes v) (elements v) ?b1)"
      by (intro refusedD) (simp_all add: e within_limits_spend)
    then have "fails_with (read_value d ?s1 ?b1) ?all" by (auto simp: e elim!: fails_with_mono overdrawn_mono)
    moreover have "read_value d ?s0 b = Ok (k, ?s1, ?b1)" using Cons.prems val by (intro reads_backD) (simp_all add: e)
    ultimately show ?thesis unfolding goal by (simp add: fails_with_then)
  next
    case rest
    have "read_value d ?s0 b = Ok (k, ?s1, ?b1)" using Cons.prems rest by (intro reads_backD) (simp_all add: e)
    moreover have "read_value d ?s1 ?b1 = Ok (v, s\<lparr>pending := wires (flat es) @ rest\<rparr>, ?b2)"
      using Cons.prems rest by (intro reads_backD) (simp_all add: e)
    moreover have "fails_with (read_entries d (length es) (s\<lparr>pending := wires (flat es) @ rest\<rparr>) ?b2)
        (overdrawn (length (wires (flat es))) (cost nodes (flat es)) (cost elements (flat es)) ?b2)"
      using Cons.prems rest by (intro Cons.IH) (simp_all add: e within_limits_spend add.assoc)
    then have "fails_with (read_entries d (length es) (s\<lparr>pending := wires (flat es) @ rest\<rparr>) ?b2) ?all"
      by (simp add: e add.assoc)
    ultimately show ?thesis unfolding goal by (simp add: fails_with_then)
  qed
qed


section \<open>Aggregates\<close>

lemma refused_aggregate:
  assumes "admissible v" and "d \<le> MAX_RESP_DEPTH" and read: "list_all (reads_back (d + 1)) (children v)"
    and sub: "list_all (refused (d + 1)) (children v)" and v: "v \<in> {Array (Some vs), Set vs, Push vs, Map es}"
  shows "refused d v"
  unfolding refused_def
proof (intro allI impI)
  fix s b rest
  assume small: "small_limits b" and within: "within_limits b" and over: "\<not> affords (length (wire v)) (nodes v) (elements v) b"
  define n where "n = (if v = Map es then length es else length vs)"
  define prefix where "prefix = hd (wire v)"
  let ?cs = "children v" and ?h = "length (show_nat n) + 3" and ?r = "read_value d (s\<lparr>pending := wire v @ rest\<rparr>) b"
  let ?all = "overdrawn (length (wire v)) (nodes v) (elements v) b"
  have n: "n \<le> MAX_RESP_ARRAY_LENGTH" using assms(1) v by (auto simp: n_def)
  then have n': "n \<le> MAX_RESP_BULK_LENGTH" by (simp add: limits)
  have w: "wire v = line prefix (show_nat n) @ wires ?cs" and p: "prefix \<noteq> LF"
    using v by (auto simp: n_def prefix_def wire_entries_flat line_def)
  have total_length: "length (wire v) = ?h + length (wires ?cs)" by (simp add: w line_def)
  let ?b1 = "spend ?h 1 0 b"
  let ?b2 = "spend ?h 1 (length ?cs) b"
  show "fails_with ?r ?all"
  proof (cases "affords ?h 1 0 b")
    case False
    with assms(2) w p small within show ?thesis by (intro header_refused) (auto simp: show_nat_no_lf)
  next
    case True
    have header: "read_header (s\<lparr>pending := wire v @ rest\<rparr>) b = Ok (prefix, show_nat n, s\<lparr>pending := wires ?cs @ rest\<rparr>, ?b1)"
      unfolding w append_assoc using p small True by (intro read_header_line) (auto simp: show_nat_no_lf)
    have deep: "\<not> MAX_RESP_DEPTH < d" using assms(2) by simp
    have range: "int n \<noteq> -1" "\<not> int n < -1" "\<not> int n < 0" "\<not> MAX_RESP_ARRAY_LENGTH < n" using n by simp_all
    note eval = header deep parse_number_length [OF n'] as_usize_nat [OF n'] range fallible_simps
    let ?s = "s\<lparr>pending := wires ?cs @ rest\<rparr>"
    from v consider (list) k where "?r = and_then (fallible (reserve_elements ?b1 (length ?cs)))
        (\<lambda>b. and_then (read_values (d + 1) (length ?cs) ?s b) k)"
      | (map) k where "?cs = flat es" "?r = and_then (fallible (reserve_elements ?b1 (length ?cs)))
        (\<lambda>b. and_then (read_entries (d + 1) (length es) ?s b) k)"
    proof -
      consider "v = Array (Some vs)" | "v = Set vs" | "v = Push vs" | "v = Map es" using v by blast
      then show thesis
      proof cases
        case 1
        then have "n = length vs" "?cs = vs" "prefix = CHR ''*''" by (simp_all add: n_def prefix_def line_def)
        then show thesis using eval 1 by (intro list) (simp add: read_value.simps [of d])
      next
        case 2
        then have "n = length vs" "?cs = vs" "prefix = CHR ''~''" by (simp_all add: n_def prefix_def line_def)
        then show thesis using eval 2 by (intro list) (simp add: read_value.simps [of d])
      next
        case 3
        then have "n = length vs" "?cs = vs" "prefix = CHR ''>''" by (simp_all add: n_def prefix_def line_def)
        then show thesis using eval 3 by (intro list) (simp add: read_value.simps [of d])
      next
        case 4
        then have "n = length es" "?cs = flat es" "prefix = CHR ''%''" by (simp_all add: n_def prefix_def line_def)
        then show thesis using eval 4 by (intro map) (simp_all add: read_value.simps [of d] mult.commute)
      qed
    qed
    note run = this
    show ?thesis
    proof (cases "element_limit b < elements_used b + length ?cs")
      case True
      then have "reserve_elements ?b1 (length ?cs) = Err (element_refusal b)"
        using element_budget.refuses [of ?b1 "length ?cs"] small by (simp add: element_refusal_def)
      then have "?r = Err (Fail (element_refusal b))" by (cases rule: run) simp_all
      with True show ?thesis by (simp add: fails_with_def overdrawn_def aggregate_shape)
    next
      case False
      then have reserve: "reserve_elements ?b1 (length ?cs) = Ok ?b2" using small by (simp add: reserve_elements_Ok)
      have within2: "within_limits ?b2" using True False by (simp add: within_limits_spend affords_def)
      have over2: "\<not> affords (length (wires ?cs)) (cost nodes ?cs) (cost elements ?cs) ?b2"
        using over by (simp add: total_length aggregate_shape)
      have total: "overdrawn (length (wires ?cs)) (cost nodes ?cs) (cost elements ?cs) ?b2 = ?all"
        by (simp add: total_length aggregate_shape)
      from run show ?thesis
      proof cases
        case (list k)
        have "fails_with (read_values (d + 1) (length ?cs) ?s ?b2) ?all"
          using read_values_refused [OF read sub _ within2 over2, where s = s and rest = rest] small unfolding total by simp
        then show ?thesis unfolding list reserve fallible_simps and_then.simps by (rule fails_with_then)
      next
        case (map k)
        have "fails_with (read_entries (d + 1) (length es) ?s ?b2) ?all"
          using read_entries_refused [where d = "d + 1" and es = es and b = ?b2 and s = s and rest = rest] read sub within2 over2 small
          unfolding total [symmetric] map(1) by simp
        then show ?thesis unfolding map(2) reserve fallible_simps and_then.simps by (rule fails_with_then)
      qed
    qed
  qed
qed

lemma refused_leaf:
  assumes "children v = []" and "admissible v" and "d \<le> MAX_RESP_DEPTH" and "\<forall>vs. v \<noteq> Array (Some vs)"
    and "\<forall>es. v \<noteq> Map es" and "\<forall>vs. v \<noteq> Set vs" and "\<forall>vs. v \<noteq> Push vs"
  shows "refused d v"
proof (cases "\<exists>data. v \<in> {Bulk (Some data), BlobError data, Verbatim data}")
  case True
  with assms(2,3) show ?thesis by (auto intro!: refused_blob)
next
  case False
  have "\<exists>prefix payload. wire v = line prefix payload \<and> LF \<notin> set (prefix # payload)"
    using False assms(2,4-7) show_int_no_lf
    by (cases v rule: wire.cases) (auto simp: text_line_def line_def)
  with assms(1,3) refused_line show ?thesis by blast
qed

lemma decodable_refused: "decodable v \<Longrightarrow> d + height v \<le> MAX_RESP_DEPTH \<Longrightarrow> refused d v"
proof (induction v arbitrary: d rule: nodes.induct)
  case (1 v)
  have adm: "admissible v" and kids: "list_all decodable (children v)"
    using "1.prems"(1) decodable_iff [of v] by simp_all
  have d: "d \<le> MAX_RESP_DEPTH" using "1.prems"(2) by simp
  have deep: "d + 1 + height c \<le> MAX_RESP_DEPTH" if "c \<in> set (children v)" for c
    using "1.prems"(2) that height_le_iff [of v "height v"] by fastforce
  have read: "list_all (reads_back (d + 1)) (children v)" and sub: "list_all (refused (d + 1)) (children v)"
    using "1.IH" kids deep decodable_reads_back by (auto simp: list_all_iff)
  show ?case
  proof (cases "children v = [] \<and> (\<forall>vs. v \<noteq> Array (Some vs)) \<and> (\<forall>es. v \<noteq> Map es) \<and>
      (\<forall>vs. v \<noteq> Set vs) \<and> (\<forall>vs. v \<noteq> Push vs)")
    case True
    with adm d show ?thesis by (intro refused_leaf) blast+
  next
    case False
    then obtain vs es where "v \<in> {Array (Some vs), Set vs, Push vs, Map es}"
      by (cases v rule: children.cases) auto
    with adm d read sub show ?thesis by (rule refused_aggregate)
  qed
qed

section \<open>What the budget decides\<close>

lemma read_reply_over_budget:
  assumes "decodable v" and "height v \<le> MAX_RESP_DEPTH" and "n < USIZE_MAX" and "\<not> fits_budget n v"
  shows "fails_with (read_reply n (s\<lparr>pending := wire v @ rest\<rparr>)) (overdrawn (length (wire v)) (nodes v) (elements v) (new_budget n))"
proof -
  have "\<not> affords (length (wire v)) (nodes v) (elements v) (new_budget n)"
    using assms by (auto simp: fits_budget_def affords_def new_budget_def with_limits_def)
  from refusedD [OF decodable_refused [of v 0] _ _ this] assms(1-3) show ?thesis
    unfolding read_reply_def by (intro fails_with_then) simp
qed

lemma read_reply_too_long:
  assumes "decodable v" and "height v \<le> MAX_RESP_DEPTH" and "nodes v \<le> MAX_RESPONSE_NODES"
    and "elements v \<le> MAX_RESPONSE_ELEMENTS" and "n < length (wire v)" and "n < USIZE_MAX"
  shows "read_reply n (s\<lparr>pending := wire v @ rest\<rparr>) = Err (Fail (byte_refusal (new_budget n)))"
proof -
  have "\<not> fits_budget n v" using assms(5) by (simp add: fits_budget_def)
  from read_reply_over_budget [OF assms(1,2,6) this, where s = s and rest = rest] assms(3,4) show ?thesis
    by (auto simp: fails_with_def overdrawn_def new_budget_def with_limits_def)
qed



end
