(* ===== verification/Base64.thy ===== *)
theory Base64
  imports Resp_Limits
begin

unbundle bit_operations_syntax

text \<open>
  The base64 encoder of \<open>resp.rs\<close>, used for bulk strings that are not UTF-8, with a decoder as its
  specification.  Bytes are handled through their codes with the code's shifts and masks; no
  shift leaves the eight bits of a byte, so the codes need no truncation.
\<close>

section \<open>The encoder\<close>

definition ALPHABET :: rstring where
  "ALPHABET = ''ABCDEFGHIJKLMNOPQRSTUVWXYZabcdefghijklmnopqrstuvwxyz0123456789+/''"

definition base64_encoded_length :: "nat \<Rightarrow> (nat, rstring) result" where
  "base64_encoded_length len =
     (if len + 2 \<le> USIZE_MAX \<and> (len + 2) div 3 * 4 \<le> USIZE_MAX then Ok ((len + 2) div 3 * 4)
      else Err ''binary response is too large to encode as base64'')"

text \<open>The four characters of one chunk; the caller never passes an empty one.\<close>

definition base64_quad :: "bytes \<Rightarrow> rstring" where
  "base64_quad chunk =
     (let first = code (chunk ! 0);
          second = (case get chunk 1 of Some c \<Rightarrow> code c | None \<Rightarrow> 0);
          third = (case get chunk 2 of Some c \<Rightarrow> code c | None \<Rightarrow> 0)
      in [ALPHABET ! drop_bit 2 first,
          ALPHABET ! (push_bit 4 (first AND 0x03) OR drop_bit 4 second),
          if length chunk > 1 then ALPHABET ! (push_bit 2 (second AND 0x0F) OR drop_bit 6 third) else CHR ''='',
          if length chunk > 2 then ALPHABET ! (third AND 0x3F) else CHR ''=''])"

text \<open>\<open>bytes.chunks(3)\<close>.\<close>

fun base64_encode :: "bytes \<Rightarrow> rstring" where
  "base64_encode [] = []"
| "base64_encode (b # bs) = base64_quad (take 3 (b # bs)) @ base64_encode (drop 3 (b # bs))"

section \<open>The decoder, as the specification\<close>

definition sextet :: "u8 \<Rightarrow> nat option" where
  "sextet c =
     (let n = code c in
      if 65 \<le> n \<and> n \<le> 90 then Some (n - 65)
      else if 97 \<le> n \<and> n \<le> 122 then Some (n - 71)
      else if 48 \<le> n \<and> n \<le> 57 then Some (n + 4)
      else if n = 43 then Some 62
      else if n = 47 then Some 63
      else None)"

fun base64_decode :: "rstring \<Rightarrow> bytes option" where
  "base64_decode [] = Some []"
| "base64_decode [a, b, c, d] =
     (case (sextet a, sextet b, sextet c, sextet d) of
        (Some a', Some b', Some c', Some d') \<Rightarrow>
          Some [char_of (a' * 4 + b' div 16), char_of (b' mod 16 * 16 + c' div 4), char_of (c' mod 4 * 64 + d')]
      | (Some a', Some b', Some c', None) \<Rightarrow>
          if d = CHR ''='' then Some [char_of (a' * 4 + b' div 16), char_of (b' mod 16 * 16 + c' div 4)] else None
      | (Some a', Some b', None, None) \<Rightarrow>
          if c = CHR ''='' \<and> d = CHR ''='' then Some [char_of (a' * 4 + b' div 16)] else None
      | _ \<Rightarrow> None)"
| "base64_decode (a # b # c # d # rest) =
     (case (sextet a, sextet b, sextet c, sextet d) of
        (Some a', Some b', Some c', Some d') \<Rightarrow>
          map_option ((@) [char_of (a' * 4 + b' div 16), char_of (b' mod 16 * 16 + c' div 4), char_of (c' mod 4 * 64 + d')])
            (base64_decode rest)
      | _ \<Rightarrow> None)"
| "base64_decode _ = None"

section \<open>Shifts and masks\<close>

lemma length_ALPHABET: "length ALPHABET = 64"
  by (simp add: ALPHABET_def)

lemma sextet_alphabet:
  assumes "n < 64"
  shows "sextet (ALPHABET ! n) = Some n"
proof -
  have "map sextet ALPHABET = map Some [0..<64]" by (simp add: ALPHABET_def sextet_def upt_rec)
  then have "map sextet ALPHABET ! n = map Some [0..<64] ! n" by (rule arg_cong)
  with assms show ?thesis by (simp add: length_ALPHABET del: upt_rec_numeral)
qed

lemma sextet_pad: "sextet (CHR ''='') = None"
  by code_simp

lemma push_or:
  "x < 4 \<Longrightarrow> y < 16 \<Longrightarrow> push_bit 4 x OR y = x * 16 + y"
  "x < 16 \<Longrightarrow> y < 4 \<Longrightarrow> push_bit 2 x OR y = x * 4 + y" for x y :: nat
proof -
  have "list_all (\<lambda>x. list_all (\<lambda>y. push_bit 4 x OR y = x * 16 + y) [0..<16]) [0..<4 :: nat]" by code_simp
  then have "\<forall>x \<in> {0..<4}. \<forall>y \<in> {0..<16}. push_bit 4 x OR y = x * 16 + (y :: nat)" unfolding list_all_iff set_upt .
  then show "x < 4 \<Longrightarrow> y < 16 \<Longrightarrow> push_bit 4 x OR y = x * 16 + y" by simp
  have "list_all (\<lambda>x. list_all (\<lambda>y. push_bit 2 x OR y = x * 4 + y) [0..<4]) [0..<16 :: nat]" by code_simp
  then have "\<forall>x \<in> {0..<16}. \<forall>y \<in> {0..<4}. push_bit 2 x OR y = x * 4 + (y :: nat)" unfolding list_all_iff set_upt .
  then show "x < 16 \<Longrightarrow> y < 4 \<Longrightarrow> push_bit 2 x OR y = x * 4 + y" by simp
qed

lemma masks: "n AND 0x03 = n mod 4" "n AND 0x0F = n mod 16" "n AND 0x3F = n mod 64" for n :: nat
  using take_bit_eq_mask [of 2 n] take_bit_eq_mask [of 4 n] take_bit_eq_mask [of 6 n]
  by (simp_all add: take_bit_eq_mod mask_eq_exp_minus_1)

lemma code_bounds: "code c div 4 < 64" "code c div 16 < 16" "code c div 64 < 4"
  using code_lt_256 [of c] by linarith+

lemma quad_1: "base64_quad [a] =
    [ALPHABET ! (code a div 4), ALPHABET ! (code a mod 4 * 16), CHR ''='', CHR ''='']"
  using push_or(1) [of "code a mod 4" 0] by (simp add: base64_quad_def get_def drop_bit_eq_div masks Let_def)

lemma quad_2: "base64_quad [a, b] =
    [ALPHABET ! (code a div 4), ALPHABET ! (code a mod 4 * 16 + code b div 16),
     ALPHABET ! (code b mod 16 * 4), CHR ''='']"
  using push_or(1) [of "code a mod 4" "code b div 16"] push_or(2) [of "code b mod 16" 0] code_bounds(2) [of b]
  by (simp add: base64_quad_def get_def drop_bit_eq_div masks Let_def)

lemma quad_3: "base64_quad [a, b, c] =
    [ALPHABET ! (code a div 4), ALPHABET ! (code a mod 4 * 16 + code b div 16),
     ALPHABET ! (code b mod 16 * 4 + code c div 64), ALPHABET ! (code c mod 64)]"
  using push_or(1) [of "code a mod 4" "code b div 16"] push_or(2) [of "code b mod 16" "code c div 64"]
    code_bounds(2) [of b] code_bounds(3) [of c]
  by (simp add: base64_quad_def get_def drop_bit_eq_div masks Let_def)

section \<open>Decoding what was encoded\<close>

lemma rebuild:
  fixes a b c :: nat
  assumes "b < 256" and "c < 256"
  shows "a div 4 * 4 + (a mod 4 * 16 + b div 16) div 16 = a"
    and "(a mod 4 * 16 + b div 16) mod 16 * 16 + (b mod 16 * 4 + c div 64) div 4 = b"
    and "(b mod 16 * 4 + c div 64) mod 4 * 64 + c mod 64 = c"
proof -
  have q: "b div 16 < 16" "c div 64 < 4" using assms by linarith+
  then have parts: "(a mod 4 * 16 + b div 16) div 16 = a mod 4" "(a mod 4 * 16 + b div 16) mod 16 = b div 16"
    "(b mod 16 * 4 + c div 64) div 4 = b mod 16" "(b mod 16 * 4 + c div 64) mod 4 = c div 64"
    by simp_all
  show "a div 4 * 4 + (a mod 4 * 16 + b div 16) div 16 = a"
    "(a mod 4 * 16 + b div 16) mod 16 * 16 + (b mod 16 * 4 + c div 64) div 4 = b"
    "(b mod 16 * 4 + c div 64) mod 4 * 64 + c mod 64 = c"
    unfolding parts by (rule div_mult_mod_eq)+
qed

lemma indices: "code a div 4 < 64" "code a mod 4 * 16 + code b div 16 < 64"
  "code b mod 16 * 4 + code c div 64 < 64" "code c mod 64 < 64"
proof -
  have "code a mod 4 < 4" "code b mod 16 < 16" by simp_all
  with code_bounds [of a] code_bounds [of b] code_bounds [of c]
  show "code a div 4 < 64" "code a mod 4 * 16 + code b div 16 < 64"
    "code b mod 16 * 4 + code c div 64 < 64" "code c mod 64 < 64" by linarith+
qed

lemmas quad_indices = indices [THEN sextet_alphabet]

lemma quad_pads: "sextet (ALPHABET ! (code a mod 4 * 16)) = Some (code a mod 4 * 16)"
  "sextet (ALPHABET ! (code a mod 16 * 4)) = Some (code a mod 16 * 4)"
  using quad_indices(2) [of a "CHR 0x00"] quad_indices(3) [of a "CHR 0x00"] by simp_all

lemma decode_quad:
  "base64_decode (base64_quad [a]) = Some [a]"
  "base64_decode (base64_quad [a, b]) = Some [a, b]"
  "base64_decode (base64_quad [a, b, c]) = Some [a, b, c]"
proof -
  have zero: "(0 :: nat) < 256" by simp
  show "base64_decode (base64_quad [a]) = Some [a]"
    using rebuild(1) [OF zero zero, of "code a"] by (simp add: quad_1 quad_indices quad_pads sextet_pad)
  show "base64_decode (base64_quad [a, b]) = Some [a, b]"
    using rebuild(1,2) [OF code_lt_256 [of b] zero, of "code a"]
    by (simp add: quad_2 quad_indices quad_pads sextet_pad)
  show "base64_decode (base64_quad [a, b, c]) = Some [a, b, c]"
    using rebuild(1,2) [OF code_lt_256 [of b] code_lt_256 [of c], of "code a"]
      rebuild(3) [OF code_lt_256 [of b] code_lt_256 [of c]]
    by (simp add: quad_3 quad_indices)
qed

lemma decode_quad_append:
  "base64_decode (base64_quad [a, b, c] @ rest) = map_option ((@) [a, b, c]) (base64_decode rest)"
proof (cases rest)
  case Nil
  then show ?thesis by (simp add: decode_quad)
next
  case (Cons x xs)
  then show ?thesis
    using rebuild(1,2) [OF code_lt_256 [of b] code_lt_256 [of c], of "code a"]
      rebuild(3) [OF code_lt_256 [of b] code_lt_256 [of c]]
    by (simp add: quad_3 quad_indices)
qed

fun in_threes :: "'a list \<Rightarrow> unit" where
  "in_threes (a # b # c # rest) = in_threes rest"
| "in_threes [] = ()"
| "in_threes [a] = ()"
| "in_threes [a, b] = ()"

lemma base64_length: "length (base64_encode bs) = (length bs + 2) div 3 * 4"
proof (induction bs rule: in_threes.induct)
  case (1 a b c rest)
  have "length (a # b # c # rest) + 2 = length rest + 2 + 3" by simp
  then have "(length (a # b # c # rest) + 2) div 3 * 4 = 4 + (length rest + 2) div 3 * 4"
    by (simp only: div_add_self2) simp
  moreover have "base64_encode (a # b # c # rest) = base64_quad [a, b, c] @ base64_encode rest" by simp
  moreover have "length (base64_quad [a, b, c]) = 4" by (simp add: quad_3)
  ultimately show ?case using 1 by (simp only: length_append)
qed (simp_all add: quad_1 quad_2)

lemma base64_decode_encode: "base64_decode (base64_encode bs) = Some bs"
proof (induction bs rule: in_threes.induct)
  case (1 a b c rest)
  have "base64_encode (a # b # c # rest) = base64_quad [a, b, c] @ base64_encode rest" by simp
  with 1 show ?case by (simp only: decode_quad_append) simp
qed (simp_all add: decode_quad)

text \<open>No character of the text is special anywhere: letters, digits, plus, slash and the pad.\<close>

definition base64_char :: "u8 \<Rightarrow> bool" where
  "base64_char c \<longleftrightarrow> c \<in> set (CHR ''='' # ALPHABET)"

lemma base64_chars: "c \<in> set (base64_encode bs) \<Longrightarrow> base64_char c"
proof (induction bs rule: in_threes.induct)
  case (1 x y z rest)
  have "base64_encode (x # y # z # rest) = base64_quad [x, y, z] @ base64_encode rest" by simp
  then have "c \<in> set (base64_quad [x, y, z]) \<or> c \<in> set (base64_encode rest)"
    using "1.prems" by (simp only: set_append Un_iff)
  then show ?case
    using "1.IH" indices by (auto simp: quad_3 base64_char_def length_ALPHABET)
next
  case (4 x y)
  then show ?case using indices(2) [of x y] indices(1) [of x] indices(3) [of y "CHR 0x00"]
    by (auto simp: quad_2 base64_char_def length_ALPHABET)
next
  case (3 x)
  then show ?case using indices(2) [of x "CHR 0x00"] indices(1) [of x]
    by (auto simp: quad_1 base64_char_def length_ALPHABET)
qed simp

text \<open>The base64 text of every byte string decodes to it, and has exactly the length that was charged
  for it before it was built.\<close>

theorem base64_roundtrip:
  "base64_decode (base64_encode bs) = Some bs \<and> length (base64_encode bs) = (length bs + 2) div 3 * 4"
  by (simp only: base64_decode_encode base64_length)

end
