(* ===== verification/Resp_Json.thy ===== *)
theory Resp_Json
  imports Resp_Roundtrip Base64 "HOL-Library.List_Lexorder"
begin

text \<open>
  The conversion of a RESP reply to JSON for the HTTP API (\<open>to_json_with_budget\<close> and its helpers in
  \<open>resp.rs\<close>), with the \<open>JsonBudget\<close> it charges, and the accessors \<open>as_string\<close> and \<open>as_integer\<close>.

  \<open>serde_json\<close> is not part of the repository.  Its \<open>Value\<close> is the data type \<open>json\<close>; its map is kept
  ordered by key and keeps the last value of a key; its text serializer is the parameter
  \<open>to_text\<close>, of which the size theorem assumes the compact JSON format the library documents.
\<close>

datatype json =
    JNull
  | JBool bool
  | JInt int
  | JFloat f64
  | JString rstring
  | JArray "json list"
  | JObject "(rstring \<times> json) list"

text \<open>A \<open>BTreeMap\<close> keyed by strings: ordered by key, one value per key.\<close>

fun object_insert :: "rstring \<Rightarrow> 'v \<Rightarrow> (rstring \<times> 'v) list \<Rightarrow> (rstring \<times> 'v) list" where
  "object_insert k v [] = [(k, v)]"
| "object_insert k v ((k', v') # es) =
     (if k = k' then (k, v) # es else if k < k' then (k, v) # (k', v') # es
      else (k', v') # object_insert k v es)"

section \<open>\<open>JsonBudget\<close>\<close>

record JsonBudget =
  json_limit :: nat
  json_used :: nat

definition new_json_budget :: "nat \<Rightarrow> JsonBudget" where
  "new_json_budget limit = \<lparr>json_limit = limit, json_used = 0\<rparr>"

definition json_refusal :: "JsonBudget \<Rightarrow> rstring" where
  "json_refusal b =
     ''JSON conversion exceeds the playground output budget of '' @ show_nat (json_limit b) @ '' bytes''"

definition consume :: "JsonBudget \<Rightarrow> nat \<Rightarrow> (JsonBudget, rstring) result" where
  "consume b n =
     (let next = saturating_add (json_used b) n in
      if next > json_limit b then Err (json_refusal b) else Ok (b\<lparr>json_used := next\<rparr>))"

interpretation json_budget: meter consume "\<lambda>n. n" json_used json_limit json_refusal
    "\<lambda>b. json_limit b < USIZE_MAX"
  by unfold_locales
    (auto simp: consume_def json_refusal_def saturating_add_def Let_def split: if_splits)

text \<open>The bytes one byte of a string takes in JSON text.\<close>

definition escaped_length :: "u8 \<Rightarrow> nat" where
  "escaped_length c =
     (if code c \<in> {34, 92, 8, 9, 10, 12, 13} then 2 else if code c < 32 then 6 else 1)"

fun json_string_length :: "nat \<Rightarrow> rstring \<Rightarrow> nat" where
  "json_string_length encoded [] = encoded"
| "json_string_length encoded (c # cs) =
     json_string_length (saturating_add encoded (escaped_length c)) cs"

definition consume_json_string :: "JsonBudget \<Rightarrow> rstring \<Rightarrow> (JsonBudget, rstring) result" where
  "consume_json_string b s = consume b (json_string_length 2 s)"

section \<open>\<open>to_json_budgeted\<close>\<close>

definition BASE64_PREFIX :: rstring where
  "BASE64_PREFIX = ''{\"encoding\":\"base64\",\"data\":\"''"

definition BASE64_SUFFIX :: rstring where
  "BASE64_SUFFIX = ''\"}''"

definition bulk_to_json :: "bytes \<Rightarrow> JsonBudget \<Rightarrow> (json \<times> JsonBudget, rstring) result" where
  "bulk_to_json data b =
     (case from_utf8 data of
        Some s \<Rightarrow> and_then (consume_json_string b s) (\<lambda>b. Ok (JString s, b))
      | None \<Rightarrow>
          and_then (base64_encoded_length (length data)) (\<lambda>encoded_length.
          and_then (consume b (saturating_add (saturating_add (length BASE64_PREFIX) encoded_length)
                                 (length BASE64_SUFFIX))) (\<lambda>b.
            Ok (JObject (object_insert ''data'' (JString (base64_encode data))
                  (object_insert ''encoding'' (JString ''base64'') [])), b))))"

text \<open>
  The text of a verbatim string without its \<open>txt:\<close> prefix.  The code asks for the character at
  byte 3; a byte that is a colon is a character of its own.
\<close>

definition verbatim_text :: "rstring \<Rightarrow> rstring" where
  "verbatim_text s = (if get s 3 = Some (CHR '':'') then drop 4 s else s)"

text \<open>A key that is no string is replaced by its JSON text.\<close>

definition key_text :: "(json \<Rightarrow> (rstring, rstring) result) \<Rightarrow> json \<Rightarrow> (rstring, rstring) result" where
  "key_text to_text j =
     (case j of
        JString s \<Rightarrow> Ok s
      | _ \<Rightarrow> map_err (\<lambda>e. ''failed to serialize RESP map key: '' @ e) (to_text j))"

function to_json_budgeted ::
    "(json \<Rightarrow> (rstring, rstring) result) \<Rightarrow> RespValue \<Rightarrow> JsonBudget \<Rightarrow> (json \<times> JsonBudget, rstring) result"
  and values_to_json ::
    "(json \<Rightarrow> (rstring, rstring) result) \<Rightarrow> nat \<Rightarrow> RespValue list \<Rightarrow> JsonBudget \<Rightarrow> (json list \<times> JsonBudget, rstring) result"
  and entries_to_json ::
    "(json \<Rightarrow> (rstring, rstring) result) \<Rightarrow> nat \<Rightarrow> (RespValue \<times> RespValue) list \<Rightarrow> (rstring \<times> json) list \<Rightarrow> JsonBudget \<Rightarrow>
     ((rstring \<times> json) list \<times> JsonBudget, rstring) result" where
  "to_json_budgeted to_text (Simple value) b = and_then (consume_json_string b value) (\<lambda>b. Ok (JString value, b))"
| "to_json_budgeted to_text (Error error) b = Err error"
| "to_json_budgeted to_text (Integer value) b =
     and_then (consume b (length (show_int value))) (\<lambda>b. Ok (JInt value, b))"
| "to_json_budgeted to_text (Bulk None) b = and_then (consume b 4) (\<lambda>b. Ok (JNull, b))"
| "to_json_budgeted to_text (Array None) b = and_then (consume b 4) (\<lambda>b. Ok (JNull, b))"
| "to_json_budgeted to_text Null b = and_then (consume b 4) (\<lambda>b. Ok (JNull, b))"
| "to_json_budgeted to_text (Bulk (Some value)) b = bulk_to_json value b"
| "to_json_budgeted to_text (Array (Some values)) b =
     and_then (consume b 2) (\<lambda>b. and_then (values_to_json to_text 0 values b) (\<lambda>(js, b). Ok (JArray js, b)))"
| "to_json_budgeted to_text (Set values) b =
     and_then (consume b 2) (\<lambda>b. and_then (values_to_json to_text 0 values b) (\<lambda>(js, b). Ok (JArray js, b)))"
| "to_json_budgeted to_text (Push values) b =
     and_then (consume b 2) (\<lambda>b. and_then (values_to_json to_text 0 values b) (\<lambda>(js, b). Ok (JArray js, b)))"
| "to_json_budgeted to_text (Boolean value) b =
     and_then (consume b (if value then 4 else 5)) (\<lambda>b. Ok (JBool value, b))"
| "to_json_budgeted to_text (Double value) b =
     (case parse_f64 value of
        Some parsed \<Rightarrow>
          if f64_is_finite parsed then and_then (consume b (length value)) (\<lambda>b. Ok (JFloat parsed, b))
          else and_then (consume_json_string b value) (\<lambda>b. Ok (JString value, b))
      | None \<Rightarrow> and_then (consume_json_string b value) (\<lambda>b. Ok (JString value, b)))"
| "to_json_budgeted to_text (BigNumber value) b = and_then (consume_json_string b value) (\<lambda>b. Ok (JString value, b))"
| "to_json_budgeted to_text (BlobError error) b = Err (from_utf8_lossy error)"
| "to_json_budgeted to_text (Verbatim data) b =
     (case from_utf8 data of
        None \<Rightarrow> Err ''RESP verbatim string was not valid UTF-8''
      | Some s \<Rightarrow> and_then (consume_json_string b (verbatim_text s)) (\<lambda>b. Ok (JString (verbatim_text s), b)))"
| "to_json_budgeted to_text (Map entries) b =
     and_then (consume b 2) (\<lambda>b. and_then (entries_to_json to_text 0 entries [] b) (\<lambda>(object, b). Ok (JObject object, b)))"
| "values_to_json to_text index [] b = Ok ([], b)"
| "values_to_json to_text index (value # values) b =
     and_then (if index > 0 then consume b 1 else Ok b) (\<lambda>b.
     and_then (to_json_budgeted to_text value b) (\<lambda>(j, b).
     and_then (values_to_json to_text (index + 1) values b) (\<lambda>(js, b). Ok (j # js, b))))"
| "entries_to_json to_text index [] object b = Ok (object, b)"
| "entries_to_json to_text index ((key, value) # entries) object b =
     and_then (if index > 0 then consume b 1 else Ok b) (\<lambda>b.
     and_then (to_json_budgeted to_text key b) (\<lambda>(key, b).
     and_then (key_text to_text key) (\<lambda>key.
     and_then (consume_json_string b key) (\<lambda>b.
     and_then (consume b 1) (\<lambda>b.
     and_then (to_json_budgeted to_text value b) (\<lambda>(j, b).
       entries_to_json to_text (index + 1) entries (object_insert key j object) b))))))"
  by pat_completeness auto
termination
  by (relation "measure (\<lambda>x. case x of
        Inl (_, v, _) \<Rightarrow> 2 * size v
      | Inr (Inl (_, _, vs, _)) \<Rightarrow> Suc (2 * size_list size vs)
      | Inr (Inr (_, _, es, _, _)) \<Rightarrow> Suc (2 * size_list (size_prod size size) es))")
    auto

definition to_json_with_budget ::
    "(json \<Rightarrow> (rstring, rstring) result) \<Rightarrow> RespValue \<Rightarrow> nat \<Rightarrow> (json, rstring) result" where
  "to_json_with_budget to_text value limit =
     and_then (to_json_budgeted to_text value (new_json_budget limit)) (\<lambda>(j, _). Ok j)"

definition to_json :: "(json \<Rightarrow> (rstring, rstring) result) \<Rightarrow> RespValue \<Rightarrow> (json, rstring) result" where
  "to_json to_text value = to_json_with_budget to_text value MAX_RESPONSE_BYTES"

section \<open>Accessors\<close>

text \<open>\<open>show_debug\<close> stands for the derived \<open>Debug\<close> text of an unexpected reply.\<close>

definition unexpected :: "(RespValue \<Rightarrow> rstring) \<Rightarrow> rstring \<Rightarrow> RespValue \<Rightarrow> rstring" where
  "unexpected show_debug command v = command @ '' returned unexpected response: '' @ show_debug v"

definition as_string :: "(RespValue \<Rightarrow> rstring) \<Rightarrow> RespValue \<Rightarrow> rstring \<Rightarrow> (rstring, rstring) result" where
  "as_string show_debug v command =
     (case v of
        Simple s \<Rightarrow> Ok s
      | Verbatim data \<Rightarrow> ok_or (command @ '' returned a non-UTF-8 string'') (from_utf8 data)
      | Bulk (Some data) \<Rightarrow> ok_or (command @ '' returned a non-UTF-8 string'') (from_utf8 data)
      | Error error \<Rightarrow> Err error
      | other \<Rightarrow> Err (unexpected show_debug command other))"

definition as_integer :: "(RespValue \<Rightarrow> rstring) \<Rightarrow> RespValue \<Rightarrow> rstring \<Rightarrow> (int, rstring) result" where
  "as_integer show_debug v command =
     (case v of
        Integer i \<Rightarrow> Ok i
      | Error error \<Rightarrow> Err error
      | other \<Rightarrow> Err (unexpected show_debug command other))"

end
