(* ===== verification/Resp_Json_Props.thy ===== *)
theory Resp_Json_Props
  imports Resp_Json
begin

text \<open>
  The JSON conversion never produces more text than its budget: what was charged bounds the compact
  text of the result, so that the HTTP response built from it stays bounded too.
\<close>

section \<open>The compact JSON format\<close>

definition hex4 :: "nat \<Rightarrow> rstring" where
  "hex4 n = ''00'' @ [if n < 16 then CHR ''0'' else CHR ''1'',
     if n mod 16 < 10 then char_of (48 + n mod 16) else char_of (87 + n mod 16)]"

definition escape :: "u8 \<Rightarrow> rstring" where
  "escape c =
     (if code c = 34 \<or> code c = 92 then [CHR 0x5C, c]
      else if code c = 8 then [CHR 0x5C, CHR ''b'']
      else if code c = 9 then [CHR 0x5C, CHR ''t'']
      else if code c = 10 then [CHR 0x5C, CHR ''n'']
      else if code c = 12 then [CHR 0x5C, CHR ''f'']
      else if code c = 13 then [CHR 0x5C, CHR ''r'']
      else if code c < 32 then CHR 0x5C # CHR ''u'' # hex4 (code c)
      else [c])"

definition quoted :: "rstring \<Rightarrow> rstring" where
  "quoted s = CHR 0x22 # concat (map escape s) @ [CHR 0x22]"

fun commas :: "rstring list \<Rightarrow> rstring" where
  "commas [] = []"
| "commas [x] = x"
| "commas (x # y # xs) = x @ CHR '','' # commas (y # xs)"

definition member :: "(json \<Rightarrow> rstring) \<Rightarrow> rstring \<times> json \<Rightarrow> rstring" where
  "member text_of e = quoted (fst e) @ CHR '':'' # text_of (snd e)"

text \<open>
  What the library documents of its compact serializer: it does not fail on a \<open>Value\<close> and writes
  the standard forms without white space.  The text of a floating-point number is left open.
\<close>

definition compact :: "(json \<Rightarrow> (rstring, rstring) result) \<Rightarrow> (json \<Rightarrow> rstring) \<Rightarrow> bool" where
  "compact to_text text_of \<longleftrightarrow>
     (\<forall>j. to_text j = Ok (text_of j)) \<and>
     text_of JNull = ''null'' \<and>
     (\<forall>b. text_of (JBool b) = (if b then ''true'' else ''false'')) \<and>
     (\<forall>i. text_of (JInt i) = show_int i) \<and>
     (\<forall>s. text_of (JString s) = quoted s) \<and>
     (\<forall>js. text_of (JArray js) = CHR ''['' # commas (map text_of js) @ '']'') \<and>
     (\<forall>es. text_of (JObject es) = CHR ''{'' # commas (map (member text_of) es) @ ''}'')"

fun is_double :: "RespValue \<Rightarrow> bool" where
  "is_double (Double _) = True"
| "is_double _ = False"

abbreviation double_free :: "RespValue \<Rightarrow> bool" where
  "double_free \<equiv> all_values (\<lambda>v. \<not> is_double v)"

text \<open>
  A floating-point number is charged the length of the text the child sent; the text the library
  prints for the number it reads there may be longer, so what is bounded are replies in which it is
  not.
\<close>

fun prints_within :: "(json \<Rightarrow> rstring) \<Rightarrow> RespValue \<Rightarrow> bool" where
  "prints_within text_of (Double s) \<longleftrightarrow>
     (case parse_f64 s of
        Some x \<Rightarrow> f64_is_finite x \<longrightarrow> length (text_of (JFloat x)) \<le> length s
      | None \<Rightarrow> True)"
| "prints_within text_of _ \<longleftrightarrow> True"

abbreviation doubles_within :: "(json \<Rightarrow> rstring) \<Rightarrow> RespValue \<Rightarrow> bool" where
  "doubles_within text_of \<equiv> all_values (prints_within text_of)"

lemma double_free_within: "double_free v \<Longrightarrow> doubles_within text_of v"
proof (induction "\<lambda>v. \<not> is_double v" v rule: all_values.induct)
  case (1 v)
  have "prints_within text_of v"
    using "1.prems" by (cases v) (simp_all add: all_values.simps [of _ "Double s" for s])
  moreover have "list_all (doubles_within text_of) (children v)"
    using 1 by (simp add: all_values.simps [of _ v] list_all_iff)
  ultimately show ?case by (simp add: all_values.simps [of _ v])
qed

section \<open>Lengths\<close>

lemma length_commas: "length (commas xs) = sum_list (map length xs) + (length xs - 1)"
  by (induction xs rule: commas.induct) simp_all

lemma length_escape: "length (escape c) = escaped_length c"
  by (simp add: escape_def escaped_length_def hex4_def)

lemma json_string_length_sum:
  assumes "encoded + sum_list (map escaped_length s) < USIZE_MAX"
  shows "json_string_length encoded s = encoded + sum_list (map escaped_length s)"
  using assms
proof (induction s arbitrary: encoded)
  case (Cons c s)
  then have "saturating_add encoded (escaped_length c) = encoded + escaped_length c"
    by (intro saturating_add_exact) simp
  with Cons show ?case by simp
qed simp

lemma json_string_length_saturated:
  "USIZE_MAX \<le> encoded + sum_list (map escaped_length s) \<Longrightarrow> encoded \<le> USIZE_MAX \<Longrightarrow> json_string_length encoded s = USIZE_MAX"
proof (induction s arbitrary: encoded)
  case (Cons c s)
  then show ?case by (simp add: saturating_add_def min_def)
qed simp

lemma length_quoted: "length (quoted s) = 2 + sum_list (map escaped_length s)"
  by (simp add: quoted_def length_concat o_def length_escape)

lemma consume_Ok:
  assumes "json_limit b < USIZE_MAX"
  shows "consume b n = Ok b' \<longleftrightarrow> json_used b + n \<le> json_limit b \<and> b' = b\<lparr>json_used := json_used b + n\<rparr>"
  using assms by (auto simp: consume_def Let_def saturating_add_def split: if_splits)

text \<open>A string is charged exactly the length of its JSON text.\<close>

lemma consume_json_string_Ok:
  assumes "json_limit b < USIZE_MAX"
  shows "consume_json_string b s = Ok b' \<longleftrightarrow>
     json_used b + length (quoted s) \<le> json_limit b \<and> b' = b\<lparr>json_used := json_used b + length (quoted s)\<rparr>"
proof (cases "2 + sum_list (map escaped_length s) < USIZE_MAX")
  case True
  then show ?thesis
    using assms by (simp add: consume_json_string_def consume_Ok length_quoted json_string_length_sum)
next
  case False
  then have "json_string_length 2 s = USIZE_MAX"
    by (intro json_string_length_saturated) (simp_all add: limits)
  with False show ?thesis using assms by (auto simp: consume_json_string_def consume_Ok length_quoted)
qed

text \<open>Weights: a list or an object as the sum of its parts, a comma counted with each.\<close>

definition list_weight :: "(json \<Rightarrow> rstring) \<Rightarrow> json list \<Rightarrow> nat" where
  "list_weight text_of js = sum_list (map (\<lambda>j. Suc (length (text_of j))) js)"

definition object_weight :: "(json \<Rightarrow> rstring) \<Rightarrow> (rstring \<times> json) list \<Rightarrow> nat" where
  "object_weight text_of es = sum_list (map (\<lambda>e. Suc (length (member text_of e))) es)"

lemma object_insert_nonempty [simp]: "object_insert k v es \<noteq> []"
  by (induction k v es rule: object_insert.induct) simp_all

lemma object_weight_insert:
  "object_weight text_of (object_insert k v es) \<le> object_weight text_of es + Suc (length (member text_of (k, v)))"
  by (induction k v es rule: object_insert.induct) (simp_all add: object_weight_def)

lemma length_array:
  "compact to_text text_of \<Longrightarrow>
     length (text_of (JArray js)) + (if js = [] then 0 else 1) = 2 + list_weight text_of js"
  by (cases js) (simp_all add: compact_def list_weight_def length_commas o_def sum_list_Suc)

lemma length_object:
  "compact to_text text_of \<Longrightarrow>
     length (text_of (JObject es)) + (if es = [] then 0 else 1) = 2 + object_weight text_of es"
  by (cases es) (simp_all add: compact_def object_weight_def length_commas o_def sum_list_Suc)

section \<open>What was charged covers the text\<close>

text \<open>From \<open>b\<close> to \<open>b'\<close> at least \<open>n\<close> bytes were charged, within the limit.\<close>

definition covers :: "nat \<Rightarrow> JsonBudget \<Rightarrow> JsonBudget \<Rightarrow> bool" where
  "covers n b b' \<longleftrightarrow>
     json_limit b' = json_limit b \<and> json_used b + n \<le> json_used b' \<and>
     (json_used b \<le> json_limit b \<longrightarrow> json_used b' \<le> json_limit b')"

lemma covers_refl: "covers 0 b b"
  by (simp add: covers_def)

lemma covers_trans: "covers m a b \<Longrightarrow> covers n b c \<Longrightarrow> covers (m + n) a c"
  by (auto simp: covers_def)

lemma covers_mono: "covers m a b \<Longrightarrow> n \<le> m \<Longrightarrow> covers n a b"
  by (auto simp: covers_def)

lemma covers_limit: "covers n b b' \<Longrightarrow> json_limit b' = json_limit b"
  by (simp add: covers_def)

lemma consume_covers: "consume b n = Ok b' \<Longrightarrow> json_limit b < USIZE_MAX \<Longrightarrow> covers n b b'"
  by (simp add: consume_Ok covers_def)

lemma consume_string_covers:
  "consume_json_string b s = Ok b' \<Longrightarrow> json_limit b < USIZE_MAX \<Longrightarrow> covers (length (quoted s)) b b'"
  by (simp add: consume_json_string_Ok covers_def)

lemma comma_covers:
  "(if index > 0 then consume b 1 else Ok b) = Ok b' \<Longrightarrow> json_limit b < USIZE_MAX \<Longrightarrow>
     covers (if index = 0 then 0 else 1) b b'" for index :: nat
  by (auto simp: covers_refl dest: consume_covers split: if_split_asm)

lemma sum_list_ones: "(\<And>x. x \<in> set xs \<Longrightarrow> f x = 1) \<Longrightarrow> sum_list (map f xs) = length xs" for f :: "'a \<Rightarrow> nat"
  by (induction xs) auto

lemma base64_not_escaped: "sum_list (map escaped_length (base64_encode bs)) = length (base64_encode bs)"
proof -
  have "list_all (\<lambda>c. escaped_length c = 1) (CHR ''='' # ALPHABET)"
    by (simp add: ALPHABET_def escaped_length_def)
  then have "c \<in> set (base64_encode bs) \<Longrightarrow> escaped_length c = 1" for c
    using base64_chars [of c bs] unfolding base64_char_def list_all_iff by blast
  then show ?thesis by (rule sum_list_ones)
qed

lemma bulk_covers:
  assumes "compact to_text text_of" and "bulk_to_json data b = Ok (j, b')" and "json_limit b < USIZE_MAX"
  shows "covers (length (text_of j)) b b'"
proof (cases "valid_utf8 data")
  case True
  with assms show ?thesis by (auto simp: bulk_to_json_def compact_def dest: consume_string_covers)
next
  case False
  let ?n = "(length data + 2) div 3 * 4"
  from False assms(2) have room: "?n \<le> USIZE_MAX"
    and charged: "consume b (saturating_add (saturating_add (length BASE64_PREFIX) ?n) (length BASE64_SUFFIX)) = Ok b'"
    and j: "j = JObject (object_insert ''data'' (JString (base64_encode data))
                  (object_insert ''encoding'' (JString ''base64'') []))"
    by (auto simp: bulk_to_json_def base64_encoded_length_def split: if_split_asm)
  have plain: "sum_list (map escaped_length (base64_encode data)) = length (base64_encode data)"
    by (rule base64_not_escaped)
  have "length (text_of j) = length BASE64_PREFIX + ?n + length BASE64_SUFFIX"
    using assms(1) plain base64_length [of data]
    by (simp add: j compact_def member_def length_quoted length_commas BASE64_PREFIX_def BASE64_SUFFIX_def
        escaped_length_def)
  moreover from charged assms(3) have "covers (length BASE64_PREFIX + ?n + length BASE64_SUFFIX) b b'"
    by (auto simp: consume_Ok covers_def saturating_add_def min_def split: if_splits)
  ultimately show ?thesis by simp
qed

lemma text_lengths:
  assumes "compact to_text text_of"
  shows "length (text_of JNull) = 4" "length (text_of (JBool True)) = 4" "length (text_of (JBool False)) = 5"
    "length (text_of (JInt i)) = length (show_int i)" "length (text_of (JString s)) = length (quoted s)"
  using assms by (simp_all add: compact_def)

lemma array_covers:
  assumes "compact to_text text_of" and "json_limit b < USIZE_MAX"
    and "and_then (consume b 2) (\<lambda>b. and_then (values_to_json to_text 0 vs b) (\<lambda>(js, b). Ok (JArray js, b))) = Ok (j, b')"
    and ih: "\<And>b js b'. values_to_json to_text 0 vs b = Ok (js, b') \<Longrightarrow> json_limit b < USIZE_MAX \<Longrightarrow>
      covers (list_weight text_of js - (if js \<noteq> [] then 1 else 0)) b b'"
  shows "covers (length (text_of j)) b b'"
proof -
  from assms(3) obtain b1 js where c: "consume b 2 = Ok b1" and v: "values_to_json to_text 0 vs b1 = Ok (js, b')"
    and j: "j = JArray js" by auto
  note start = consume_covers [OF c assms(2)]
  have "json_limit b1 < USIZE_MAX" using assms(2) covers_limit [OF start] by simp
  note items = ih [OF v this]
  show ?thesis
    by (rule covers_mono [OF covers_trans [OF start items]])
      (use length_array [OF assms(1), of js] in \<open>auto simp: j split: if_splits\<close>)
qed

lemma to_json_covers:
  assumes compact: "compact to_text text_of"
  shows "to_json_budgeted to_text v b = Ok (j, b') \<Longrightarrow> doubles_within text_of v \<Longrightarrow> json_limit b < USIZE_MAX \<Longrightarrow>
      covers (length (text_of j)) b b'"
    and "values_to_json to_text index vs b = Ok (js, b') \<Longrightarrow> list_all (doubles_within text_of) vs \<Longrightarrow> json_limit b < USIZE_MAX \<Longrightarrow>
      covers (list_weight text_of js - (if index = 0 \<and> js \<noteq> [] then 1 else 0)) b b'"
    and "entries_to_json to_text index es object b = Ok (object', b') \<Longrightarrow> list_all (doubles_within text_of) (flat es) \<Longrightarrow>
      json_limit b < USIZE_MAX \<Longrightarrow> (object \<noteq> [] \<longrightarrow> 0 < index) \<Longrightarrow>
      covers (object_weight text_of object' - object_weight text_of object
        - (if index = 0 \<and> object' \<noteq> [] then 1 else 0)) b b'"
supply lens = text_lengths [OF compact]
proof (induction v and vs and es arbitrary: b j b' and index b js b' and index object b object' b' rule: value_induct)
  case (1 s)
  then show ?case using lens by (auto dest: consume_string_covers)
next
  case (3 i)
  then show ?case using lens by (auto dest: consume_covers)
next
  case 4
  then show ?case using lens by (auto dest: consume_covers)
next
  case (5 data)
  then show ?case using bulk_covers [OF compact] by simp
next
  case 6
  then show ?case using lens by (auto dest: consume_covers)
next
  case (7 vs)
  from "7.prems"(2) have "list_all (doubles_within text_of) vs" by (simp add: all_values.simps [of _ "Array (Some vs)"])
  with "7.IH" [where index = 0] "7.prems" show ?case
    by (intro array_covers [OF compact, where vs = vs]) simp_all
next
  case 8
  then show ?case using lens by (auto dest: consume_covers)
next
  case (9 x)
  then show ?case using lens by (auto dest: consume_covers split: if_split_asm)
next
  case (10 s)
  show ?case
  proof (cases "\<exists>x. parse_f64 s = Some x \<and> f64_is_finite x")
    case True
    then obtain x where x: "parse_f64 s = Some x" "f64_is_finite x" by blast
    with "10.prems" have charged: "consume b (length s) = Ok b'" and j: "j = JFloat x" by auto
    from "10.prems"(2) x have "length (text_of (JFloat x)) \<le> length s" by (simp add: all_values.simps [of _ "Double s"])
    with covers_mono [OF consume_covers [OF charged "10.prems"(3)]] show ?thesis by (simp add: j)
  next
    case False
    with "10.prems" show ?thesis using lens by (auto dest: consume_string_covers split: option.split_asm if_split_asm)
  qed
next
  case (11 s)
  then show ?case using lens by (auto dest: consume_string_covers)
next
  case (13 data)
  then show ?case using lens by (auto dest: consume_string_covers split: option.splits)
next
  case (14 es)
  from "14.prems"(1) obtain b1 object where c: "consume b 2 = Ok b1"
    and o: "entries_to_json to_text 0 es [] b1 = Ok (object, b')" and j: "j = JObject object" by auto
  note start = consume_covers [OF c "14.prems"(3)]
  from "14.prems"(2) have "list_all (doubles_within text_of) (flat es)" by (simp add: all_values.simps [of _ "Map es"])
  then have "covers (object_weight text_of object - object_weight text_of [] - (if object \<noteq> [] then 1 else 0)) b1 b'"
    using "14.IH" [OF o] covers_limit [OF start] "14.prems"(3) by simp
  then have "covers (2 + (object_weight text_of object - (if object \<noteq> [] then 1 else 0))) b b'"
    using covers_trans [OF start] by (simp add: object_weight_def [of _ "[]"])
  then show ?case
    by (rule covers_mono) (use length_object [OF compact, of object] in \<open>auto simp: j split: if_splits\<close>)
next
  case (15 vs)
  from "15.prems"(2) have "list_all (doubles_within text_of) vs" by (simp add: all_values.simps [of _ "Set vs"])
  with "15.IH" [where index = 0] "15.prems" show ?case
    by (intro array_covers [OF compact, where vs = vs]) simp_all
next
  case (16 vs)
  from "16.prems"(2) have "list_all (doubles_within text_of) vs" by (simp add: all_values.simps [of _ "Push vs"])
  with "16.IH" [where index = 0] "16.prems" show ?case
    by (intro array_covers [OF compact, where vs = vs]) simp_all
next
  case 17
  then show ?case by (simp add: covers_refl list_weight_def)
next
  case (18 v vs)
  from "18.prems"(1) obtain b1 j0 b2 js0 where steps: "(if index > 0 then consume b 1 else Ok b) = Ok b1"
    "to_json_budgeted to_text v b1 = Ok (j0, b2)" "values_to_json to_text (index + 1) vs b2 = Ok (js0, b')"
    and js: "js = j0 # js0" by auto
  note c1 = comma_covers [OF steps(1) "18.prems"(3)]
  have c2: "covers (length (text_of j0)) b1 b2"
    using "18.IH"(1) [OF steps(2)] "18.prems" covers_limit [OF c1] by simp
  have c3: "covers (list_weight text_of js0) b2 b'"
    using "18.IH"(2) [OF steps(3)] "18.prems" covers_limit [OF c1] covers_limit [OF c2] by simp
  show ?case
    by (rule covers_mono [OF covers_trans [OF covers_trans [OF c1 c2] c3]]) (simp add: js list_weight_def)
next
  case 19
  then show ?case by (simp add: covers_refl)
next
  case (20 k v es)
  from "20.prems"(1) obtain b1 kj b2 key b3 b4 vj b5 where steps: "(if index > 0 then consume b 1 else Ok b) = Ok b1"
    "to_json_budgeted to_text k b1 = Ok (kj, b2)" "consume_json_string b2 key = Ok b3" "consume b3 1 = Ok b4"
    "to_json_budgeted to_text v b4 = Ok (vj, b5)"
    "entries_to_json to_text (index + 1) es (object_insert key vj object) b5 = Ok (object', b')"
    by auto
  note c1 = comma_covers [OF steps(1) "20.prems"(3)]
  have c2: "covers 0 b1 b2"
    using "20.IH"(1) [OF steps(2)] "20.prems" covers_limit [OF c1] by (auto intro: covers_mono)
  have l2: "json_limit b2 < USIZE_MAX" using "20.prems"(3) covers_limit [OF c1] covers_limit [OF c2] by simp
  note c3 = consume_string_covers [OF steps(3) l2]
  have l3: "json_limit b3 < USIZE_MAX" using l2 covers_limit [OF c3] by simp
  note c4 = consume_covers [OF steps(4) l3]
  have l4: "json_limit b4 < USIZE_MAX" using l3 covers_limit [OF c4] by simp
  have c5: "covers (length (text_of vj)) b4 b5"
    using "20.IH"(2) [OF steps(5) _ l4] "20.prems"(2) by simp
  have c6: "covers (object_weight text_of object' - object_weight text_of (object_insert key vj object)) b5 b'"
    using "20.IH"(3) [OF steps(6)] "20.prems"(2) l4 covers_limit [OF c5] by simp
  have "length (member text_of (key, vj)) = length (quoted key) + 1 + length (text_of vj)" by (simp add: member_def)
  then show ?case
    using object_weight_insert [of text_of key vj object]
    by (intro covers_mono [OF covers_trans [OF covers_trans [OF covers_trans [OF covers_trans [OF covers_trans
            [OF c1 c2] c3] c4] c5] c6]]) (auto simp: object_weight_def [of _ "[]"])
qed simp_all

section \<open>The bound on the HTTP body\<close>

lemma to_json_length:
  assumes "compact to_text text_of" and "doubles_within text_of v" and "limit < USIZE_MAX"
    and "to_json_with_budget to_text v limit = Ok j"
  shows "length (text_of j) \<le> limit"
proof -
  from assms(4) obtain b' where run: "to_json_budgeted to_text v (new_json_budget limit) = Ok (j, b')"
    by (auto simp: to_json_with_budget_def)
  have "json_limit (new_json_budget limit) < USIZE_MAX" using assms(3) by (simp add: new_json_budget_def)
  from to_json_covers(1) [OF assms(1) run assms(2) this] show ?thesis
    by (simp add: covers_def new_json_budget_def)
qed

text \<open>C28: the JSON value built from a reply within a byte budget has a compact text of at most that many
  bytes, base64 objects, escaped strings, separators and repeated keys included, for every reply in
  which the library prints no finite floating-point number longer than the child sent it, in
  particular for every reply without floating-point numbers.\<close>

theorem to_json_text_within_budget:
  assumes "compact to_text text_of" and "doubles_within text_of v" and "limit < USIZE_MAX"
    and "to_json_with_budget to_text v limit = Ok j"
  shows "\<exists>s. to_text j = Ok s \<and> length s \<le> limit"
  using to_json_length [OF assms] assms(1) by (simp add: compact_def)

text \<open>A serializer with the documented behaviour exists.\<close>

function json_text :: "json \<Rightarrow> rstring" where
  "json_text JNull = ''null''"
| "json_text (JBool b) = (if b then ''true'' else ''false'')"
| "json_text (JInt i) = show_int i"
| "json_text (JFloat x) = ''0.0''"
| "json_text (JString s) = quoted s"
| "json_text (JArray js) = CHR ''['' # commas (map json_text js) @ '']''"
| "json_text (JObject es) =
     CHR ''{'' # commas (map (\<lambda>e. quoted (fst e) @ CHR '':'' # json_text (snd e)) es) @ ''}''"
  by pat_completeness auto
termination
proof (relation "measure size")
  show "(snd e, JObject es) \<in> measure size" if "e \<in> set es" for e es
  proof -
    have "size (snd e) \<le> size_prod (\<lambda>_. 0) size e" by (cases e) simp
    also have "\<dots> < Suc (size_list (size_prod (\<lambda>_. 0) size) es)"
      using that by (simp add: less_Suc_eq_le size_list_estimation')
    finally show ?thesis by simp
  qed
qed (auto simp: less_Suc_eq_le size_list_estimation')

lemma compact_json_text: "compact (\<lambda>j. Ok (json_text j)) json_text"
  by (simp add: compact_def member_def [abs_def])

theorem to_json_text_within_budget_witness:
  "length (json_text (JObject [(''k'', JArray [JInt 7, JNull])])) \<le> 24"
proof -
  let ?v = "Map [(Simple ''k'', Array (Some [Integer 7, Null]))]"
  have "doubles_within json_text ?v" by (simp add: all_values.simps)
  moreover have "to_json_with_budget (\<lambda>j. Ok (json_text j)) ?v 24 = Ok (JObject [(''k'', JArray [JInt 7, JNull])])"
    by (simp add: to_json_with_budget_def new_json_budget_def consume_def consume_json_string_def
        escaped_length_def saturating_add_def key_text_def show_int_def show_nat.simps limits)
  moreover have "24 < USIZE_MAX" by (simp add: limits)
  ultimately show ?thesis
    using to_json_text_within_budget [OF compact_json_text, of ?v 24] by simp
qed

end
