(* ===== verification/Resp_Client.thy ===== *)
theory Resp_Client
  imports Forwarding Frame_Codec
begin

text \<open>
  The one-shot RESP client of the launcher (\<open>execute\<close> and \<open>execute_within\<close> in \<open>resp.rs\<close>): one connection
  and one command per call, the whole exchange under one timeout.  The HTTP handlers, the key
  pages and the readiness probe all talk to the child through it.
\<close>

text \<open>The whole exchange is abandoned when it does not complete.\<close>

definition within_deadline :: "('a, fault) result \<Rightarrow> ('a, rstring) result" where
  "within_deadline r =
     (case r of
        Ok a \<Rightarrow> Ok a
      | Err (Fail e) \<Rightarrow> Err e
      | Err Hang \<Rightarrow> Err (''RESP operation timed out after '' @ show_nat RESP_TIMEOUT_SECS @ '' seconds''))"

definition exchange ::
    "'w env \<Rightarrow> rstring \<Rightarrow> rstring list \<Rightarrow> nat \<Rightarrow> 'w \<Rightarrow> (RespValue, fault) result \<times> 'w" where
  "exchange env addr args budget_bytes w =
     (case connect env addr w of
        (connected, w) \<Rightarrow>
          (case map_err (in_context (''could not connect to '' @ addr @ '': '')) connected of
             Err f \<Rightarrow> (Err f, w)
           | Ok s \<Rightarrow>
               (case send env (encode_command args) s w of
                  (sent, w) \<Rightarrow>
                    (case map_err (in_context ''failed to write RESP command: '') sent of
                       Err f \<Rightarrow> (Err f, w)
                     | Ok s \<Rightarrow>
                         (case flush env s w of
                            (flushed, w) \<Rightarrow>
                              (and_then (map_err (in_context ''failed to flush RESP command: '') flushed) (\<lambda>s.
                               and_then (read_value 0 s (new_budget budget_bytes)) (\<lambda>(v, _, _). Ok v)), w))))))"

definition execute_within ::
    "'w env \<Rightarrow> rstring \<Rightarrow> rstring list \<Rightarrow> nat \<Rightarrow> 'w \<Rightarrow> (RespValue, rstring) result \<times> 'w" where
  "execute_within env addr args budget_bytes w =
     (if args = [] then (Err ''command must contain at least one argument'', w)
      else if length args > MAX_ARGUMENTS then
        (Err (''command has too many arguments (maximum '' @ show_nat MAX_ARGUMENTS @ '')''), w)
      else (case exchange env addr args budget_bytes w of (r, w) \<Rightarrow> (within_deadline r, w)))"

definition execute :: "'w env \<Rightarrow> rstring \<Rightarrow> rstring list \<Rightarrow> 'w \<Rightarrow> (RespValue, rstring) result \<times> 'w" where
  "execute env addr args w = execute_within env addr args MAX_RESPONSE_BYTES w"

text \<open>The code's \<open>?\<close> after an operation on the child: go on with its value, or return its error.\<close>

definition then_do ::
    "('a, 'e) result \<times> 'w \<Rightarrow> ('a \<Rightarrow> 'w \<Rightarrow> ('b, 'e) result \<times> 'w) \<Rightarrow> ('b, 'e) result \<times> 'w" where
  "then_do p k = (case p of (r, w) \<Rightarrow> (case r of Ok a \<Rightarrow> k a w | Err e \<Rightarrow> (Err e, w)))"

section \<open>Lemmas\<close>

lemma then_do_simps [simp]:
  "then_do (Ok a, w) k = k a w" "then_do (Err e, w) k = (Err e, w)"
  by (simp_all add: then_do_def)

lemma then_do_Ok:
  "then_do p k = (Ok b, w') \<longleftrightarrow> (\<exists>a w. p = (Ok a, w) \<and> k a w = (Ok b, w'))"
  by (cases p; cases "fst p") auto

lemma then_do_kept:
  "P (snd p) \<Longrightarrow> (\<And>a w. P w \<Longrightarrow> P (snd (k a w))) \<Longrightarrow> P (snd (then_do p k))"
  by (cases p; cases "fst p") auto

lemma execute_within_kept:
  assumes "kept_by A P env" and "P w" and "encode_command args \<in> A"
  shows "P (snd (execute_within env addr args n w))"
  using kept_byD(1) [OF assms(1,2), of addr] kept_byD(3,4) [OF assms(1)] assms(2,3)
  by (auto simp: execute_within_def exchange_def split: prod.split result.split) (metis snd_conv)+

lemma within_deadline_Ok [simp]: "within_deadline r = Ok v \<longleftrightarrow> r = Ok v" "within_deadline (Ok v) = Ok v"
  by (auto simp: within_deadline_def split: result.split fault.split)

text \<open>A reply that the client accepts is well-formed and within the client's byte budget.\<close>

lemma execute_within_Ok:
  assumes "execute_within env addr args n w = (Ok v, w')" and "n < USIZE_MAX"
  shows "decodable v \<and> height v \<le> MAX_RESP_DEPTH \<and> nodes v \<le> MAX_RESPONSE_NODES \<and>
    elements v \<le> MAX_RESPONSE_ELEMENTS"
proof -
  from assms(1) obtain s s' b' where "read_value 0 s (new_budget n) = Ok (v, s', b')"
    by (auto simp: execute_within_def exchange_def split: if_split_asm prod.split_asm result.split_asm)
  then have "paid 0 s (new_budget n) [v] s' b'" using assms(2) by (intro read_value_paid) simp_all
  then show ?thesis unfolding paid_def by (auto simp: affords_def new_budget_def with_limits_def)
qed

text \<open>An exchange with a child that takes the request and answers it.\<close>

lemma execute_within_answered:
  assumes "args \<noteq> []" and "length args \<le> MAX_ARGUMENTS"
    and "connect env addr w = (Ok s0, w0)" and "send env (encode_command args) s0 w0 = (Ok s1, w1)"
    and "flush env s1 w1 = (Ok (s\<lparr>pending := wire v @ rest\<rparr>), w2)" and "fits_budget n v"
  shows "execute_within env addr args n w = (Ok v, w2)"
proof -
  obtain b where "read_value 0 (s\<lparr>pending := wire v @ rest\<rparr>) (new_budget n) = Ok (v, s\<lparr>pending := rest\<rparr>, b)"
    using read_reply_wire [OF assms(6), where s = s and rest = rest] by (auto simp: read_reply_def)
  with assms(1-5) show ?thesis by (simp add: execute_within_def exchange_def)
qed

text \<open>A child that answers with the given replies, one per connection.\<close>

definition scripted_env :: "RespValue list env" where
  "scripted_env =
     \<lparr>connect = \<lambda>addr w. (Ok \<lparr>pending = [], ending = Silent\<rparr>, w),
      send = \<lambda>bs s w. (Ok (s\<lparr>pending := pending s @ (case w of [] \<Rightarrow> [] | v # _ \<Rightarrow> wire v)\<rparr>), tl w),
      flush = \<lambda>s w. (Ok s, w),
      deliver = \<lambda>bs w. (Ok (), w)\<rparr>"

lemma scripted_reply:
  assumes "fits_budget n v" and "args \<noteq> []" and "length args \<le> MAX_ARGUMENTS"
  shows "execute_within scripted_env addr args n (v # vs) = (Ok v, vs)"
  by (rule execute_within_answered [OF assms(2,3), where s = "\<lparr>pending = [], ending = Silent\<rparr>" and rest = "[]" and
        ?s0.0 = "\<lparr>pending = [], ending = Silent\<rparr>" and ?w0.0 = "v # vs" and ?w1.0 = vs and
        ?s1.0 = "\<lparr>pending = wire v, ending = Silent\<rparr>"])
    (simp_all add: scripted_env_def assms(1))

lemma pong_fits: "fits_budget MAX_RESPONSE_BYTES (Simple ''PONG'')"
  by (simp add: fits_budget_def all_values.simps [of admissible] leaf_shape text_line_def limits)

lemma loading_fits: "fits_budget MAX_RESPONSE_BYTES (Simple ''LOADING'')"
  by (simp add: fits_budget_def all_values.simps [of admissible] leaf_shape text_line_def limits)

end
