(* ===== verification/Keys.thy ===== *)
theory Keys
  imports Resp_Client Resp_Json_Props
begin

text \<open>
  The key pages of the HTTP API (\<open>keys.rs\<close>): \<open>detail\<close> asks the child for the type of a key and
  shows a bounded page of its value.  \<open>to_text\<close> and \<open>show_debug\<close> are the serializer of
  \<open>serde_json\<close> and the derived \<open>Debug\<close> text, as in the JSON conversion.
\<close>

section \<open>Pages\<close>

definition PAGE_LIMIT :: int where
  [limits]: "PAGE_LIMIT = 100"

definition STRING_PREVIEW_BYTES :: int where
  [limits]: "STRING_PREVIEW_BYTES = 4096"

definition KEY_DETAIL_RESPONSE_BYTES :: nat where
  [limits]: "KEY_DETAIL_RESPONSE_BYTES = 1024 * 1024"

definition KEY_DETAIL_JSON_VALUE_BYTES :: nat where
  [limits]: "KEY_DETAIL_JSON_VALUE_BYTES = 48 * 1024"

record Page =
  page_value :: json
  page_total :: int
  returned :: int
  page_limit :: int
  truncated :: bool
  next_cursor :: json
  value_omitted :: bool
  page_detail :: json

definition bounded_page :: "json \<Rightarrow> int \<Rightarrow> int \<Rightarrow> int \<Rightarrow> Page" where
  "bounded_page value whole count limit =
     \<lparr>page_value = value, page_total = whole, returned = count, page_limit = limit,
      truncated = (whole > count), next_cursor = JNull, value_omitted = False,
      page_detail = JString ''bounded value preview''\<rparr>"

definition omitted_page :: "int \<Rightarrow> rstring \<Rightarrow> Page" where
  "omitted_page whole reason =
     \<lparr>page_value = JNull, page_total = whole, returned = 0, page_limit = 0, truncated = (whole > 0),
      next_cursor = JNull, value_omitted = True, page_detail = JString reason\<rparr>"

fun array_len :: "json \<Rightarrow> int" where
  "array_len (JArray js) = int (length js)"
| "array_len JNull = 0"
| "array_len _ = 1"

section \<open>Asking the child\<close>

definition key_execute :: "'w env \<Rightarrow> rstring \<Rightarrow> rstring list \<Rightarrow> 'w \<Rightarrow> (RespValue, rstring) result \<times> 'w" where
  "key_execute env addr args w = execute_within env addr args KEY_DETAIL_RESPONSE_BYTES w"

definition integer_reply ::
    "(RespValue \<Rightarrow> rstring) \<Rightarrow> 'w env \<Rightarrow> rstring \<Rightarrow> rstring \<Rightarrow> rstring \<Rightarrow> 'w \<Rightarrow> (int, rstring) result \<times> 'w" where
  "integer_reply show_debug env addr command key w =
     then_do (key_execute env addr [command, key] w) (\<lambda>v w. (as_integer show_debug v command, w))"

definition string_page ::
    "(json \<Rightarrow> (rstring, rstring) result) \<Rightarrow> (RespValue \<Rightarrow> rstring) \<Rightarrow> 'w env \<Rightarrow> rstring \<Rightarrow> rstring \<Rightarrow> 'w \<Rightarrow>
     (Page, rstring) result \<times> 'w" where
  "string_page to_text show_debug env addr key w =
     then_do (integer_reply show_debug env addr ''STRLEN'' key w) (\<lambda>whole w.
     then_do (key_execute env addr [''GETRANGE'', key, ''0'', show_int (STRING_PREVIEW_BYTES - 1)] w) (\<lambda>response w.
     then_do
       (case response of
          Bulk (Some data) \<Rightarrow> Ok (int (length data))
        | Bulk None \<Rightarrow> Ok 0
        | _ \<Rightarrow> Err ''GETRANGE returned an unexpected response'', w) (\<lambda>count w.
     then_do (to_json_with_budget to_text response KEY_DETAIL_JSON_VALUE_BYTES, w) (\<lambda>value w.
       (Ok (bounded_page value whole count STRING_PREVIEW_BYTES), w)))))"

text \<open>The pages of a list, a sorted set and a stream differ in their commands and in the size of an element.\<close>

definition collection_page ::
    "(json \<Rightarrow> (rstring, rstring) result) \<Rightarrow> (RespValue \<Rightarrow> rstring) \<Rightarrow> 'w env \<Rightarrow> rstring \<Rightarrow> rstring \<Rightarrow> rstring list \<Rightarrow> int \<Rightarrow>
     rstring \<Rightarrow> 'w \<Rightarrow> (Page, rstring) result \<times> 'w" where
  "collection_page to_text show_debug env addr size_command range_command width key w =
     then_do (integer_reply show_debug env addr size_command key w) (\<lambda>whole w.
     then_do (key_execute env addr range_command w) (\<lambda>response w.
     then_do (to_json_with_budget to_text response KEY_DETAIL_JSON_VALUE_BYTES, w) (\<lambda>value w.
       (Ok (bounded_page value whole (array_len value div width) PAGE_LIMIT), w))))"

definition list_page ::
    "(json \<Rightarrow> (rstring, rstring) result) \<Rightarrow> (RespValue \<Rightarrow> rstring) \<Rightarrow> 'w env \<Rightarrow> rstring \<Rightarrow> rstring \<Rightarrow> 'w \<Rightarrow>
     (Page, rstring) result \<times> 'w" where
  "list_page to_text show_debug env addr key w =
     collection_page to_text show_debug env addr ''LLEN'' [''LRANGE'', key, ''0'', show_int (PAGE_LIMIT - 1)] 1 key w"

definition zset_page ::
    "(json \<Rightarrow> (rstring, rstring) result) \<Rightarrow> (RespValue \<Rightarrow> rstring) \<Rightarrow> 'w env \<Rightarrow> rstring \<Rightarrow> rstring \<Rightarrow> 'w \<Rightarrow>
     (Page, rstring) result \<times> 'w" where
  "zset_page to_text show_debug env addr key w =
     collection_page to_text show_debug env addr ''ZCARD''
       [''ZRANGE'', key, ''0'', show_int (PAGE_LIMIT - 1), ''WITHSCORES''] 2 key w"

definition stream_page ::
    "(json \<Rightarrow> (rstring, rstring) result) \<Rightarrow> (RespValue \<Rightarrow> rstring) \<Rightarrow> 'w env \<Rightarrow> rstring \<Rightarrow> rstring \<Rightarrow> 'w \<Rightarrow>
     (Page, rstring) result \<times> 'w" where
  "stream_page to_text show_debug env addr key w =
     collection_page to_text show_debug env addr ''XLEN''
       [''XRANGE'', key, ''-'', ''+'', ''COUNT'', show_int PAGE_LIMIT] 1 key w"

section \<open>\<open>detail\<close>\<close>

definition SET_OMITTED :: rstring where
  "SET_OMITTED = ''set values are omitted because SSCAN is not effectively bounded in Ferrite v0.4.0''"

definition HASH_OMITTED :: rstring where
  "HASH_OMITTED = ''hash values are omitted because HSCAN is not effectively bounded in Ferrite v0.4.0''"

definition typed_page ::
    "(json \<Rightarrow> (rstring, rstring) result) \<Rightarrow> (RespValue \<Rightarrow> rstring) \<Rightarrow> 'w env \<Rightarrow> rstring \<Rightarrow> rstring \<Rightarrow> rstring \<Rightarrow> 'w \<Rightarrow>
     (Page, rstring) result \<times> 'w" where
  "typed_page to_text show_debug env addr key_type key w =
     (if key_type = ''string'' then string_page to_text show_debug env addr key w
      else if key_type = ''list'' then list_page to_text show_debug env addr key w
      else if key_type = ''zset'' then zset_page to_text show_debug env addr key w
      else if key_type = ''set'' then
        then_do (integer_reply show_debug env addr ''SCARD'' key w) (\<lambda>whole w. (Ok (omitted_page whole SET_OMITTED), w))
      else if key_type = ''hash'' then
        then_do (integer_reply show_debug env addr ''HLEN'' key w) (\<lambda>whole w. (Ok (omitted_page whole HASH_OMITTED), w))
      else if key_type = ''stream'' then stream_page to_text show_debug env addr key w
      else (Err (''unsupported RESP key type returned by Ferrite: '' @ key_type), w))"

definition json_object :: "(rstring \<times> json) list \<Rightarrow> json" where
  "json_object entries = JObject (fold (\<lambda>(k, v). object_insert k v) entries [])"

definition detail_object :: "rstring \<Rightarrow> rstring \<Rightarrow> int \<Rightarrow> Page \<Rightarrow> json" where
  "detail_object key key_type ttl page =
     json_object
       [(''key'', JString key), (''key_type'', JString key_type), (''ttl'', JInt ttl),
        (''length'', JInt (page_total page)), (''returned'', JInt (returned page)),
        (''limit'', JInt (page_limit page)), (''truncated'', JBool (truncated page)),
        (''cursor'', next_cursor page), (''value'', page_value page),
        (''value_omitted'', JBool (value_omitted page)), (''detail'', page_detail page)]"

definition detail ::
    "(json \<Rightarrow> (rstring, rstring) result) \<Rightarrow> (RespValue \<Rightarrow> rstring) \<Rightarrow> 'w env \<Rightarrow> rstring \<Rightarrow> rstring \<Rightarrow> 'w \<Rightarrow>
     (json option, rstring) result \<times> 'w" where
  "detail to_text show_debug env addr key w =
     then_do (key_execute env addr [''TYPE'', key] w) (\<lambda>reply w.
     then_do (as_string show_debug reply ''TYPE'', w) (\<lambda>key_type w.
       if key_type = ''none'' then (Ok None, w)
       else
         then_do (integer_reply show_debug env addr ''TTL'' key w) (\<lambda>ttl w.
         then_do (typed_page to_text show_debug env addr key_type key w) (\<lambda>page w.
           (Ok (Some (detail_object key key_type ttl page)), w)))))"

section \<open>Only bounded reads\<close>

text \<open>Every command a page of \<open>key\<close> may send: metadata and windows of at most one page.\<close>

definition detail_commands :: "rstring \<Rightarrow> rstring list list" where
  "detail_commands key =
     [[''TYPE'', key], [''TTL'', key], [''STRLEN'', key], [''GETRANGE'', key, ''0'', ''4095''],
      [''LLEN'', key], [''LRANGE'', key, ''0'', ''99''], [''ZCARD'', key],
      [''ZRANGE'', key, ''0'', ''99'', ''WITHSCORES''], [''SCARD'', key], [''HLEN'', key],
      [''XLEN'', key], [''XRANGE'', key, ''-'', ''+'', ''COUNT'', ''100'']]"

lemma show_page_bounds:
  "show_int (STRING_PREVIEW_BYTES - 1) = ''4095''" "show_int (PAGE_LIMIT - 1) = ''99''" "show_int PAGE_LIMIT = ''100''"
  by (simp_all add: show_int_def show_nat.simps limits)

lemma integer_reply_kept:
  assumes "kept_by A P env" and "P w" and "encode_command [command, key] \<in> A"
  shows "P (snd (integer_reply show_debug env addr command key w))"
  unfolding integer_reply_def key_execute_def
  by (rule then_do_kept [where P = P]) (use execute_within_kept [OF assms] in simp_all)

lemma key_execute_kept:
  "kept_by A P env \<Longrightarrow> P w \<Longrightarrow> encode_command args \<in> A \<Longrightarrow> P (snd (key_execute env addr args w))"
  unfolding key_execute_def by (rule execute_within_kept)

lemma collection_page_kept:
  assumes "kept_by A P env" and "P w" and "encode_command [size_command, key] \<in> A"
    and "encode_command range_command \<in> A"
  shows "P (snd (collection_page to_text show_debug env addr size_command range_command width key w))"
  unfolding collection_page_def
  by (intro then_do_kept [where P = P] integer_reply_kept [OF assms(1)] key_execute_kept [OF assms(1)] assms) simp_all

lemma string_page_kept:
  assumes "kept_by A P env" and "P w" and "encode_command [''STRLEN'', key] \<in> A"
    and "encode_command [''GETRANGE'', key, ''0'', ''4095''] \<in> A"
  shows "P (snd (string_page to_text show_debug env addr key w))"
  unfolding string_page_def show_page_bounds
  by (intro then_do_kept [where P = P] integer_reply_kept [OF assms(1)] key_execute_kept [OF assms(1)] assms) simp_all

text \<open>A reply is never written to the child: only the commands above are.\<close>

lemma detail_kept:
  assumes "kept_by A P env" and "P w" and "encode_command ` set (detail_commands key) \<subseteq> A"
  shows "P (snd (detail to_text show_debug env addr key w))"
proof -
  from assms(3) have sent: "encode_command [''TYPE'', key] \<in> A" "encode_command [''TTL'', key] \<in> A"
    "encode_command [''STRLEN'', key] \<in> A" "encode_command [''GETRANGE'', key, ''0'', ''4095''] \<in> A"
    "encode_command [''LLEN'', key] \<in> A" "encode_command [''LRANGE'', key, ''0'', ''99''] \<in> A"
    "encode_command [''ZCARD'', key] \<in> A" "encode_command [''ZRANGE'', key, ''0'', ''99'', ''WITHSCORES''] \<in> A"
    "encode_command [''SCARD'', key] \<in> A" "encode_command [''HLEN'', key] \<in> A" "encode_command [''XLEN'', key] \<in> A"
    "encode_command [''XRANGE'', key, ''-'', ''+'', ''COUNT'', ''100''] \<in> A"
    by (simp_all add: detail_commands_def)
  note int = integer_reply_kept [OF assms(1)]
  have page: "P (snd (typed_page to_text show_debug env addr key_type key w))" if "P w" for key_type w
    unfolding typed_page_def list_page_def zset_page_def stream_page_def show_page_bounds
    using collection_page_kept [OF assms(1) that] string_page_kept [OF assms(1) that] sent that
    by (auto intro!: then_do_kept [where P = P] int)
  show ?thesis
    unfolding detail_def
    by (intro then_do_kept [where P = P] key_execute_kept [OF assms(1)] assms(2) sent)
      (auto intro!: then_do_kept [where P = P] int sent page)
qed

end
