(* ===== verification/Resp_Tests.thy ===== *)
theory Resp_Tests
  imports Resp_Refusal Resp_Json_Props Keys Launcher_Text
begin

text \<open>
  The repository's own tests of the codec (module \<open>tests\<close> of \<open>resp.rs\<close>), each as a predicate on the
  model, and that it holds.  A byte slice is a stream that ends after its bytes.  Left out are the
  tests that look at a budget or a buffer after the operation on it has failed, which the model
  does not keep.
\<close>

section \<open>The tests\<close>

definition slice_reader :: "bytes \<Rightarrow> stream" where
  "slice_reader input = \<lparr>pending = input, ending = Closed ''early eof''\<rparr>"

definition decoded :: "ResponseBudget \<Rightarrow> bytes \<Rightarrow> (RespValue, rstring) result" where
  "decoded budget input =
     (case read_value 0 (slice_reader input) budget of
        Ok (value, _, _) \<Rightarrow> Ok value
      | Err (Fail e) \<Rightarrow> Err e
      | Err Hang \<Rightarrow> Err [])"

definition fails_containing :: "('a, rstring) result \<Rightarrow> rstring \<Rightarrow> bool" where
  "fails_containing r reason \<longleftrightarrow> (case r of Ok _ \<Rightarrow> False | Err e \<Rightarrow> contains reason e)"

definition rows :: "rstring list \<Rightarrow> bytes" where
  "rows lines = concat (map (\<lambda>l. l @ crlf) lines)"

definition encodes_resp_commands :: bool where
  "encodes_resp_commands \<longleftrightarrow>
     encode_command [''SET'', ''key'', ''value''] = rows [''*3'', ''$3'', ''SET'', ''$3'', ''key'', ''$5'', ''value'']"

definition parses_and_converts_resp_values :: "(json \<Rightarrow> (rstring, rstring) result) \<Rightarrow> bool" where
  "parses_and_converts_resp_values to_text \<longleftrightarrow>
     and_then (decoded default_budget
         (rows [''*5'', ''+OK'', '':42'', ''$5'', ''hello'', ''$-1'', ''*2'', ''$1'', ''a'', ''$1'', ''b'']))
       (to_json to_text) =
     Ok (JArray [JString ''OK'', JInt 42, JString ''hello'', JNull, JArray [JString ''a'', JString ''b'']])"

definition re_encodes :: "bytes \<Rightarrow> bool" where
  "re_encodes input \<longleftrightarrow>
     and_then (decoded default_budget input) (\<lambda>value. encode_value value [] MAX_RESPONSE_BYTES) = Ok input"

definition re_encodes_decoded_values_byte_for_byte :: bool where
  "re_encodes_decoded_values_byte_for_byte \<longleftrightarrow> re_encodes (rows [''*4'', ''+OK'', '':-7'', ''$3'', ''abc'', ''*-1''])"

definition converts_binary_bulk_values_to_compact_base64_without_data_loss ::
    "(json \<Rightarrow> (rstring, rstring) result) \<Rightarrow> bool" where
  "converts_binary_bulk_values_to_compact_base64_without_data_loss to_text \<longleftrightarrow>
     to_json to_text (Bulk (Some [CHR 0xFF, CHR 0x00])) =
       Ok (json_object [(''encoding'', JString ''base64''), (''data'', JString ''/wA='')]) \<and>
     to_json to_text (Error ''ERR failure'') = Err ''ERR failure''"

definition refuses_oversized_binary_json_before_base64_allocation ::
    "(json \<Rightarrow> (rstring, rstring) result) \<Rightarrow> bool" where
  "refuses_oversized_binary_json_before_base64_allocation to_text \<longleftrightarrow>
     fails_containing (to_json_with_budget to_text (Bulk (Some (replicate 1024 (CHR 0xFF)))) 128) ''JSON conversion exceeds''"

definition budget_bounds_the_whole_response_not_each_element :: bool where
  "budget_bounds_the_whole_response_not_each_element \<longleftrightarrow>
     (let input = ''*20'' @ crlf @ concat (replicate 20 (rows [''$8'', ''abcdefgh''])) in
      fails_containing (decoded (new_budget 120) input) ''response budget'' \<and>
      (case read_value 0 (slice_reader input) (new_budget 4096) of
         Ok (Array (Some values), _, budget) \<Rightarrow> length values = 20 \<and> 0 < bytes_used budget
       | _ \<Rightarrow> False))"

definition budget_bounds_a_single_oversized_bulk_reply :: bool where
  "budget_bounds_a_single_oversized_bulk_reply \<longleftrightarrow>
     (let payload = replicate 4096 (CHR ''z'');
          input = ''$'' @ show_nat (length payload) @ crlf @ payload @ crlf
      in fails_containing (decoded (new_budget 1024) input) ''response budget'')"

definition nested_arrays_share_one_cumulative_budget :: bool where
  "nested_arrays_share_one_cumulative_budget \<longleftrightarrow>
     fails_containing (decoded (new_budget 60)
       (''*4'' @ crlf @ concat (replicate 4 (rows [''*2'', ''$4'', ''abcd'', ''$4'', ''efgh'']))))
       ''response budget''"

definition decodes_and_re_encodes_resp3_replies_byte_for_byte :: "(json \<Rightarrow> (rstring, rstring) result) \<Rightarrow> bool" where
  "decodes_and_re_encodes_resp3_replies_byte_for_byte to_text \<longleftrightarrow>
     (let input = rows [''%3'', ''$5'', ''proto'', '':3'', ''$4'', ''bool'', ''#t'', ''$3'', ''agg'', ''~2'', '',3.25'', ''_''] in
      re_encodes input \<and>
      and_then (decoded default_budget input) (to_json to_text) =
        Ok (json_object [(''proto'', JInt 3), (''bool'', JBool True), (''agg'', JArray [JFloat (F64Num False 325 (-2)), JNull])]))"

definition decodes_resp3_verbatim_big_number_and_push_types :: "(json \<Rightarrow> (rstring, rstring) result) \<Rightarrow> bool" where
  "decodes_resp3_verbatim_big_number_and_push_types to_text \<longleftrightarrow>
     (let input = rows [''>2'', ''=8'', ''txt:done'', ''(12345678901234567890''] in
      re_encodes input \<and>
      and_then (decoded default_budget input) (to_json to_text) =
        Ok (JArray [JString ''done'', JString ''12345678901234567890'']))"

definition resp3_blob_errors_surface_as_errors :: "(json \<Rightarrow> (rstring, rstring) result) \<Rightarrow> bool" where
  "resp3_blob_errors_surface_as_errors to_text \<longleftrightarrow>
     and_then (decoded default_budget (rows [''!11'', ''ERR failure''])) (to_json to_text) = Err ''ERR failure''"

definition resp3_replies_are_charged_to_the_response_budget :: bool where
  "resp3_replies_are_charged_to_the_response_budget \<longleftrightarrow>
     fails_containing (decoded (new_budget 150) (''~40'' @ crlf @ concat (replicate 40 (rows [''$8'', ''abcdefgh'']))))
       ''response budget''"

definition encodes_error_replies_for_refused_commands :: bool where
  "encodes_error_replies_for_refused_commands \<longleftrightarrow> encode_error ''ERR nope'' = Some (''-ERR nope'' @ crlf)"

section \<open>Reading what a test feeds in\<close>

text \<open>The input of every test is the wire form of a value.\<close>

lemma decoded_wire:
  assumes "fits_budget n v" and "input = wire v"
  shows "decoded (new_budget n) input = Ok v"
  using read_reply_wire [OF assms(1), where s = "slice_reader []" and rest = "[]"] assms(2)
  by (simp add: decoded_def read_reply_def slice_reader_def)
    (auto split: result.split_asm fault.split)

lemma decoded_too_long:
  assumes "decodable v" and "height v \<le> MAX_RESP_DEPTH" and "nodes v \<le> MAX_RESPONSE_NODES"
    and "elements v \<le> MAX_RESPONSE_ELEMENTS" and "n < length (wire v)" and "n < USIZE_MAX" and "input = wire v"
  shows "fails_containing (decoded (new_budget n) input) ''response budget''"
proof -
  have "contains ''response budget'' (byte_refusal (new_budget n))"
    by (simp add: byte_refusal_def)
  with read_reply_too_long [OF assms(1-6), where s = "slice_reader []" and rest = "[]"] assms(7) show ?thesis
    by (auto simp: decoded_def read_reply_def slice_reader_def fails_containing_def split: result.split_asm)
qed

lemma re_encodesI:
  assumes "fits_budget MAX_RESPONSE_BYTES v" and "error_free v" and "input = wire v"
  shows "re_encodes input"
  using decoded_wire [OF assms(1,3)] encode_is_emit(1) [of MAX_RESPONSE_BYTES v "[]"] assms
  by (simp add: re_encodes_def default_budget_def emit_def fits_budget_def)

section \<open>Their results\<close>

lemma small_digits:
  "digit_char (Suc 0) = CHR ''1''" "digit_char (Suc (Suc 0)) = CHR ''2''" "digit_char (Suc (Suc (Suc 0))) = CHR ''3''"
  "digit_char (Suc (Suc (Suc (Suc 0)))) = CHR ''4''" "digit_char (Suc (Suc (Suc (Suc (Suc 0))))) = CHR ''5''"
  using digit_char_numeral(2,4-7) by (simp_all add: eval_nat_numeral)

lemmas shape_eval = all_values.simps [of admissible] all_values.simps [of "\<lambda>v. \<not> is_error v"] leaf_shape
  height.simps [of "Array x" for x] nodes.simps [of "Array x" for x] elements.simps [of "Array x" for x]
  height.simps [of "Map x" for x] nodes.simps [of "Map x" for x] elements.simps [of "Map x" for x]
  height.simps [of "Set x" for x] nodes.simps [of "Set x" for x] elements.simps [of "Set x" for x]
  height.simps [of "Push x" for x] nodes.simps [of "Push x" for x] elements.simps [of "Push x" for x]
  text_line_def in_i64_def show_int_def show_nat.simps line_def blob_def limits small_digits

lemmas json_eval = to_json_def to_json_with_budget_def new_json_budget_def consume_def consume_json_string_def
  escaped_length_def saturating_add_def key_text_def json_object_def bulk_to_json_def verbatim_text_def get_def
  show_int_def show_nat.simps limits

lemma encoding_tests_hold: encodes_resp_commands encodes_error_replies_for_refused_commands
  by (simp_all add: encodes_resp_commands_def encodes_error_replies_for_refused_commands_def rows_def encode_command_def
      encode_argument_def encode_error_def append_bytes_def saturating_add_def show_nat.simps small_digits limits)

lemma parse_test_holds: "parses_and_converts_resp_values to_text"
proof -
  let ?v = "Array (Some [Simple ''OK'', Integer 42, Bulk (Some ''hello''), Bulk None, Array (Some [Bulk (Some ''a''), Bulk (Some ''b'')])])"
  have "fits_budget MAX_RESPONSE_BYTES ?v" by (simp add: fits_budget_def shape_eval)
  then have "decoded default_budget (rows [''*5'', ''+OK'', '':42'', ''$5'', ''hello'', ''$-1'', ''*2'', ''$1'', ''a'', ''$1'', ''b'']) = Ok ?v"
    unfolding default_budget_def by (rule decoded_wire) (simp add: rows_def shape_eval)
  then show ?thesis by (simp add: parses_and_converts_resp_values_def json_eval)
qed

lemma re_encode_test_holds: re_encodes_decoded_values_byte_for_byte
  unfolding re_encodes_decoded_values_byte_for_byte_def
  by (rule re_encodesI [where v = "Array (Some [Simple ''OK'', Integer (-7), Bulk (Some ''abc''), Array None])"])
    (simp_all add: fits_budget_def shape_eval rows_def)

lemma binary_test_holds: "converts_binary_bulk_values_to_compact_base64_without_data_loss to_text"
proof -
  have "\<not> valid_utf8 [CHR 0xFF, CHR 0x00]"
    by (simp add: valid_utf8_def utf8_chunks.simps utf8_scan_def char_width_def)
  then show ?thesis
    by (simp add: converts_binary_bulk_values_to_compact_base64_without_data_loss_def json_eval base64_encoded_length_def
        BASE64_PREFIX_def BASE64_SUFFIX_def quad_2 ALPHABET_def)
qed

lemma oversized_binary_test_holds: "refuses_oversized_binary_json_before_base64_allocation to_text"
proof -
  have first: "\<not> valid_utf8 (CHR 0xFF # cs)" for cs
    by (simp add: valid_utf8_def utf8_chunks.simps utf8_scan_def char_width_def)
  have "\<not> valid_utf8 (replicate 1024 (CHR 0xFF))"
    using first [of "replicate 1023 (CHR 0xFF)"] by (simp add: replicate_Suc [symmetric] del: replicate_Suc)
  then show ?thesis
    by (simp add: refuses_oversized_binary_json_before_base64_allocation_def fails_containing_def json_eval
        base64_encoded_length_def json_refusal_def BASE64_PREFIX_def BASE64_SUFFIX_def)
qed

text \<open>Twenty, four and forty equal elements.\<close>

lemma wires_replicate: "wires (replicate n v) = concat (replicate n (wire v))"
  by (induction n) simp_all

lemma max_power: "(max k ^^ n) 0 = (if n = 0 then 0 else k)" for k :: nat
  by (induction n) auto

abbreviation eight :: RespValue where
  "eight \<equiv> Bulk (Some ''abcdefgh'')"

lemma rows_eight: "rows [''$8'', ''abcdefgh''] = wire eight"
proof -
  have len: "length ''abcdefgh'' = 8" by simp
  have "show_nat 8 = ''8''" by (simp add: show_nat.simps)
  then show ?thesis unfolding wire.simps blob_def line_def rows_def len by simp
qed

lemma eight_shape: "decodable eight" "nodes eight = 1" "elements eight = 0" "height eight = 0" "length (wire eight) = 14"
  by (simp_all add: shape_eval)

lemma uniform_shape:
  assumes "v = Array (Some (replicate n w)) \<or> v = Set (replicate n w)"
  shows "decodable v \<longleftrightarrow> n \<le> MAX_RESP_ARRAY_LENGTH \<and> (0 < n \<longrightarrow> decodable w)" "nodes v = 1 + n * nodes w"
    "elements v = n + n * elements w" "height v = (if n = 0 then 0 else Suc (height w))"
    "length (wire v) = length (show_nat n) + 3 + n * length (wire w)"
  using assms
  by (auto simp: all_values.simps [of admissible v] nodes.simps [of v] elements.simps [of v] height.simps [of v]
      sum_list_replicate max_power wires_replicate length_concat list_all_iff)

lemma whole_response_test_holds: budget_bounds_the_whole_response_not_each_element
proof -
  let ?v = "Array (Some (replicate 20 eight))"
  let ?input = "''*20'' @ crlf @ concat (replicate 20 (rows [''$8'', ''abcdefgh'']))"
  have w: "?input = wire ?v" by (simp add: rows_eight wires_replicate line_def show_nat.simps)
  note shape = uniform_shape [of ?v 20 eight]
  have "fails_containing (decoded (new_budget 120) ?input) ''response budget''"
    by (rule decoded_too_long [OF _ _ _ _ _ _ w]) (simp_all add: shape eight_shape show_nat.simps limits del: wire.simps)
  moreover
  have "decodable ?v" "0 + height ?v \<le> MAX_RESP_DEPTH" "small_limits (new_budget 4096)"
    "affords (length (wire ?v)) (nodes ?v) (elements ?v) (new_budget 4096)"
    by (simp_all add: shape eight_shape show_nat.simps limits affords_def new_budget_def with_limits_def small_limits_def del: wire.simps)
  from reads_backD [OF decodable_reads_back [OF this(1,2)] this(3,4), where s = "slice_reader []" and rest = "[]"]
  have "read_value 0 (slice_reader ?input) (new_budget 4096) =
      Ok (?v, slice_reader [], spend (length (wire ?v)) (nodes ?v) (elements ?v) (new_budget 4096))"
    unfolding w by (simp add: slice_reader_def)
  ultimately show ?thesis
    by (simp add: budget_bounds_the_whole_response_not_each_element_def Let_def shape spend_def)
qed

lemma single_bulk_test_holds: budget_bounds_a_single_oversized_bulk_reply
  unfolding budget_bounds_a_single_oversized_bulk_reply_def Let_def
  by (rule decoded_too_long [where v = "Bulk (Some (replicate 4096 (CHR ''z'')))"]) (simp_all add: shape_eval)

lemma nested_test_holds: nested_arrays_share_one_cumulative_budget
proof -
  let ?w = "Array (Some [Bulk (Some ''abcd''), Bulk (Some ''efgh'')])"
  let ?v = "Array (Some (replicate 4 ?w))"
  have "rows [''*2'', ''$4'', ''abcd'', ''$4'', ''efgh''] = wire ?w" by (simp add: rows_def shape_eval)
  then have w: "''*4'' @ crlf @ concat (replicate 4 (rows [''*2'', ''$4'', ''abcd'', ''$4'', ''efgh''])) = wire ?v"
    by (simp add: wires_replicate line_def show_nat.simps)
  have "decodable ?w" "nodes ?w = 3" "elements ?w = 2" "height ?w = 1" "length (wire ?w) = 24" by (simp_all add: shape_eval)
  note shape = this uniform_shape [of ?v 4 ?w]
  show ?thesis
    unfolding nested_arrays_share_one_cumulative_budget_def
    by (rule decoded_too_long [OF _ _ _ _ _ _ w]) (simp_all only: shape simp_thms, simp_all add: show_nat.simps limits)
qed

lemma set_budget_test_holds: resp3_replies_are_charged_to_the_response_budget
proof -
  let ?v = "Set (replicate 40 eight)"
  have w: "''~40'' @ crlf @ concat (replicate 40 (rows [''$8'', ''abcdefgh''])) = wire ?v"
    by (simp add: rows_eight wires_replicate line_def show_nat.simps)
  show ?thesis
    unfolding resp3_replies_are_charged_to_the_response_budget_def
    by (rule decoded_too_long [OF _ _ _ _ _ _ w]) (simp_all add: uniform_shape [of ?v 40 eight] eight_shape show_nat.simps limits del: wire.simps)
qed

text \<open>The tests of the third protocol version.\<close>

lemma resp3_test_holds: "decodes_and_re_encodes_resp3_replies_byte_for_byte to_text"
proof -
  let ?v = "Map [(Bulk (Some ''proto''), Integer 3), (Bulk (Some ''bool''), Boolean True),
      (Bulk (Some ''agg''), Set [Double ''3.25'', Null])]"
  let ?input = "rows [''%3'', ''$5'', ''proto'', '':3'', ''$4'', ''bool'', ''#t'', ''$3'', ''agg'', ''~2'', '',3.25'', ''_'']"
  have w: "?input = wire ?v" by (simp add: rows_def shape_eval)
  have fits: "fits_budget MAX_RESPONSE_BYTES ?v" by (simp add: fits_budget_def shape_eval)
  have number: "parse_f64 ''3.25'' = Some (F64Num False 325 (-2))" "f64_is_finite (F64Num False 325 (-2))"
    by (simp_all add: parse_f64_def parse_decimal_def parse_exponent_def digit_val_def is_digit_iff f64_overflow_bound_def)
  have "error_free ?v" by (simp add: shape_eval)
  from re_encodesI [OF fits this w] have "re_encodes ?input" .
  moreover have "to_json to_text ?v =
      Ok (json_object [(''proto'', JInt 3), (''bool'', JBool True), (''agg'', JArray [JFloat (F64Num False 325 (-2)), JNull])])"
    using number by (simp add: json_eval)
  ultimately show ?thesis
    using decoded_wire [OF fits w]
    by (simp only: decodes_and_re_encodes_resp3_replies_byte_for_byte_def default_budget_def Let_def and_then.simps simp_thms)
qed

lemma verbatim_test_holds: "decodes_resp3_verbatim_big_number_and_push_types to_text"
proof -
  let ?v = "Push [Verbatim ''txt:done'', BigNumber ''12345678901234567890'']"
  let ?input = "rows [''>2'', ''=8'', ''txt:done'', ''(12345678901234567890'']"
  have len: "length ''txt:done'' = 8" by simp
  have digit: "show_nat 8 = ''8''" "show_nat 2 = ''2''" by (simp_all add: show_nat.simps)
  have len2: "length [Verbatim ''txt:done'', BigNumber ''12345678901234567890''] = 2" by simp
  have w: "?input = wire ?v" unfolding wire.simps wires.simps blob_def line_def rows_def len len2 digit by simp
  have fits: "fits_budget MAX_RESPONSE_BYTES ?v" by (simp add: fits_budget_def shape_eval)
  have "error_free ?v" by (simp add: shape_eval)
  from re_encodesI [OF fits this w] have "re_encodes ?input" .
  moreover have "to_json to_text ?v = Ok (JArray [JString ''done'', JString ''12345678901234567890''])"
    by (simp add: json_eval)
  ultimately show ?thesis
    using decoded_wire [OF fits w]
    by (simp only: decodes_resp3_verbatim_big_number_and_push_types_def default_budget_def Let_def and_then.simps simp_thms)
qed

lemma blob_error_test_holds: "resp3_blob_errors_surface_as_errors to_text"
proof -
  have len: "length ''ERR failure'' = 11" by simp
  have digits: "show_nat 11 = ''11''" by (simp add: show_nat.simps)
  have w: "rows [''!11'', ''ERR failure''] = wire (BlobError ''ERR failure'')"
    unfolding wire.simps blob_def line_def rows_def len digits by simp
  have "fits_budget MAX_RESPONSE_BYTES (BlobError ''ERR failure'')"
    unfolding fits_budget_def w [symmetric] by (simp add: shape_eval rows_def)
  from decoded_wire [OF this w] show ?thesis
    by (simp add: resp3_blob_errors_surface_as_errors_def default_budget_def json_eval from_utf8_lossy_valid)
qed

end
