(* ===== verification/Proxy_Request.thy ===== *)
theory Proxy_Request
  imports Frame_Codec
begin

text \<open>
  The request side of the public proxy (\<open>proxy.rs\<close>): the shared byte budget declared sizes are
  reserved from, \<open>read_line\<close> and \<open>read_request\<close>.

  The shared semaphore is its number of free permits; a reservation is the number of permits it
  holds.  Returning an error drops the reservations made so far, so an error leaves the budget
  as it found it.
\<close>

section \<open>Limits\<close>

definition MAX_REQUEST_LINE :: nat where
  [limits]: "MAX_REQUEST_LINE = 64 * 1024"

definition MAX_REQUEST_BULK :: nat where
  [limits]: "MAX_REQUEST_BULK = 256 * 1024"

definition MAX_REQUEST_BYTES :: nat where
  [limits]: "MAX_REQUEST_BYTES = 1024 * 1024"

definition MAX_IN_FLIGHT_REQUEST_BYTES :: nat where
  [limits]: "MAX_IN_FLIGHT_REQUEST_BYTES = 4 * 1024 * 1024"

definition ARGUMENT_SLOT_OVERHEAD_BYTES :: nat where
  [limits]: "ARGUMENT_SLOT_OVERHEAD_BYTES = 64"

definition MAX_CONNECTIONS :: nat where
  [limits]: "MAX_CONNECTIONS = 64"

definition CLIENT_READ_TIMEOUT_SECS :: nat where
  [limits]: "CLIENT_READ_TIMEOUT_SECS = 5"

definition U32_MAX :: nat where
  [limits]: "U32_MAX = 2 ^ 32 - 1"

definition REQUEST_BUDGET_EXHAUSTED_ERROR :: rstring where
  "REQUEST_BUDGET_EXHAUSTED_ERROR =
     ''ERR the Ferrite playground request budget is exhausted; try again shortly''"

section \<open>The shared byte budget\<close>

record RequestByteBudget =
  available :: nat

definition new_request_budget :: "nat \<Rightarrow> RequestByteBudget" where
  "new_request_budget capacity = \<lparr>available = capacity\<rparr>"

definition reserve :: "RequestByteBudget \<Rightarrow> nat \<Rightarrow> (nat option \<times> RequestByteBudget, rstring) result" where
  "reserve b n =
     (if n = 0 then Ok (None, b)
      else
        let permits = (if n \<le> U32_MAX then n else U32_MAX) in
        if permits \<le> available b then Ok (Some permits, b\<lparr>available := available b - permits\<rparr>)
        else Err REQUEST_BUDGET_EXHAUSTED_ERROR)"

definition release :: "RequestByteBudget \<Rightarrow> nat list \<Rightarrow> RequestByteBudget" where
  "release b permits = b\<lparr>available := available b + sum_list permits\<rparr>"

definition reserve_state :: "RequestByteBudget \<Rightarrow> nat \<Rightarrow> (RequestByteBudget, rstring) result" where
  "reserve_state b n = and_then (reserve b n) (\<lambda>(_, b). Ok b)"

interpretation request_budget: meter reserve_state "\<lambda>n. n" "\<lambda>b. capacity - available b" "\<lambda>_. capacity"
    "\<lambda>_. REQUEST_BUDGET_EXHAUSTED_ERROR" "\<lambda>b. available b \<le> capacity \<and> capacity < U32_MAX" for capacity
  by unfold_locales (auto simp: reserve_state_def reserve_def Let_def split: if_splits)

section \<open>\<open>read_line\<close>\<close>

text \<open>\<open>take(n)\<close> around \<open>read_until\<close>: the stream seems to end after \<open>n\<close> bytes.\<close>

definition read_until_limited :: "u8 \<Rightarrow> nat \<Rightarrow> stream \<Rightarrow> (bytes \<times> stream, fault) result" where
  "read_until_limited d n s =
     (case split_after d (take n (pending s)) of
        Some (taken, _) \<Rightarrow> Ok (taken, s\<lparr>pending := drop (length taken) (pending s)\<rparr>)
      | None \<Rightarrow>
          if n \<le> length (pending s) then Ok (take n (pending s), s\<lparr>pending := drop n (pending s)\<rparr>)
          else read_until d s)"

definition read_line :: "stream \<Rightarrow> nat \<Rightarrow> (bytes option \<times> stream, fault) result" where
  "read_line s limit =
     and_then (map_err (in_context ''ERR failed to read command: '') (read_until_limited LF (limit + 1) s)) (\<lambda>(line, s).
       if line = [] then Ok (None, s)
       else if \<not> ends_with line [LF] then
         Err (Fail (''ERR Protocol error: command line exceeds '' @ show_nat limit @ '' bytes''))
       else
         let line = butlast line in
         Ok (Some (if ends_with line [CR] then butlast line else line), s))"

definition request_number :: "bytes \<Rightarrow> rstring \<Rightarrow> (int, rstring) result" where
  "request_number payload field =
     (case from_utf8 payload of
        None \<Rightarrow> Err (''ERR Protocol error: invalid '' @ field)
      | Some s \<Rightarrow> map_err (\<lambda>_. ''ERR Protocol error: invalid '' @ field) (parse_i64_str (trim s)))"

section \<open>\<open>read_request\<close>\<close>

datatype Request = Command "bytes list" | Eof

definition read_timeout_error :: rstring where
  "read_timeout_error =
     ''ERR Protocol error: timed out reading command after '' @ show_nat CLIENT_READ_TIMEOUT_SECS @ '' seconds''"

text \<open>The loop over the declared arguments: \<open>sofar\<close> bytes have been declared so far.\<close>

fun read_arguments ::
    "nat \<Rightarrow> nat \<Rightarrow> stream \<Rightarrow> RequestByteBudget \<Rightarrow>
     (bytes list \<times> nat list \<times> stream \<times> RequestByteBudget, fault) result" where
  "read_arguments 0 sofar s b = Ok ([], [], s, b)"
| "read_arguments (Suc n) sofar s b =
     and_then (with_timeout read_timeout_error (read_line s MAX_REQUEST_LINE)) (\<lambda>(header, s).
     and_then (fallible (ok_or ''ERR unexpected end of RESP command'' header)) (\<lambda>header.
     if \<not> starts_with header ''$'' then
       Err (Fail (''ERR Protocol error: expected '' @ [CHR 0x27] @ ''$'' @ [CHR 0x27] @ '', got something else''))
     else and_then (fallible (request_number (drop 1 header) ''bulk length'')) (\<lambda>length.
     if length < 0 \<or> as_usize length > MAX_REQUEST_BULK then
       Err (Fail (''ERR Protocol error: invalid bulk length (maximum '' @ show_nat MAX_REQUEST_BULK @ '' bytes)''))
     else
       let sofar = saturating_add sofar (as_usize length) in
       if sofar > MAX_REQUEST_BYTES then
         Err (Fail (''ERR command is too large (maximum '' @ show_nat MAX_REQUEST_BYTES @ '' bytes)''))
       else and_then (fallible (reserve b (as_usize length))) (\<lambda>(permit, b).
       and_then (with_timeout read_timeout_error
           (map_err (in_context ''ERR failed to read RESP argument: '') (read_exact (as_usize length + 2) s)))
         (\<lambda>(data, s).
       if \<not> ends_with data crlf then Err (Fail ''ERR Protocol error: unbalanced argument terminator'')
       else and_then (read_arguments n sofar s b) (\<lambda>(arguments, reservation, s, b).
         Ok (take (as_usize length) data # arguments,
             (case permit of Some p \<Rightarrow> p # reservation | None \<Rightarrow> reservation), s, b)))))))"

definition read_request ::
    "stream \<Rightarrow> RequestByteBudget \<Rightarrow> (Request \<times> nat list \<times> stream \<times> RequestByteBudget, fault) result" where
  "read_request s b =
     and_then (read_line s MAX_REQUEST_LINE) (\<lambda>(first, s).
       case first of
         None \<Rightarrow> Ok (Eof, [], s, b)
       | Some header \<Rightarrow>
           if \<not> starts_with header ''*'' then
             Err (Fail ''ERR Protocol error: inline commands are not supported; use RESP arrays'')
           else and_then (fallible (request_number (drop 1 header) ''argument count'')) (\<lambda>count.
             if count \<le> 0 then Ok (Command [], [], s, b)
             else if as_usize count > MAX_ARGUMENTS then
               Err (Fail (''ERR command has too many arguments (maximum '' @ show_nat MAX_ARGUMENTS @ '')''))
             else and_then (fallible (reserve b (as_usize count * ARGUMENT_SLOT_OVERHEAD_BYTES))) (\<lambda>(permit, b).
               and_then (read_arguments (as_usize count) 0 s b) (\<lambda>(arguments, reservation, s, b).
                 Ok (Command arguments, (case permit of Some p \<Rightarrow> p # reservation | None \<Rightarrow> reservation), s, b)))))"

end
