(* ===== verification/Proxy_Request_Props.thy ===== *)
theory Proxy_Request_Props
  imports Proxy_Request
begin

text \<open>
  What \<open>read_request\<close> guarantees: the encoding of a command is read back as that command, a command
  it accepts is within the limits and its memory is reserved to the byte, and once a command has
  begun its reading comes to an end.
\<close>

section \<open>Lines and numbers\<close>

lemma split_after_prefix: "d \<notin> set xs \<Longrightarrow> split_after d (xs @ d # ys) = Some (xs @ [d], ys)"
  by simp

lemma read_line_found:
  assumes "LF \<notin> set xs" and "length xs < limit"
  shows "read_line (s\<lparr>pending := xs @ crlf @ rest\<rparr>) limit = Ok (Some xs, s\<lparr>pending := rest\<rparr>)"
proof -
  have "take (limit + 1) (xs @ crlf @ rest) = xs @ CR # LF # take (limit - length xs - 1) rest"
    using assms(2) by (simp add: take_Cons' Suc_diff_le)
  then have "read_until_limited LF (limit + 1) (s\<lparr>pending := xs @ crlf @ rest\<rparr>) =
      Ok (xs @ crlf, s\<lparr>pending := rest\<rparr>)"
    using assms(1) by (simp add: read_until_limited_def)
  moreover have "ends_with (xs @ crlf) [LF]" "butlast (xs @ crlf) = xs @ [CR]"
    using ends_with_append [of "xs @ [CR]" "[LF]"] by (simp_all add: butlast_append)
  ultimately show ?thesis by (simp add: read_line_def)
qed

lemma trim_digits:
  assumes "\<And>c. c \<in> set s \<Longrightarrow> is_digit c"
  shows "trim s = s"
proof -
  have ascii: "str_chars s = map (\<lambda>c. [c]) s"
    using assms
  proof (induction s)
    case (Cons a s)
    from Cons.prems [of a] have "code a < 128" by (simp add: is_digit_iff)
    with Cons show ?case by simp
  qed simp
  have "\<not> is_whitespace c" if "c \<in> set (str_chars s)" for c
  proof -
    from that obtain x where "c = [x]" and "x \<in> set s" by (auto simp: ascii)
    with assms [of x] show ?thesis by (simp add: is_whitespace_def is_digit_iff)
  qed
  then have "dropWhile is_whitespace (str_chars s) = str_chars s"
    "dropWhile is_whitespace (rev (str_chars s)) = rev (str_chars s)"
    by (auto simp: dropWhile_eq_self_iff hd_rev)
  then show ?thesis by (simp add: trim_def trim_chars_def)
qed

lemma request_number_show:
  assumes "n \<le> MAX_REQUEST_BYTES"
  shows "request_number (show_nat n) field = Ok (int n)"
proof -
  have "valid_utf8 (show_nat n)" using valid_utf8_show_int [of "int n"] by (simp only: show_int_of_nat)
  moreover have "trim (show_nat n) = show_nat n" by (rule trim_digits) (rule show_nat_digits)
  moreover have "parse_i64_str (show_nat n) = Ok (int n)"
    using parse_i64_show_int [of "int n"] assms by (simp add: show_int_of_nat in_i64_def limits)
  ultimately show ?thesis by (simp add: request_number_def)
qed

lemma length_show_small: "n \<le> MAX_REQUEST_BYTES \<Longrightarrow> length (show_nat n) \<le> 7"
  by (rule length_show_nat) (simp_all add: limits)

lemma as_usize_small: "n \<le> MAX_REQUEST_BYTES \<Longrightarrow> as_usize (int n) = n"
  by (simp add: as_usize_def limits)

lemma reserve_Ok:
  "n \<le> MAX_REQUEST_BYTES \<Longrightarrow> n \<le> available b \<Longrightarrow>
     reserve b n = Ok (if n = 0 then None else Some n, b\<lparr>available := available b - n\<rparr>)"
  by (simp add: reserve_def limits)

section \<open>Reading back an encoded command\<close>

definition argument_permits :: "bytes list \<Rightarrow> nat list" where
  "argument_permits args = filter (\<lambda>n. 0 < n) (map length args)"

definition command_permits :: "bytes list \<Rightarrow> nat list" where
  "command_permits args = length args * ARGUMENT_SLOT_OVERHEAD_BYTES # argument_permits args"

definition acceptable :: "bytes list \<Rightarrow> bool" where
  "acceptable args \<longleftrightarrow>
     args \<noteq> [] \<and> length args \<le> MAX_ARGUMENTS \<and> (\<forall>a \<in> set args. length a \<le> MAX_REQUEST_BULK) \<and>
     length (concat args) \<le> MAX_REQUEST_BYTES"

lemma sum_argument_permits: "sum_list (argument_permits args) = length (concat args)"
  by (induction args) (simp_all add: argument_permits_def)

lemma read_arguments_encoded:
  assumes "\<forall>a \<in> set args. length a \<le> MAX_REQUEST_BULK" and "sofar + length (concat args) \<le> MAX_REQUEST_BYTES"
    and "length (concat args) \<le> available b"
  shows "read_arguments (length args) sofar (s\<lparr>pending := concat (map encode_argument args) @ rest\<rparr>) b =
           Ok (args, argument_permits args, s\<lparr>pending := rest\<rparr>,
               b\<lparr>available := available b - length (concat args)\<rparr>)"
  using assms
proof (induction args arbitrary: sofar b)
  case Nil
  then show ?case by (simp add: argument_permits_def)
next
  case (Cons a args)
  let ?n = "length a" and ?more = "concat (map encode_argument args) @ rest"
  have n: "?n \<le> MAX_REQUEST_BYTES" "?n \<le> MAX_REQUEST_BULK" "?n \<le> available b"
    using Cons.prems by simp_all
  have sum: "saturating_add sofar ?n = sofar + ?n"
    using Cons.prems(2) by (intro saturating_add_exact) (simp add: limits)
  let ?header = "CHR ''$'' # show_nat ?n"
  have split: "concat (map encode_argument (a # args)) @ rest = ?header @ crlf @ (a @ crlf @ ?more)"
    by (simp add: encode_argument_def)
  have header: "read_line (s\<lparr>pending := ?header @ crlf @ (a @ crlf @ ?more)\<rparr>) MAX_REQUEST_LINE =
      Ok (Some ?header, s\<lparr>pending := a @ crlf @ ?more\<rparr>)"
    using length_show_small [OF n(1)] by (intro read_line_found) (auto simp: show_nat_no_lf limits)
  have data: "read_exact (?n + 2) (s\<lparr>pending := a @ crlf @ ?more\<rparr>) = Ok (a @ crlf, s\<lparr>pending := ?more\<rparr>)"
    by (simp add: read_exact_def)
  have rec: "read_arguments (length args) (sofar + ?n) (s\<lparr>pending := ?more\<rparr>) (b\<lparr>available := available b - ?n\<rparr>) =
      Ok (args, argument_permits args, s\<lparr>pending := rest\<rparr>,
          b\<lparr>available := available b - length (concat (a # args))\<rparr>)"
    using Cons.prems Cons.IH [of "sofar + ?n" "b\<lparr>available := available b - ?n\<rparr>"] by simp
  have range: "\<not> int ?n < 0" "\<not> MAX_REQUEST_BULK < ?n" "\<not> MAX_REQUEST_BYTES < sofar + ?n"
    using n Cons.prems(2) by simp_all
  show ?case
    unfolding split list.size(4) add_0_right add_Suc_right read_arguments.simps header with_timeout_def
    by (simp add: request_number_show [OF n(1)] as_usize_small [OF n(1)] range sum reserve_Ok [OF n(1,3)]
        data [simplified] rec [simplified] argument_permits_def with_timeout_def del: read_arguments.simps)
qed

lemma sum_command_permits:
  "sum_list (command_permits args) = length args * ARGUMENT_SLOT_OVERHEAD_BYTES + length (concat args)"
  by (simp add: command_permits_def sum_argument_permits)

lemma read_request_encoded:
  assumes "acceptable args" and "sum_list (command_permits args) \<le> available b"
  shows "read_request (s\<lparr>pending := encode_command args @ rest\<rparr>) b =
           Ok (Command args, command_permits args, s\<lparr>pending := rest\<rparr>,
               b\<lparr>available := available b - sum_list (command_permits args)\<rparr>)"
proof -
  let ?n = "length args" and ?slots = "length args * ARGUMENT_SLOT_OVERHEAD_BYTES"
  let ?header = "CHR ''*'' # show_nat ?n" and ?more = "concat (map encode_argument args) @ rest"
  have n: "?n \<le> MAX_REQUEST_BYTES" "?n \<le> MAX_ARGUMENTS" "0 < ?n"
    using assms(1) by (simp_all add: acceptable_def limits)
  have slots: "?slots \<le> MAX_REQUEST_BYTES" "?slots \<le> available b" "0 < ?slots"
    using n assms(2) by (simp_all add: sum_command_permits limits)
  have split: "encode_command args @ rest = ?header @ crlf @ ?more" by (simp add: encode_command_def)
  have header: "read_line (s\<lparr>pending := ?header @ crlf @ ?more\<rparr>) MAX_REQUEST_LINE =
      Ok (Some ?header, s\<lparr>pending := ?more\<rparr>)"
    using length_show_small [OF n(1)] by (intro read_line_found) (auto simp: show_nat_no_lf limits)
  have rec: "read_arguments ?n 0 (s\<lparr>pending := ?more\<rparr>) (b\<lparr>available := available b - ?slots\<rparr>) =
      Ok (args, argument_permits args, s\<lparr>pending := rest\<rparr>,
          b\<lparr>available := available b - sum_list (command_permits args)\<rparr>)"
    using assms read_arguments_encoded [of args 0 "b\<lparr>available := available b - ?slots\<rparr>"]
    by (simp add: acceptable_def sum_command_permits)
  have range: "\<not> int ?n \<le> 0" "\<not> MAX_ARGUMENTS < ?n" using n by simp_all
  show ?thesis
    unfolding split read_request_def header
    using range slots(3) by (simp add: request_number_show [OF n(1)] as_usize_small [OF n(1)]
        reserve_Ok [OF slots(1,2)] rec [simplified] command_permits_def del: read_arguments.simps)
qed

text \<open>C12: the encoding of an acceptable command is read back as that command: exactly its bytes leave the
  stream, and the shared budget is left short by 64 bytes per argument plus the bytes of the
  arguments, which the returned reservation holds.\<close>

theorem read_request_roundtrip:
  assumes "acceptable args" and "sum_list (command_permits args) \<le> available b"
  shows "read_request \<lparr>pending = encode_command args @ rest, ending = e\<rparr> b =
           Ok (Command args, command_permits args, \<lparr>pending = rest, ending = e\<rparr>,
               b\<lparr>available := available b - sum_list (command_permits args)\<rparr>) \<and>
         sum_list (command_permits args) = 64 * length args + length (concat args)"
  using read_request_encoded [OF assms, where s = "\<lparr>pending = [], ending = e\<rparr>" and rest = rest]
  by (simp add: sum_command_permits ARGUMENT_SLOT_OVERHEAD_BYTES_def)

theorem read_request_roundtrip_witness:
  "read_request \<lparr>pending = encode_command [''GET'', ''k''] @ ''*1'', ending = Silent\<rparr> (new_request_budget 200) =
     Ok (Command [''GET'', ''k''], command_permits [''GET'', ''k''], \<lparr>pending = ''*1'', ending = Silent\<rparr>,
         new_request_budget 68)"
  using read_request_roundtrip [of "[''GET'', ''k'']" "new_request_budget 200" "''*1''" Silent]
  by (simp add: acceptable_def command_permits_def argument_permits_def new_request_budget_def limits)

section \<open>A command that is accepted\<close>

lemma reserve_cases:
  assumes "reserve b n = Ok (permit, b')" and "n \<le> MAX_REQUEST_BYTES"
  shows "n \<le> available b \<and> permit = (if n = 0 then None else Some n) \<and> b' = b\<lparr>available := available b - n\<rparr>"
  using assms by (auto simp: reserve_def Let_def limits split: if_split_asm)

lemma read_arguments_Ok:
  "read_arguments n sofar s b = Ok (args, permits, s', b') \<Longrightarrow> sofar \<le> MAX_REQUEST_BYTES \<Longrightarrow>
     length args = n \<and> (\<forall>a \<in> set args. length a \<le> MAX_REQUEST_BULK) \<and>
     sofar + length (concat args) \<le> MAX_REQUEST_BYTES \<and> permits = argument_permits args \<and>
     length (concat args) \<le> available b \<and> b' = b\<lparr>available := available b - length (concat args)\<rparr>"
proof (induction n arbitrary: sofar s b args permits)
  case 0
  then show ?case by (simp add: argument_permits_def)
next
  case (Suc n)
  from Suc.prems(1) obtain i permit b1 s1 data s2 rest_args rest_permits where
    i: "\<not> i < 0" "\<not> MAX_REQUEST_BULK < as_usize i"
    and size: "\<not> MAX_REQUEST_BYTES < saturating_add sofar (as_usize i)"
    and permit: "reserve b (as_usize i) = Ok (permit, b1)"
    and data: "read_exact (as_usize i + 2) s1 = Ok (data, s2)"
    and rec: "read_arguments n (saturating_add sofar (as_usize i)) s2 b1 = Ok (rest_args, rest_permits, s', b')"
    and args: "args = take (as_usize i) data # rest_args"
    and permits: "permits = (case permit of Some p \<Rightarrow> p # rest_permits | None \<Rightarrow> rest_permits)"
    by (clarsimp simp: Let_def simp del: add_2_eq_Suc' split: if_split_asm)
  let ?a = "take (as_usize i) data"
  have a: "length ?a = as_usize i" using read_exact_Ok [OF data] by simp
  have sum: "saturating_add sofar (as_usize i) = sofar + as_usize i"
    using size saturating_add_gt [of MAX_REQUEST_BYTES sofar "as_usize i"]
    by (intro saturating_add_exact) (simp add: limits)
  have small: "as_usize i \<le> MAX_REQUEST_BYTES" using i(2) by (simp add: limits)
  note r = reserve_cases [OF permit small]
  from Suc.IH [OF rec] size sum have ih: "length rest_args = n"
    "\<forall>a \<in> set rest_args. length a \<le> MAX_REQUEST_BULK"
    "sofar + as_usize i + length (concat rest_args) \<le> MAX_REQUEST_BYTES" "rest_permits = argument_permits rest_args"
    "length (concat rest_args) \<le> available b1" "b' = b1\<lparr>available := available b1 - length (concat rest_args)\<rparr>"
    by simp_all
  have "permits = argument_permits args"
    using r ih(4) a by (simp add: permits args argument_permits_def split: if_splits)
  then show ?case using ih r a i(2) by (simp add: args) linarith
qed

lemma read_request_Ok:
  assumes "read_request s b = Ok (Command args, permits, s', b')" and "args \<noteq> []"
  shows "acceptable args \<and> permits = command_permits args \<and> sum_list permits \<le> available b \<and>
         b' = b\<lparr>available := available b - sum_list permits\<rparr>"
proof -
  from assms(1) obtain first s1 where "read_line s MAX_REQUEST_LINE = Ok (first, s1)"
    by (auto simp: read_request_def)
  with assms(1) obtain header where "read_line s MAX_REQUEST_LINE = Ok (Some header, s1)"
    by (cases first) (simp_all add: read_request_def)
  with assms obtain i permit b1 rest where
    i: "\<not> i \<le> 0" "\<not> MAX_ARGUMENTS < as_usize i"
    and permit: "reserve b (as_usize i * ARGUMENT_SLOT_OVERHEAD_BYTES) = Ok (permit, b1)"
    and rec: "read_arguments (as_usize i) 0 s1 b1 = Ok (args, rest, s', b')"
    and permits: "permits = (case permit of Some p \<Rightarrow> p # rest | None \<Rightarrow> rest)"
    by (clarsimp simp: read_request_def split: if_split_asm)
  have small: "as_usize i * ARGUMENT_SLOT_OVERHEAD_BYTES \<le> MAX_REQUEST_BYTES" using i(2) by (simp add: limits)
  note r = reserve_cases [OF permit small]
  have "(0 :: nat) \<le> MAX_REQUEST_BYTES" by simp
  note a = read_arguments_Ok [OF rec this]
  have n: "0 < as_usize i" using a assms(2) by (cases args) auto
  then have "permit = Some (as_usize i * ARGUMENT_SLOT_OVERHEAD_BYTES)" using r by (simp add: limits)
  then have "permits = command_permits args" using permits a by (simp add: command_permits_def)
  then show ?thesis using a r i(2) assms(2) by (simp add: acceptable_def sum_command_permits) linarith
qed

text \<open>C13: whatever bytes arrive, a command that \<open>read_request\<close> accepts has at most 256 arguments of at most
  256 KiB each and 1 MiB together, and its memory is reserved to the byte: the permits it holds are
  taken from the free ones, which therefore never run below zero.\<close>

theorem accepted_request_bounded:
  assumes "read_request s b = Ok (Command args, permits, s', b')" and "args \<noteq> []"
  shows "length args \<le> 256 \<and> (\<forall>a \<in> set args. length a \<le> 256 * 1024) \<and> length (concat args) \<le> 1024 * 1024 \<and>
         sum_list permits = 64 * length args + length (concat args) \<and>
         available b' + sum_list permits = available b"
  using read_request_Ok [OF assms]
  by (auto simp: acceptable_def sum_command_permits limits)

theorem accepted_request_bounded_witness:
  "\<exists>b' :: RequestByteBudget. available b' + sum_list (command_permits [''PING'']) = 100"
proof -
  have "read_request \<lparr>pending = encode_command [''PING''], ending = Silent\<rparr> (new_request_budget 100) =
      Ok (Command [''PING''], command_permits [''PING''], \<lparr>pending = [], ending = Silent\<rparr>, new_request_budget 32)"
    using read_request_encoded [of "[''PING'']" "new_request_budget 100" "[]" "\<lparr>pending = [], ending = Silent\<rparr>"]
    by (simp add: acceptable_def command_permits_def argument_permits_def new_request_budget_def limits)
  from accepted_request_bounded [OF this] have
    "available (new_request_budget 32) + sum_list (command_permits [''PING'']) = available (new_request_budget 100)"
    by simp
  then have "available (new_request_budget 32) + sum_list (command_permits [''PING'']) = 100"
    by (simp add: new_request_budget_def)
  then show ?thesis by blast
qed

section \<open>A command that has begun is read to an end\<close>

lemma read_until_limited_Hang:
  "read_until_limited d n s = Err Hang \<Longrightarrow> ending s = Silent \<and> d \<notin> set (pending s) \<and> length (pending s) < n"
  by (auto simp: read_until_limited_def split_after_None read_until_def split: option.split_asm if_split_asm
      stream_end.split_asm dest!: split_after_Some)

lemma read_line_Hang:
  "read_line s limit = Err Hang \<Longrightarrow> ending s = Silent \<and> LF \<notin> set (pending s) \<and> length (pending s) \<le> limit"
  by (auto simp: read_line_def Let_def less_Suc_eq_le dest!: read_until_limited_Hang split: if_split_asm)

lemma read_arguments_no_Hang: "read_arguments n sofar s b \<noteq> Err Hang"
proof (induction n arbitrary: sofar s b)
  case (Suc n)
  then show ?case by (auto simp: Let_def split: if_split_asm)
qed simp

text \<open>C35: reading a request can wait without an end of its own only for the first line of a command; once
  that line has arrived every further wait is cut off, so a client that declares sizes and then
  stalls cannot keep its reservation.\<close>

theorem started_command_completes:
  assumes "LF \<in> set (pending s) \<or> MAX_REQUEST_LINE < length (pending s) \<or> ending s \<noteq> Silent"
  shows "read_request s b \<noteq> Err Hang"
proof
  assume "read_request s b = Err Hang"
  then have "read_line s MAX_REQUEST_LINE = Err Hang"
    by (auto simp: read_request_def read_arguments_no_Hang split: option.split_asm if_split_asm)
  with read_line_Hang [OF this] assms show False by auto
qed

theorem started_command_completes_witness:
  "read_request \<lparr>pending = ''*2'' @ crlf @ ''$9'', ending = Silent\<rparr> (new_request_budget 4096) \<noteq> Err Hang"
  by (rule started_command_completes) simp

section \<open>Pipelines of commands\<close>

definition read_command :: "stream \<Rightarrow> (bytes list \<times> stream, fault) result" where
  "read_command s =
     and_then (read_request s (new_request_budget MAX_IN_FLIGHT_REQUEST_BYTES)) (\<lambda>(request, _, s, _).
       case request of Command args \<Rightarrow> Ok (args, s) | Eof \<Rightarrow> Err (Fail []))"

lemma acceptable_affordable: "acceptable args \<Longrightarrow> sum_list (command_permits args) \<le> MAX_IN_FLIGHT_REQUEST_BYTES"
  by (simp add: acceptable_def sum_command_permits limits)

interpretation request_codec: frame_codec encode_command read_command acceptable
  by unfold_locales
    (simp add: read_command_def read_request_encoded acceptable_affordable new_request_budget_def)

text \<open>A pipeline of acceptable commands is taken apart into exactly these commands, in order; no byte of
  an argument is ever taken for the start of another command.\<close>

theorem pipelined_commands:
  assumes "list_all acceptable commands"
  shows "decode_all read_command (length commands)
           \<lparr>pending = concat (map encode_command commands) @ rest, ending = e\<rparr> =
         Ok (commands, \<lparr>pending = rest, ending = e\<rparr>)"
  using request_codec.decode_pipeline [OF assms, where s = "\<lparr>pending = [], ending = e\<rparr>" and rest = rest]
  by simp

theorem pipelined_commands_witness:
  "decode_all read_command 2
     \<lparr>pending = concat (map encode_command [[''SET'', ''k'', ''*1'' @ crlf], [''GET'', ''k'']]), ending = Silent\<rparr> =
   Ok ([[''SET'', ''k'', ''*1'' @ crlf], [''GET'', ''k'']], \<lparr>pending = [], ending = Silent\<rparr>)"
  using pipelined_commands [of "[[''SET'', ''k'', ''*1'' @ crlf], [''GET'', ''k'']]" "[]" Silent]
  by (simp add: acceptable_def limits numeral_2_eq_2)

end
