(* ===== verification/Proxy.thy ===== *)
theory Proxy
  imports Proxy_Request_Props Forwarding
begin

text \<open>
  One public connection of the proxy (\<open>proxy.rs\<close>): \<open>forward\<close> to the Ferrite child, the iteration of
  \<open>handle_connection\<close> and its loop.

  The child, the network and the client are the environment of \<open>Child_Link\<close>.  A read that stalls
  inside a started command is cut off by its own deadline;
  the wait for the first line by the idle deadline.
\<close>

section \<open>A connection\<close>

record 'w conn =
  client :: stream
  upstream :: "stream option"
  request_budget :: RequestByteBudget
  backend_permits :: nat
  world :: 'w

definition CLIENT_WRITE_TIMEOUT_SECS :: nat where
  [limits]: "CLIENT_WRITE_TIMEOUT_SECS = 2"

definition UPSTREAM_STATE_LOSS_ERROR :: rstring where
  "UPSTREAM_STATE_LOSS_ERROR =
     ''ERR playground upstream state was lost; reconnect before sending another command''"

definition IDLE_TIMEOUT_ERROR :: rstring where
  "IDLE_TIMEOUT_ERROR = ''ERR playground client idle timeout''"

definition BACKEND_BUSY_ERROR :: rstring where
  "BACKEND_BUSY_ERROR = ''ERR the Ferrite playground backend is busy; try again shortly''"

definition TOO_MANY_CONNECTIONS_ERROR :: rstring where
  "TOO_MANY_CONNECTIONS_ERROR = ''ERR the Ferrite playground has too many connections; try again shortly''"

section \<open>Replies to the client\<close>

definition write_response :: "'w env \<Rightarrow> bytes \<Rightarrow> 'w conn \<Rightarrow> (unit, rstring) result \<times> 'w conn" where
  "write_response env encoded c =
     (case deliver env encoded (world c) of
        (r, w) \<Rightarrow>
          (case r of
             Ok _ \<Rightarrow> Ok ()
           | Err (Fail e) \<Rightarrow> Err e
           | Err Hang \<Rightarrow> Err (''client write timeout after '' @ show_nat CLIENT_WRITE_TIMEOUT_SECS @ '' seconds''),
           c\<lparr>world := w\<rparr>))"

definition write_backend_response :: "'w env \<Rightarrow> bytes \<Rightarrow> 'w conn \<Rightarrow> (unit, rstring) result \<times> 'w conn" where
  "write_backend_response env encoded c =
     (case write_response env encoded c of
        (r, c) \<Rightarrow> (r, c\<lparr>backend_permits := backend_permits c + 1\<rparr>))"

section \<open>\<open>forward\<close>\<close>

definition established ::
    "'w env \<Rightarrow> rstring \<Rightarrow> stream option \<Rightarrow> 'w \<Rightarrow> (stream, fault) result \<times> 'w" where
  "established env addr up w =
     (case up of
        Some s \<Rightarrow> (Ok s, w)
      | None \<Rightarrow>
          (case connect env addr w of
             (r, w) \<Rightarrow>
               (with_timeout (''timed out connecting to '' @ addr)
                  (map_err (in_context (''could not connect to '' @ addr @ '': '')) r), w)))"

definition upstream_timeout_error :: rstring where
  "upstream_timeout_error = ''upstream RESP timeout after '' @ show_nat RESP_TIMEOUT_SECS @ '' seconds''"

text \<open>
  The value and the upstream stream after it.  The text of an error only goes to the log, where
  the code adds how many bytes of the reply had been read.
\<close>

definition forward ::
    "'w env \<Rightarrow> rstring \<Rightarrow> stream option \<Rightarrow> bytes list \<Rightarrow> 'w \<Rightarrow> (RespValue \<times> stream, fault) result \<times> 'w" where
  "forward env addr up args w =
     (case established env addr up w of
        (Err f, w) \<Rightarrow> (Err f, w)
      | (Ok s, w) \<Rightarrow>
          (case send env (encode_command args) s w of
             (sent, w) \<Rightarrow>
               (case with_timeout upstream_timeout_error (map_err (in_context ''failed to forward RESP command: '') sent) of
                  Err f \<Rightarrow> (Err f, w)
                | Ok s \<Rightarrow>
                    (case flush env s w of
                       (flushed, w) \<Rightarrow>
                         (with_timeout upstream_timeout_error
                            (and_then (map_err (in_context ''failed to flush RESP command: '') flushed) (\<lambda>s.
                             and_then (read_value 0 s default_budget) (\<lambda>(v, s, _). Ok (v, s)))), w)))))"

section \<open>One iteration of \<open>handle_connection\<close>\<close>

datatype 'w flow = Running "'w conn" | Finished "(unit, rstring) result" "'w conn" | Panicked "'w conn"

fun on_flow :: "('w conn \<Rightarrow> 'w conn) \<Rightarrow> 'w flow \<Rightarrow> 'w flow" where
  "on_flow f (Running c) = Running (f c)"
| "on_flow f (Finished r c) = Finished r (f c)"
| "on_flow f (Panicked c) = Panicked (f c)"

text \<open>A refusal: write the error reply and go on, or end the connection when it cannot be written.\<close>

definition refuse :: "'w env \<Rightarrow> rstring \<Rightarrow> rstring \<Rightarrow> 'w conn \<Rightarrow> 'w flow" where
  "refuse env msg context_text c =
     (case encode_error msg of
        None \<Rightarrow> Panicked c
      | Some encoded \<Rightarrow>
          (case write_response env encoded c of
             (Ok _, c) \<Rightarrow> Running c
           | (Err e, c) \<Rightarrow> Finished (Err (context_text @ e)) c))"

text \<open>The end of a connection: write an error reply, whether it arrives or not, and close.\<close>

definition close_with :: "'w env \<Rightarrow> rstring \<Rightarrow> 'w conn \<Rightarrow> 'w flow" where
  "close_with env msg c =
     (case encode_error msg of
        None \<Rightarrow> Panicked c
      | Some encoded \<Rightarrow> (case write_response env encoded c of (_, c) \<Rightarrow> Finished (Ok ()) c))"

text \<open>The reply of the child, and whether the client has to be closed after it.\<close>

definition encode_reply :: "(RespValue \<times> stream, fault) result \<Rightarrow> bytes option \<times> bool" where
  "encode_reply reply =
     (case reply of
        Ok (v, _) \<Rightarrow>
          (case encode_value v [] MAX_RESPONSE_BYTES of
             Ok encoded \<Rightarrow> (Some encoded, False)
           | Err _ \<Rightarrow> (encode_error UPSTREAM_STATE_LOSS_ERROR, True))
      | Err _ \<Rightarrow> (encode_error UPSTREAM_STATE_LOSS_ERROR, True))"

definition upstream_after :: "(RespValue \<times> stream, fault) result \<Rightarrow> stream option \<Rightarrow> stream option" where
  "upstream_after reply before = (case reply of Ok (_, s) \<Rightarrow> Some s | Err _ \<Rightarrow> before)"

definition serve_command :: "'w env \<Rightarrow> rstring \<Rightarrow> bytes list \<Rightarrow> 'w conn \<Rightarrow> 'w flow" where
  "serve_command env addr args c =
     (let decision = classify_bytes_arguments args in
      if \<not> is_allowed decision then refuse env (message decision) ''failed to write policy rejection: '' c
      else if backend_permits c = 0 then
        refuse env BACKEND_BUSY_ERROR ''failed to write saturation rejection: '' c
      else
        let c = c\<lparr>backend_permits := backend_permits c - 1\<rparr> in
        case forward env addr (upstream c) args (world c) of
          (reply, w) \<Rightarrow>
            (let c = c\<lparr>upstream := upstream_after reply (upstream c), world := w\<rparr> in
             case encode_reply reply of
               (None, _) \<Rightarrow> Panicked (c\<lparr>backend_permits := backend_permits c + 1\<rparr>)
             | (Some encoded, close_client) \<Rightarrow>
                 (case write_backend_response env encoded c of
                    (Err e, c) \<Rightarrow> Finished (Err (''failed to write RESP reply: '' @ e)) c
                  | (Ok _, c) \<Rightarrow> if close_client then Finished (Ok ()) c else Running c)))"

text \<open>However an iteration ends, the reservation of its request is dropped.\<close>

definition drop_reservation :: "nat list \<Rightarrow> 'w conn \<Rightarrow> 'w conn" where
  "drop_reservation reservation c = c\<lparr>request_budget := release (request_budget c) reservation\<rparr>"

definition handle_step :: "'w env \<Rightarrow> rstring \<Rightarrow> 'w conn \<Rightarrow> 'w flow" where
  "handle_step env addr c =
     (case read_request (client c) (request_budget c) of
        Err Hang \<Rightarrow> close_with env IDLE_TIMEOUT_ERROR c
      | Err (Fail e) \<Rightarrow> close_with env e c
      | Ok (request, reservation, s, b) \<Rightarrow>
          (let c = c\<lparr>client := s, request_budget := b\<rparr> in
           on_flow (drop_reservation reservation)
             (case request of
                Eof \<Rightarrow> Finished (Ok ()) c
              | Command args \<Rightarrow> if args = [] then Running c else serve_command env addr args c)))"

section \<open>The loop\<close>

text \<open>Each iteration that goes on has taken at least one line of what the client sends.\<close>

lemma read_until_limited_Ok:
  "read_until_limited d n s = Ok (a, s') \<Longrightarrow> pending s = a @ pending s'"
  by (auto simp: read_until_limited_def split: option.split_asm if_split_asm
      dest!: split_after_Some read_until_Ok)
    (metis append_take_drop_id append_eq_conv_conj append_assoc)

lemma read_line_Ok:
  "read_line s limit = Ok (l, s') \<Longrightarrow> length (pending s') \<le> length (pending s) \<and>
     (l \<noteq> None \<longrightarrow> length (pending s') < length (pending s))"
  by (auto simp: read_line_def Let_def dest!: read_until_limited_Ok split: if_split_asm)

lemma read_arguments_shrinks:
  "read_arguments n sofar s b = Ok (args, permits, s', b') \<Longrightarrow> length (pending s') \<le> length (pending s)"
proof (induction n arbitrary: sofar s b args permits)
  case (Suc n)
  then obtain header s1 m data s2 sofar1 b1 args1 permits1 where
    "read_line s MAX_REQUEST_LINE = Ok (header, s1)" "read_exact m s1 = Ok (data, s2)"
    "read_arguments n sofar1 s2 b1 = Ok (args1, permits1, s', b')"
    by (clarsimp simp: Let_def simp del: add_2_eq_Suc' split: if_split_asm)
  with Suc.IH read_line_Ok [of s MAX_REQUEST_LINE header s1] read_exact_Ok [of m s1 data s2]
  show ?case by fastforce
qed simp

lemma read_request_shrinks:
  assumes "read_request s b = Ok (Command args, permits, s', b')"
  shows "length (pending s') < length (pending s)"
proof -
  from assms obtain first s1 where l: "read_line s MAX_REQUEST_LINE = Ok (first, s1)"
    by (auto simp: read_request_def)
  with assms obtain header where first: "first = Some header"
    by (cases first) (simp_all add: read_request_def)
  with l have "length (pending s1) < length (pending s)" by (auto dest: read_line_Ok)
  moreover have "length (pending s') \<le> length (pending s1)"
    using assms l first by (auto simp: read_request_def split: if_split_asm dest: read_arguments_shrinks)
  ultimately show ?thesis by simp
qed

lemma refuse_client: "refuse env msg context_text c = Running c' \<Longrightarrow> client c' = client c"
  by (auto simp: refuse_def write_response_def split: option.split_asm prod.split_asm result.split_asm)

lemma serve_command_client: "serve_command env addr args c = Running c' \<Longrightarrow> client c' = client c"
  by (auto simp: serve_command_def Let_def write_backend_response_def write_response_def
      split: if_split_asm option.split_asm prod.split_asm result.split_asm dest: refuse_client)

lemma on_flow_Running: "on_flow f r = Running c \<longleftrightarrow> (\<exists>c'. r = Running c' \<and> c = f c')"
  by (cases r) auto

lemma handle_step_shrinks:
  assumes "handle_step env addr c = Running c'"
  shows "length (pending (client c')) < length (pending (client c))"
  using assms
  by (auto simp: handle_step_def Let_def on_flow_Running drop_reservation_def close_with_def
      split: result.split_asm fault.split_asm prod.split_asm Request.split_asm option.split_asm if_split_asm
      dest!: serve_command_client read_request_shrinks)

function handle_connection :: "'w env \<Rightarrow> rstring \<Rightarrow> 'w conn \<Rightarrow> 'w flow" where
  "handle_connection env addr c =
     (case handle_step env addr c of
        Running c' \<Rightarrow> handle_connection env addr c'
      | other \<Rightarrow> other)"
  by pat_completeness auto
termination
  by (relation "measure (\<lambda>(_, _, c). length (pending (client c)))") (simp_all add: handle_step_shrinks)

declare handle_connection.simps [simp del]

end
