(* ===== verification/Mock_Ferrite.thy ===== *)
theory Mock_Ferrite
  imports Proxy Resp_Json
begin

text \<open>
  The in-process stand-in for the Ferrite child (\<open>testing.rs\<close>): its data, the commands it answers and
  the loop that serves one connection.  It reads requests with the proxy's own \<open>read_request\<close>.

  A panic of its task (an index or an addition out of range) is \<open>None\<close>; it ends the connection.
  The hash map of the data is a partial function, a \<open>BTreeSet\<close> a sorted list.
\<close>

section \<open>Data\<close>

datatype Stored =
    Str rstring
  | Bytes bytes
  | List "rstring list"
  | SetOf "rstring list"
  | Hash "(rstring \<times> rstring) list"
  | ZSet "(rstring \<times> rstring) list"
  | Stream "(rstring \<times> rstring list) list"

fun type_name :: "Stored \<Rightarrow> rstring" where
  "type_name (Str _) = ''string''"
| "type_name (Bytes _) = ''string''"
| "type_name (List _) = ''list''"
| "type_name (SetOf _) = ''set''"
| "type_name (Hash _) = ''hash''"
| "type_name (ZSet _) = ''zset''"
| "type_name (Stream _) = ''stream''"

record SessionCommand =
  command_name :: rstring
  command_arguments :: "rstring list"
  database :: nat
  protocol :: nat

record MockState =
  commands :: "rstring list"
  session_commands :: "SessionCommand list"
  shutdown :: bool
  data :: "rstring \<Rightarrow> Stored option"

text \<open>What the tests ask the mock for.\<close>

definition received_commands :: "MockState \<Rightarrow> rstring list" where
  "received_commands st = commands st"

definition received_in_sessions :: "MockState \<Rightarrow> SessionCommand list" where
  "received_in_sessions st = session_commands st"

definition was_shutdown :: "MockState \<Rightarrow> bool" where
  "was_shutdown st = shutdown st"

definition empty_mock :: MockState where
  "empty_mock = \<lparr>commands = [], session_commands = [], shutdown = False, data = Map.empty\<rparr>"

definition seed :: "rstring \<Rightarrow> Stored \<Rightarrow> MockState \<Rightarrow> MockState" where
  "seed key value st = st\<lparr>data := (data st)(key \<mapsto> value)\<rparr>"

definition seed_string :: "rstring \<Rightarrow> rstring \<Rightarrow> MockState \<Rightarrow> MockState" where
  "seed_string key value = seed key (Str value)"

definition seed_bytes :: "rstring \<Rightarrow> bytes \<Rightarrow> MockState \<Rightarrow> MockState" where
  "seed_bytes key value = seed key (Bytes value)"

definition seed_list :: "rstring \<Rightarrow> rstring list \<Rightarrow> MockState \<Rightarrow> MockState" where
  "seed_list key values = seed key (List values)"

definition seed_zset :: "rstring \<Rightarrow> (rstring \<times> rstring) list \<Rightarrow> MockState \<Rightarrow> MockState" where
  "seed_zset key values = seed key (ZSet values)"

definition seed_stream :: "rstring \<Rightarrow> (rstring \<times> rstring list) list \<Rightarrow> MockState \<Rightarrow> MockState" where
  "seed_stream key entries = seed key (Stream entries)"

definition seed_set :: "rstring \<Rightarrow> rstring list \<Rightarrow> MockState \<Rightarrow> MockState" where
  "seed_set key members st = seed key (SetOf (sort (remdups members))) st"

definition seed_hash :: "rstring \<Rightarrow> (rstring \<times> rstring) list \<Rightarrow> MockState \<Rightarrow> MockState" where
  "seed_hash key entries st = seed key (Hash (fold (\<lambda>(k, v). object_insert k v) entries [])) st"

section \<open>Numbers\<close>

text \<open>\<open>parse().ok()\<close> with a default, for the unsigned and the signed 64-bit type and for a byte.\<close>

definition parse_or :: "(rstring \<Rightarrow> ('n, int_error) result) \<Rightarrow> 'n \<Rightarrow> rstring \<Rightarrow> 'n" where
  "parse_or parser otherwise s = (case parser s of Ok n \<Rightarrow> n | Err _ \<Rightarrow> otherwise)"

definition parse_u8_str :: "rstring \<Rightarrow> (nat, int_error) result" where
  "parse_u8_str s = and_then (parse_u64_str s) (\<lambda>n. if n \<le> 255 then Ok n else Err PosOverflow)"

text \<open>The cast \<open>n as i64\<close>, and \<open>xs[start..=stop]\<close>, which panics out of range.\<close>

definition as_i64 :: "nat \<Rightarrow> int" where
  "as_i64 n = (if int n \<le> I64_MAX then int n else int n - 2 ^ 64)"

definition slice :: "'a list \<Rightarrow> nat \<Rightarrow> nat \<Rightarrow> 'a list option" where
  "slice xs start stop =
     (if stop < length xs \<and> start \<le> stop + 1 then Some (take (stop + 1 - start) (drop start xs)) else None)"

section \<open>Replies\<close>

definition bulk :: "bytes \<Rightarrow> RespValue" where
  "bulk value = Bulk (Some value)"

definition range_bulk :: "bytes \<Rightarrow> rstring list \<Rightarrow> RespValue option" where
  "range_bulk value args =
     (if length args < 3 then None
      else
        let start = parse_or parse_u64_str 0 (args ! 1);
            end = parse_or parse_i64_str (-1) (args ! 2);
            end = (if end < 0 then length value - 1 else min (as_usize end) (length value - 1))
        in if start > end \<or> value = [] then Some (bulk []) else map_option bulk (slice value start end))"

text \<open>A window of a collection: the elements from \<open>args[1]\<close> to \<open>args[2]\<close>, a negative end counted from behind.\<close>

definition window :: "'a list \<Rightarrow> rstring list \<Rightarrow> 'a list option" where
  "window xs args =
     (if length args < 3 then None
      else
        let start = parse_or parse_u64_str 0 (args ! 1);
            stop = parse_or parse_i64_str (-1) (args ! 2);
            stop = min (if stop < 0 then int (length xs) + stop else stop) (int (length xs) - 1)
        in if stop < as_i64 start then Some [] else slice xs start (as_usize stop))"

definition scan_cursor_and_count :: "rstring list \<Rightarrow> nat \<times> nat" where
  "scan_cursor_and_count args =
     (case get args 1 of Some value \<Rightarrow> parse_or parse_u64_str 0 value | None \<Rightarrow> 0,
      case position (\<lambda>a. eq_ignore_ascii_case a ''COUNT'') args of
        Some index \<Rightarrow> (case get args (index + 1) of Some value \<Rightarrow> parse_or parse_u64_str 10 value | None \<Rightarrow> 10)
      | None \<Rightarrow> 10)"

definition scan_page :: "rstring list \<Rightarrow> nat \<Rightarrow> rstring list \<Rightarrow> RespValue option" where
  "scan_page members width args =
     (let (cursor, count) = scan_cursor_and_count args in
      if count * width > USIZE_MAX \<or> cursor + count * width > USIZE_MAX then None
      else
        let end = min (cursor + count * width) (length members);
            next = (if length members \<le> end then 0 else end)
        in Some (Array (Some [bulk (show_nat next),
             Array (Some (map bulk (take (end - min cursor (length members)) (drop (min cursor (length members)) members))))])))"

definition scan_reply :: "rstring list \<Rightarrow> rstring list \<Rightarrow> RespValue option" where
  "scan_reply members args = scan_page members 1 args"

definition scan_pairs_reply :: "rstring list \<Rightarrow> rstring list \<Rightarrow> RespValue option" where
  "scan_pairs_reply flat_entries args = scan_page flat_entries 2 args"

definition stream_entry :: "rstring \<times> rstring list \<Rightarrow> RespValue" where
  "stream_entry entry = Array (Some [bulk (fst entry), Array (Some (map bulk (snd entry)))])"

definition on_key :: "MockState \<Rightarrow> rstring list \<Rightarrow> (Stored option \<Rightarrow> RespValue option) \<Rightarrow> RespValue option" where
  "on_key st args reply = (case args of [] \<Rightarrow> None | key # _ \<Rightarrow> reply (data st key))"

definition size_reply :: "nat option \<Rightarrow> RespValue option" where
  "size_reply n = Some (Integer (case n of Some n \<Rightarrow> as_i64 n | None \<Rightarrow> 0))"

text \<open>The replies made to order for the tests of the response bounds, and to an unknown command.\<close>

definition generated_reply :: "rstring \<Rightarrow> rstring list \<Rightarrow> RespValue option" where
  "generated_reply name args =
     (if name = ''MOCKBULK'' then
        (case args of
           [] \<Rightarrow> None
         | n # _ \<Rightarrow> Some (Bulk (Some (replicate (parse_or parse_u64_str 0 n) (CHR ''x'')))))
      else if name = ''MOCKARRAY'' then
        (case args of
           [] \<Rightarrow> None
         | n # rest \<Rightarrow>
             Some (Array (Some (replicate (parse_or parse_u64_str 0 n)
               (Bulk (Some (replicate (case rest of m # _ \<Rightarrow> parse_or parse_u64_str 1 m | [] \<Rightarrow> 1) (CHR ''y''))))))))
      else Some (Error (''ERR unknown command '' @ [CHR 0x27] @ name @ [CHR 0x27])))"

definition dispatch_read :: "MockState \<Rightarrow> rstring \<Rightarrow> rstring list \<Rightarrow> RespValue option" where
  "dispatch_read st name args =
     (if name = ''PING'' then Some (Simple ''PONG'')
      else if name = ''SELECT'' then Some (Simple ''OK'')
      else if name = ''HELLO'' then
        Some (Map [(bulk ''proto'', Integer 3), (bulk ''server'', bulk ''ferrite-mock'')])
      else if name = ''ECHO'' then
        (case args of value # _ \<Rightarrow> Some (bulk value) | [] \<Rightarrow> Some (Error ''ERR wrong number of arguments''))
      else if name = ''GET'' then
        Some (case data st (case args of key # _ \<Rightarrow> key | [] \<Rightarrow> []) of
                Some (Str value) \<Rightarrow> bulk value
              | Some (Bytes value) \<Rightarrow> Bulk (Some value)
              | Some _ \<Rightarrow> Error ''WRONGTYPE''
              | None \<Rightarrow> Bulk None)
      else if name = ''TYPE'' then
        on_key st args (\<lambda>found. Some (Simple (case found of Some value \<Rightarrow> type_name value | None \<Rightarrow> ''none'')))
      else if name = ''TTL'' then Some (Integer (-1))
      else if name = ''STRLEN'' then
        on_key st args (\<lambda>found. size_reply
          (case found of Some (Str value) \<Rightarrow> Some (length value) | Some (Bytes value) \<Rightarrow> Some (length value) | _ \<Rightarrow> None))
      else if name = ''GETRANGE'' then
        on_key st args (\<lambda>found.
          case found of
            Some (Str value) \<Rightarrow> range_bulk value args
          | Some (Bytes value) \<Rightarrow> range_bulk value args
          | _ \<Rightarrow> Some (bulk []))
      else if name = ''LLEN'' then
        on_key st args (\<lambda>found. size_reply (case found of Some (List xs) \<Rightarrow> Some (length xs) | _ \<Rightarrow> None))
      else if name = ''LRANGE'' then
        on_key st args (\<lambda>found.
          case found of
            Some (List xs) \<Rightarrow> map_option (\<lambda>ys. Array (Some (map bulk ys))) (window xs args)
          | _ \<Rightarrow> Some (Array (Some [])))
      else if name = ''SCARD'' then
        on_key st args (\<lambda>found. size_reply (case found of Some (SetOf xs) \<Rightarrow> Some (length xs) | _ \<Rightarrow> None))
      else if name = ''SSCAN'' then
        on_key st args (\<lambda>found. scan_reply (case found of Some (SetOf xs) \<Rightarrow> xs | _ \<Rightarrow> []) args)
      else if name = ''HLEN'' then
        on_key st args (\<lambda>found. size_reply (case found of Some (Hash es) \<Rightarrow> Some (length es) | _ \<Rightarrow> None))
      else if name = ''HSCAN'' then
        on_key st args (\<lambda>found.
          scan_pairs_reply (case found of Some (Hash es) \<Rightarrow> concat (map (\<lambda>(f, v). [f, v]) es) | _ \<Rightarrow> []) args)
      else if name = ''ZCARD'' then
        on_key st args (\<lambda>found. size_reply (case found of Some (ZSet es) \<Rightarrow> Some (length es) | _ \<Rightarrow> None))
      else if name = ''ZRANGE'' then
        on_key st args (\<lambda>found.
          case found of
            Some (ZSet es) \<Rightarrow>
              map_option
                (\<lambda>ys. Array (Some (concat (map (\<lambda>(member, score).
                   if list_ex (\<lambda>a. eq_ignore_ascii_case a ''WITHSCORES'') args
                   then [bulk member, bulk score] else [bulk member]) ys))))
                (window es args)
          | _ \<Rightarrow> Some (Array (Some [])))
      else if name = ''XLEN'' then
        on_key st args (\<lambda>found. size_reply (case found of Some (Stream es) \<Rightarrow> Some (length es) | _ \<Rightarrow> None))
      else if name = ''XRANGE'' then
        on_key st args (\<lambda>found.
          case found of
            Some (Stream es) \<Rightarrow>
              (let count = (case position (\<lambda>a. eq_ignore_ascii_case a ''COUNT'') args of
                              Some index \<Rightarrow>
                                (case get args (index + 1) of
                                   Some value \<Rightarrow> parse_or parse_u64_str (length es) value
                                 | None \<Rightarrow> length es)
                            | None \<Rightarrow> length es)
               in Some (Array (Some (map stream_entry (take count es)))))
          | _ \<Rightarrow> Some (Array (Some [])))
      else generated_reply name args)"

definition dispatch :: "MockState \<Rightarrow> rstring \<Rightarrow> rstring list \<Rightarrow> RespValue option \<times> MockState" where
  "dispatch st name args =
     (if name = ''SET'' then
        (if length args < 2 then (Some (Error ''ERR wrong number of arguments''), st)
         else (Some (Simple ''OK''), seed (args ! 0) (Str (args ! 1)) st))
      else (dispatch_read st name args, st))"

section \<open>Serving a connection\<close>

record session =
  mock_state :: MockState
  selected :: nat
  negotiated :: nat

definition MOCK_REQUEST_BYTES :: nat where
  [limits]: "MOCK_REQUEST_BYTES = 64 * 1024 * 1024"

definition update_session :: "rstring list \<Rightarrow> session \<Rightarrow> session" where
  "update_session args s =
     (let name = to_ascii_uppercase (args ! 0) in
      if name = ''SELECT'' then
        s\<lparr>selected := (case get args 1 of Some value \<Rightarrow> parse_or parse_u8_str 0 value | None \<Rightarrow> 0)\<rparr>
      else if name = ''HELLO'' then
        s\<lparr>negotiated := (case get args 1 of Some value \<Rightarrow> parse_or parse_u8_str 2 value | None \<Rightarrow> 2)\<rparr>
      else s)"

definition log_command :: "rstring list \<Rightarrow> session \<Rightarrow> session" where
  "log_command args s =
     (let name = to_ascii_uppercase (args ! 0); st = mock_state s in
      s\<lparr>mock_state := st\<lparr>commands := commands st @ [name],
         session_commands := session_commands st @
           [\<lparr>command_name = name, command_arguments = drop 1 args, database = selected s, protocol = negotiated s\<rparr>]\<rparr>\<rparr>)"

text \<open>What one command makes the connection write; \<open>None\<close> ends it.\<close>

definition serve_arguments :: "rstring list \<Rightarrow> session \<Rightarrow> bytes option \<times> session" where
  "serve_arguments args s =
     (let name = to_ascii_uppercase (args ! 0);
          s = log_command args (update_session args s)
      in if name = ''SHUTDOWN'' then (None, s\<lparr>mock_state := (mock_state s)\<lparr>shutdown := True\<rparr>\<rparr>)
         else if name = ''GET'' \<and> get args 1 = Some ''__mock_malformed__'' then (Some (''?malformed'' @ crlf), s)
         else
           (case dispatch (mock_state s) name (drop 1 args) of
              (reply, st) \<Rightarrow>
                (case reply of
                   None \<Rightarrow> None
                 | Some v \<Rightarrow> (case encode_value v [] USIZE_MAX of Ok out \<Rightarrow> Some out | Err _ \<Rightarrow> None),
                 s\<lparr>mock_state := st\<rparr>)))"

text \<open>
  The loop: what it writes, the session after it, and whether it has ended.  Where more bytes are
  awaited, those of the unfinished request are returned.
\<close>

function serve_connection :: "stream \<Rightarrow> session \<Rightarrow> bytes \<times> session \<times> bytes option" where
  "serve_connection s session =
     (case read_request s (new_request_budget MOCK_REQUEST_BYTES) of
        Ok (Command request, _, s', _) \<Rightarrow>
          if request = [] then serve_connection s' session
          else
            (case serve_arguments (map from_utf8_lossy request) session of
               (None, session) \<Rightarrow> ([], session, None)
             | (Some out, session) \<Rightarrow>
                 (case serve_connection s' session of (later, session, rest) \<Rightarrow> (out @ later, session, rest)))
      | Ok (Eof, _, _, _) \<Rightarrow> ([], session, None)
      | Err (Fail _) \<Rightarrow> ([], session, None)
      | Err Hang \<Rightarrow> ([], session, Some (pending s)))"
  by pat_completeness auto
termination
  by (relation "measure (\<lambda>(s, _). length (pending s))") (auto dest: read_request_shrinks)

declare serve_connection.simps [simp del]

section \<open>The mock as the child\<close>

text \<open>A connection starts in database 0 with protocol 2; \<open>unread\<close> holds the bytes of an
  unfinished request and \<open>delivered\<close> what the public client has received.\<close>

record mock_world =
  mock_session :: session
  unread :: bytes
  delivered :: bytes

definition mock_env :: "mock_world env" where
  "mock_env =
     \<lparr>connect = \<lambda>addr w.
        (Ok \<lparr>pending = [], ending = Silent\<rparr>,
         w\<lparr>mock_session := (mock_session w)\<lparr>selected := 0, negotiated := 2\<rparr>, unread := []\<rparr>),
      send = \<lambda>bs s w.
        (case serve_connection \<lparr>pending = unread w @ bs, ending = Silent\<rparr> (mock_session w) of
           (out, session, rest) \<Rightarrow>
             (Ok (case rest of
                    Some _ \<Rightarrow> s\<lparr>pending := pending s @ out\<rparr>
                  | None \<Rightarrow> \<lparr>pending = pending s @ out, ending = Closed ''early eof''\<rparr>),
              w\<lparr>mock_session := session, unread := (case rest of Some bs \<Rightarrow> bs | None \<Rightarrow> [])\<rparr>)),
      flush = \<lambda>s w. (Ok s, w),
      deliver = \<lambda>bs w. (Ok (), w\<lparr>delivered := delivered w @ bs\<rparr>)\<rparr>"

section \<open>The client of the tests\<close>

text \<open>\<open>RespClient\<close>: a connection to any address; it waits for a reply without a deadline of its own.\<close>

definition try_command :: "'w env \<Rightarrow> bytes list \<Rightarrow> stream \<Rightarrow> 'w \<Rightarrow> (RespValue \<times> stream, fault) result \<times> 'w" where
  "try_command env args s w =
     (case send env (encode_command args) s w of
        (sent, w) \<Rightarrow>
          (and_then sent (\<lambda>s. and_then (read_value 0 s default_budget) (\<lambda>(v, s, _). Ok (v, s))), w))"

text \<open>\<open>command\<close> unwraps the result: \<open>None\<close> is its panic.\<close>

definition client_command :: "'w env \<Rightarrow> bytes list \<Rightarrow> stream \<Rightarrow> 'w \<Rightarrow> (RespValue \<times> stream) option \<times> 'w" where
  "client_command env args s w =
     (case try_command env args s w of
        (Ok r, w) \<Rightarrow> (Some r, w)
      | (Err _, w) \<Rightarrow> (None, w))"

end
