(* ===== verification/Keys_Props.thy ===== *)
theory Keys_Props
  imports Keys
begin

text \<open>
  What the key pages guarantee: they send bounded reads only, each of them a command the public
  policy allows too, and what they show is a page with true metadata.
\<close>

section \<open>Every read is one the policy allows\<close>

definition page_policies :: "command_policy list" where
  "page_policies =
     [policy [''TYPE''] [''TYPE'', ''key''] (exact 1),
      policy [''TTL'', ''PTTL''] [''TTL'', ''key''] (exact 1),
      policy [''STRLEN''] [''STRLEN'', ''key''] (exact 1),
      policy [''GETRANGE''] [''GETRANGE'', ''key'', ''0'', ''1023''] string_range,
      policy [''LLEN''] [''LLEN'', ''list''] (exact 1),
      policy [''LRANGE''] [''LRANGE'', ''list'', ''0'', ''99''] collection_range,
      policy [''ZCARD''] [''ZCARD'', ''zset''] (exact 1),
      policy [''ZRANGE'', ''ZREVRANGE''] [''ZRANGE'', ''zset'', ''0'', ''99''] sorted_collection_range,
      policy [''SCARD''] [''SCARD'', ''set''] (exact 1),
      policy [''HLEN''] [''HLEN'', ''hash''] (exact 1),
      policy [''XLEN''] [''XLEN'', ''stream''] (exact 1),
      policy [''XRANGE'', ''XREVRANGE''] [''XRANGE'', ''stream'', ''-'', ''+'', ''COUNT'', ''100''] stream_range]"

lemma page_policies_listed: "set page_policies \<subseteq> set POLICIES"
  unfolding page_policies_def POLICIES_eval set_simps by (intro subsetI) (elim insertE emptyE; simp)

lemma literal_normalized:
  "normalize ''0'' = ''0''" "normalize ''4095'' = ''4095''" "normalize ''99'' = ''99''" "normalize ''100'' = ''100''"
  "normalize ''WITHSCORES'' = ''WITHSCORES''" "normalize ''-'' = ''-''" "normalize ''+'' = ''+''" "normalize ''COUNT'' = ''COUNT''"
  "normalize ''TYPE'' = ''TYPE''" "normalize ''TTL'' = ''TTL''" "normalize ''STRLEN'' = ''STRLEN''" "normalize ''GETRANGE'' = ''GETRANGE''"
  "normalize ''LLEN'' = ''LLEN''" "normalize ''LRANGE'' = ''LRANGE''" "normalize ''ZCARD'' = ''ZCARD''" "normalize ''ZRANGE'' = ''ZRANGE''"
  "normalize ''SCARD'' = ''SCARD''" "normalize ''HLEN'' = ''HLEN''" "normalize ''XLEN'' = ''XLEN''" "normalize ''XRANGE'' = ''XRANGE''"
  by (simp_all add: normalize_eval)

lemma detail_command_allowed:
  "list_all (\<lambda>args. classify_bytes_arguments args = Allow) (detail_commands key)"
proof -
  have allowed: "classify_bytes_arguments (name # rest) = Allow"
    if "p \<in> set page_policies" "name \<in> set (names p)"
      "valid_utf8 name \<and> normalize name = name \<and> CHR ''.'' \<notin> set name \<and> name \<noteq> ''COMMAND''"
      "validate p (map (\<lambda>a. normalize (from_utf8_lossy a)) rest) = Ok ()" for p name rest
    using that page_policies_listed by (blast intro: allowed_by_policy)
  note eval = validator_defs number_eval literal_normalized from_utf8_lossy_valid
  have c0: "classify_bytes_arguments [''TYPE'', key] = Allow"
    by (rule allowed [where p = "page_policies ! 0"]) (simp_all add: page_policies_def eval)
  have c1: "classify_bytes_arguments [''TTL'', key] = Allow"
    by (rule allowed [where p = "page_policies ! 1"]) (simp_all add: page_policies_def eval)
  have c2: "classify_bytes_arguments [''STRLEN'', key] = Allow"
    by (rule allowed [where p = "page_policies ! 2"]) (simp_all add: page_policies_def eval)
  have c3: "classify_bytes_arguments [''GETRANGE'', key, ''0'', ''4095''] = Allow"
    by (rule allowed [where p = "page_policies ! 3"]) (simp_all add: page_policies_def eval)
  have c4: "classify_bytes_arguments [''LLEN'', key] = Allow"
    by (rule allowed [where p = "page_policies ! 4"]) (simp_all add: page_policies_def eval)
  have c5: "classify_bytes_arguments [''LRANGE'', key, ''0'', ''99''] = Allow"
    by (rule allowed [where p = "page_policies ! 5"]) (simp_all add: page_policies_def eval)
  have c6: "classify_bytes_arguments [''ZCARD'', key] = Allow"
    by (rule allowed [where p = "page_policies ! 6"]) (simp_all add: page_policies_def eval)
  have c7: "classify_bytes_arguments [''ZRANGE'', key, ''0'', ''99'', ''WITHSCORES''] = Allow"
    by (rule allowed [where p = "page_policies ! 7"]) (simp_all add: page_policies_def eval)
  have c8: "classify_bytes_arguments [''SCARD'', key] = Allow"
    by (rule allowed [where p = "page_policies ! 8"]) (simp_all add: page_policies_def eval)
  have c9: "classify_bytes_arguments [''HLEN'', key] = Allow"
    by (rule allowed [where p = "page_policies ! 9"]) (simp_all add: page_policies_def eval)
  have c10: "classify_bytes_arguments [''XLEN'', key] = Allow"
    by (rule allowed [where p = "page_policies ! 10"]) (simp_all add: page_policies_def eval)
  have c11: "classify_bytes_arguments [''XRANGE'', key, ''-'', ''+'', ''COUNT'', ''100''] = Allow"
    by (rule allowed [where p = "page_policies ! 11"]) (simp_all add: page_policies_def eval)
  show ?thesis
    unfolding detail_commands_def by (simp add: c0 c1 c2 c3 c4 c5 c6 c7 c8 c9 c10 c11)
qed

lemma detail_requests_allowed: "encode_command ` set (detail_commands key) \<subseteq> allowed_requests"
proof -
  have "args \<noteq> []" if "args \<in> set (detail_commands key)" for args
    using that by (auto simp: detail_commands_def)
  with detail_command_allowed [of key] show ?thesis by (auto simp: list_all_iff intro!: allowed_request)
qed

text \<open>C32: key detail can reach the child with twelve bounded reads of the requested key only, each of which
  the public policy would allow a client as well; a whole value is never read.\<close>

theorem key_detail_requests_allowed:
  "set (snd (snd (detail to_text show_debug (traced env) addr key w))) \<subseteq>
     set (snd w) \<union> encode_command ` set (detail_commands key) \<and>
   encode_command ` set (detail_commands key) \<subseteq> allowed_requests"
proof
  show "set (snd (snd (detail to_text show_debug (traced env) addr key w))) \<subseteq>
      set (snd w) \<union> encode_command ` set (detail_commands key)"
    by (rule detail_kept [OF traced_kept]) auto
qed (rule detail_requests_allowed)

section \<open>The page\<close>

definition sound_page :: "(json \<Rightarrow> (rstring, rstring) result) \<Rightarrow> rstring \<Rightarrow> Page \<Rightarrow> bool" where
  "sound_page to_text key_type page \<longleftrightarrow>
     (truncated page \<longleftrightarrow> returned page < page_total page) \<and> next_cursor page = JNull \<and>
     (if key_type = ''set'' \<or> key_type = ''hash''
      then value_omitted page \<and> page_value page = JNull \<and> returned page = 0
      else \<not> value_omitted page \<and> page_limit page \<in> {PAGE_LIMIT, STRING_PREVIEW_BYTES} \<and>
        (\<exists>v. to_json_with_budget to_text v KEY_DETAIL_JSON_VALUE_BYTES = Ok (page_value page)))"

lemma collection_page_sound:
  assumes "collection_page to_text show_debug env addr c r width key w = (Ok page, w')"
    and "key_type \<noteq> ''set''" and "key_type \<noteq> ''hash''"
  shows "sound_page to_text key_type page"
  using assms by (auto simp: collection_page_def then_do_Ok sound_page_def bounded_page_def)

lemma string_page_sound:
  assumes "string_page to_text show_debug env addr key w = (Ok page, w')"
  shows "sound_page to_text ''string'' page"
  using assms by (auto simp: string_page_def then_do_Ok sound_page_def bounded_page_def)

lemma typed_page_sound:
  assumes "typed_page to_text show_debug env addr key_type key w = (Ok page, w')"
  shows "sound_page to_text key_type page"
  using assms collection_page_sound [of to_text show_debug env addr _ _ _ key w page w' key_type]
    string_page_sound [of to_text show_debug env addr key w page w']
  by (auto simp: typed_page_def list_page_def zset_page_def stream_page_def then_do_Ok split: if_split_asm)
    (auto simp: sound_page_def omitted_page_def)

text \<open>A key page is what it says it is: it is marked truncated exactly when it shows less than the child
  reported, offers no cursor, holds no value for a set or a hash, and otherwise a value whose
  conversion was charged against 48 KiB.\<close>

theorem key_page_sound:
  assumes "detail to_text show_debug env addr key w = (Ok (Some j), w')"
  shows "\<exists>key_type ttl page. j = detail_object key key_type ttl page \<and> sound_page to_text key_type page"
  using assms by (auto simp: detail_def then_do_Ok split: if_split_asm dest!: typed_page_sound)

lemma short_replies_fit:
  "fits_budget KEY_DETAIL_RESPONSE_BYTES (Simple ''set'')" "fits_budget KEY_DETAIL_RESPONSE_BYTES (Integer (-1))"
  "fits_budget KEY_DETAIL_RESPONSE_BYTES (Integer 3)"
  by (simp_all add: fits_budget_def all_values.simps [of admissible] leaf_shape text_line_def in_i64_def
      show_int_def show_nat.simps limits)

theorem key_page_sound_witness:
  "\<exists>key_type ttl page.
     detail_object ''k'' ''set'' (-1) (omitted_page 3 SET_OMITTED) = detail_object ''k'' key_type ttl page \<and>
     sound_page (\<lambda>j. Ok (json_text j)) key_type page"
proof (rule key_page_sound)
  have "execute_within scripted_env ''a'' [c, k] KEY_DETAIL_RESPONSE_BYTES (v # vs) = (Ok v, vs)"
    if "fits_budget KEY_DETAIL_RESPONSE_BYTES v" for c k v vs
    using that by (rule scripted_reply) (simp_all add: limits)
  note reply = this [OF short_replies_fit(1)] this [OF short_replies_fit(2)] this [OF short_replies_fit(3)]
  show "detail (\<lambda>j. Ok (json_text j)) (\<lambda>_. []) scripted_env ''a'' ''k'' [Simple ''set'', Integer (-1), Integer 3] =
      (Ok (Some (detail_object ''k'' ''set'' (-1) (omitted_page 3 SET_OMITTED))), [])"
    by (simp add: detail_def key_execute_def integer_reply_def typed_page_def as_string_def as_integer_def reply)
qed

end
