(* ===== verification/Http.thy ===== *)
theory Http
  imports Keys_Props Command_Line Policy_Properties Launcher_Text
begin

text \<open>
  The HTTP API (\<open>http.rs\<close>): the reply envelope and the bounded buffer it is serialized into, and the
  three handlers over the child.  Routing, body extraction and the header lines belong to the
  web framework; \<open>pieces\<close> stands for \<open>serde_json::to_writer\<close>, the sequence of writes it makes for a
  reply.
\<close>

section \<open>Replies\<close>

definition MAX_RESPONSE_BODY_BYTES :: nat where
  [limits]: "MAX_RESPONSE_BODY_BYTES = 64 * 1024"

definition MAX_JSON_VALUE_BYTES :: nat where
  [limits]: "MAX_JSON_VALUE_BYTES = MAX_RESPONSE_BODY_BYTES - 1024"

datatype StatusCode =
    OK
  | BAD_REQUEST
  | FORBIDDEN
  | NOT_FOUND
  | CONFLICT
  | PAYLOAD_TOO_LARGE
  | UNPROCESSABLE_ENTITY
  | TOO_MANY_REQUESTS
  | BAD_GATEWAY
  | SERVICE_UNAVAILABLE

record ApiResponse =
  success :: bool
  response_data :: "json option"
  response_error :: "rstring option"

definition api_ok :: "json \<Rightarrow> ApiResponse" where
  "api_ok value = \<lparr>success = True, response_data = Some value, response_error = None\<rparr>"

definition api_error :: "rstring \<Rightarrow> ApiResponse" where
  "api_error msg = \<lparr>success = False, response_data = None, response_error = Some msg\<rparr>"

record Response =
  status :: StatusCode
  body :: bytes

record LimitedJsonBuffer =
  buffered :: bytes
  buffer_limit :: nat

definition new_buffer :: "nat \<Rightarrow> LimitedJsonBuffer" where
  "new_buffer limit = \<lparr>buffered = [], buffer_limit = limit\<rparr>"

definition write_json :: "LimitedJsonBuffer \<Rightarrow> bytes \<Rightarrow> (LimitedJsonBuffer, rstring) result" where
  "write_json b piece =
     (if saturating_add (length (buffered b)) (length piece) > buffer_limit b
      then Err ''JSON response exceeds output budget''
      else Ok (b\<lparr>buffered := buffered b @ piece\<rparr>))"

interpretation json_buffer: meter write_json length "\<lambda>b. length (buffered b)" buffer_limit
    "\<lambda>_. ''JSON response exceeds output budget''" "\<lambda>b. buffer_limit b < USIZE_MAX"
  by unfold_locales (auto simp: write_json_def saturating_add_def split: if_splits)

definition into_inner :: "LimitedJsonBuffer \<Rightarrow> bytes" where
  [simp]: "into_inner b = buffered b"

definition serialize_api_response :: "(ApiResponse \<Rightarrow> bytes list) \<Rightarrow> ApiResponse \<Rightarrow> (bytes, unit) result" where
  "serialize_api_response pieces response =
     (case charge_all write_json (new_buffer MAX_RESPONSE_BODY_BYTES) (pieces response) of
        Ok b \<Rightarrow> Ok (into_inner b)
      | Err _ \<Rightarrow> Err ())"

definition OVERSIZED_BODY :: bytes where
  "OVERSIZED_BODY = ''{\"success\":false,\"error\":\"response exceeds the playground output limit\"}''"

definition api_response :: "(ApiResponse \<Rightarrow> bytes list) \<Rightarrow> StatusCode \<Rightarrow> ApiResponse \<Rightarrow> Response" where
  "api_response pieces s response =
     (case serialize_api_response pieces response of
        Ok encoded \<Rightarrow> \<lparr>status = s, body = encoded\<rparr>
      | Err _ \<Rightarrow> \<lparr>status = PAYLOAD_TOO_LARGE, body = OVERSIZED_BODY\<rparr>)"

section \<open>Handlers\<close>

text \<open>The state the handlers share with the proxy and the child, and what is outside the repository.\<close>

record 'w app =
  resp_addr :: rstring
  version :: rstring
  free_permits :: nat
  app_world :: 'w

record serializers =
  to_text :: "json \<Rightarrow> (rstring, rstring) result"
  show_debug :: "RespValue \<Rightarrow> rstring"
  pieces :: "ApiResponse \<Rightarrow> bytes list"

definition backend_busy_response :: "serializers \<Rightarrow> Response" where
  "backend_busy_response lib =
     api_response (pieces lib) TOO_MANY_REQUESTS
       (api_error ''Ferrite playground backend is busy; retry after an in-flight operation completes'')"

text \<open>A handler tries to take a backend permit and holds it until it returns.\<close>

definition with_permit :: "serializers \<Rightarrow> 'w app \<Rightarrow> ('w app \<Rightarrow> Response \<times> 'w app) \<Rightarrow> Response \<times> 'w app" where
  "with_permit lib app handler =
     (if free_permits app = 0 then (backend_busy_response lib, app)
      else (case handler (app\<lparr>free_permits := free_permits app - 1\<rparr>) of
              (r, app) \<Rightarrow> (r, app\<lparr>free_permits := free_permits app + 1\<rparr>)))"

definition health :: "serializers \<Rightarrow> 'w env \<Rightarrow> 'w app \<Rightarrow> Response \<times> 'w app" where
  "health lib env app =
     with_permit lib app (\<lambda>app.
       case execute env (resp_addr app) [''PING''] (app_world app) of
         (r, w) \<Rightarrow>
           (case r of
              Ok reply \<Rightarrow>
                if reply = Simple ''PONG'' then
                  api_response (pieces lib) OK
                    (api_ok (json_object
                       [(''status'', JString ''ok''), (''version'', JString (version app)), (''resp'', JString ''PONG'')]))
                else
                  api_response (pieces lib) BAD_GATEWAY
                    (api_error (''Ferrite PING returned unexpected response: '' @ show_debug lib reply))
            | Err e \<Rightarrow>
                api_response (pieces lib) SERVICE_UNAVAILABLE
                  (api_error (''Ferrite RESP health check failed: '' @ e)),
            app\<lparr>app_world := w\<rparr>))"

definition SELECT_REFUSAL :: rstring where
  "SELECT_REFUSAL = ''SELECT is not available through stateless HTTP requests; use one persistent public RESP connection to retain database selection''"

text \<open>The reply to a command the child has answered.\<close>

definition converted_reply :: "serializers \<Rightarrow> RespValue \<Rightarrow> Response" where
  "converted_reply lib reply =
     (case to_json_with_budget (to_text lib) reply MAX_JSON_VALUE_BYTES of
        Ok value \<Rightarrow> api_response (pieces lib) OK (api_ok value)
      | Err e \<Rightarrow>
          api_response (pieces lib)
            (if contains ''JSON conversion exceeds'' e then PAYLOAD_TOO_LARGE else UNPROCESSABLE_ENTITY)
            (api_error e))"

definition execute_command :: "serializers \<Rightarrow> 'w env \<Rightarrow> rstring \<Rightarrow> 'w app \<Rightarrow> Response \<times> 'w app" where
  "execute_command lib env command app =
     (case parse command of
        Err e \<Rightarrow> (api_response (pieces lib) BAD_REQUEST (api_error e), app)
      | Ok args \<Rightarrow>
          if args \<noteq> [] \<and> eq_ignore_ascii_case (hd args) ''SELECT'' then
            (api_response (pieces lib) CONFLICT (api_error SELECT_REFUSAL), app)
          else
            let decision = classify_arguments args in
            if \<not> is_allowed decision then
              (api_response (pieces lib) FORBIDDEN (api_error (message decision)), app)
            else
              with_permit lib app (\<lambda>app.
                case execute env (resp_addr app) args (app_world app) of
                  (r, w) \<Rightarrow>
                    (case r of
                       Ok reply \<Rightarrow> converted_reply lib reply
                     | Err e \<Rightarrow>
                         api_response (pieces lib) BAD_GATEWAY (api_error (''Ferrite command failed: '' @ e)),
                     app\<lparr>app_world := w\<rparr>)))"

definition key_detail :: "serializers \<Rightarrow> 'w env \<Rightarrow> rstring \<Rightarrow> 'w app \<Rightarrow> Response \<times> 'w app" where
  "key_detail lib env key app =
     (if key = [] then (api_response (pieces lib) BAD_REQUEST (api_error ''key must not be empty''), app)
      else
        with_permit lib app (\<lambda>app.
          case detail (to_text lib) (show_debug lib) env (resp_addr app) key (app_world app) of
            (r, w) \<Rightarrow>
              (case r of
                 Ok (Some value) \<Rightarrow> api_response (pieces lib) OK (api_ok value)
               | Ok None \<Rightarrow> api_response (pieces lib) NOT_FOUND (api_error ''Key not found'')
               | Err e \<Rightarrow>
                   api_response (pieces lib) BAD_GATEWAY
                     (api_error (''Failed to read key from Ferrite: '' @ e)),
               app\<lparr>app_world := w\<rparr>)))"

text \<open>The routes that reach a handler with state.\<close>

datatype api_call = Health | Execute rstring | Key_detail rstring

fun handle_call :: "serializers \<Rightarrow> 'w env \<Rightarrow> api_call \<Rightarrow> 'w app \<Rightarrow> Response \<times> 'w app" where
  "handle_call lib env Health app = health lib env app"
| "handle_call lib env (Execute command) app = execute_command lib env command app"
| "handle_call lib env (Key_detail key) app = key_detail lib env key app"

end
