(* ===== verification/Http_Props.thy ===== *)
theory Http_Props
  imports Http
begin

text \<open>
  What the HTTP API guarantees for every request: a bounded body, only allowed commands at the
  child, every permit back, and a success reply that is never lost to the output limit.
\<close>

section \<open>Bodies\<close>

lemma charge_all_write_json:
  "charge_all write_json b ps = Ok b' \<Longrightarrow> buffered b' = buffered b @ concat ps \<and> buffer_limit b' = buffer_limit b"
proof (induction ps arbitrary: b)
  case (Cons p ps)
  then obtain c where c: "write_json b p = Ok c" "charge_all write_json c ps = Ok b'" by auto
  then have "buffered c = buffered b @ p" "buffer_limit c = buffer_limit b"
    by (auto simp: write_json_def split: if_split_asm)
  with Cons.IH [OF c(2)] show ?case by simp
qed simp

lemma serialized_length:
  assumes "serialize_api_response writes r = Ok encoded"
  shows "encoded = concat (writes r) \<and> length encoded \<le> MAX_RESPONSE_BODY_BYTES"
proof -
  let ?b = "new_buffer MAX_RESPONSE_BODY_BYTES"
  from assms obtain b where b: "charge_all write_json ?b (writes r) = Ok b" "encoded = buffered b"
    by (auto simp: serialize_api_response_def split: result.split_asm)
  have "buffered b = concat (writes r)" using charge_all_write_json [OF b(1)] by (simp add: new_buffer_def)
  moreover have "\<not> MAX_RESPONSE_BODY_BYTES < sum_list (map length (writes r))"
    using json_buffer.charge_all_Err [of ?b "writes r"] b(1) by (auto simp: new_buffer_def limits)
  ultimately show ?thesis using b(2) by (simp add: length_concat)
qed

lemma api_response_bounded: "length (body (api_response writes s r)) \<le> MAX_RESPONSE_BODY_BYTES"
  using serialized_length [of writes r]
  by (auto simp: api_response_def OVERSIZED_BODY_def limits split: result.split)

lemma with_permit_bounded:
  "(\<And>app. length (body (fst (handler app))) \<le> MAX_RESPONSE_BODY_BYTES) \<Longrightarrow>
     length (body (fst (with_permit lib app handler))) \<le> MAX_RESPONSE_BODY_BYTES"
  by (auto simp: with_permit_def backend_busy_response_def api_response_bounded split: prod.split) (metis fst_conv)

lemma converted_reply_bounded: "length (body (converted_reply lib v)) \<le> MAX_RESPONSE_BODY_BYTES"
  by (simp add: converted_reply_def api_response_bounded split: result.split)

lemma handle_call_bounded: "length (body (fst (handle_call lib env call app))) \<le> MAX_RESPONSE_BODY_BYTES"
  by (cases call)
    (auto simp: health_def execute_command_def key_detail_def Let_def api_response_bounded converted_reply_bounded
      intro!: with_permit_bounded split: result.split prod.split option.split)

section \<open>Permits\<close>

lemma with_permit_returns:
  assumes "\<And>app. free_permits (snd (handler app)) = free_permits app"
  shows "free_permits (snd (with_permit lib app handler)) = free_permits app"
  using assms [of "app\<lparr>free_permits := free_permits app - 1\<rparr>"]
  by (auto simp: with_permit_def split: prod.split)

lemma handle_call_permits: "free_permits (snd (handle_call lib env call app)) = free_permits app"
  by (cases call)
    (auto simp: health_def execute_command_def key_detail_def Let_def
      intro!: with_permit_returns split: result.split prod.split)

lemma handle_call_saturated: "free_permits app = 0 \<Longrightarrow> snd (handle_call lib env call app) = app"
  by (cases call) (simp_all add: health_def execute_command_def key_detail_def with_permit_def Let_def split: result.split)

text \<open>An HTTP request gives back the backend permit it takes, and when none is free it is answered
  without touching the child.\<close>

theorem http_permits:
  "free_permits (snd (handle_call lib env call app)) = free_permits app \<and>
   snd (handle_call lib env call (app\<lparr>free_permits := 0\<rparr>)) = app\<lparr>free_permits := 0\<rparr>"
  by (simp add: handle_call_permits handle_call_saturated)

section \<open>Only allowed commands reach the child\<close>

lemma with_permit_kept:
  assumes "P (app_world app)" and "\<And>app. P (app_world app) \<Longrightarrow> P (app_world (snd (handler app)))"
  shows "P (app_world (snd (with_permit lib app handler)))"
  using assms(1) assms(2) [of "app\<lparr>free_permits := free_permits app - 1\<rparr>"]
  by (auto simp: with_permit_def split: prod.split)

lemma execute_kept:
  "kept_by A P env \<Longrightarrow> P w \<Longrightarrow> encode_command args \<in> A \<Longrightarrow> P (snd (execute env addr args w))"
  unfolding execute_def by (rule execute_within_kept)

lemma health_kept:
  assumes "kept_by A P env" and "P (app_world app)" and "encode_command [''PING''] \<in> A"
  shows "P (app_world (snd (health lib env app)))"
  unfolding health_def
  by (rule with_permit_kept [where P = P])
    (use execute_kept [OF assms(1) _ assms(3)] assms(2) in \<open>auto split: prod.split\<close>, metis snd_conv)

lemma key_detail_kept:
  assumes "kept_by A P env" and "P (app_world app)" and "encode_command ` set (detail_commands key) \<subseteq> A"
  shows "P (app_world (snd (key_detail lib env key app)))"
proof (cases "key = []")
  case False
  have "P (app_world (snd (with_permit lib app (\<lambda>app.
      case detail (to_text lib) (show_debug lib) env (resp_addr app) key (app_world app) of
        (r, w) \<Rightarrow> (f r, app\<lparr>app_world := w\<rparr>)))))" for f
    by (rule with_permit_kept [where P = P])
      (use detail_kept [OF assms(1) _ assms(3)] assms(2) in \<open>auto split: prod.split\<close>, metis snd_conv)
  with False show ?thesis by (simp add: key_detail_def)
qed (simp add: key_detail_def assms(2))

lemma execute_command_kept:
  assumes "kept_by A P env" and "P (app_world app)"
    and "\<And>args. parse command = Ok args \<Longrightarrow> is_allowed (classify_arguments args) \<Longrightarrow> encode_command args \<in> A"
  shows "P (app_world (snd (execute_command lib env command app)))"
proof (cases "parse command")
  case (Err e)
  with assms(2) show ?thesis by (simp add: execute_command_def)
next
  case (Ok args)
  have "P (app_world (snd (with_permit lib app (\<lambda>app.
      case execute env (resp_addr app) args (app_world app) of
        (r, w) \<Rightarrow> (f r, app\<lparr>app_world := w\<rparr>)))))" if "is_allowed (classify_arguments args)" for f
    by (rule with_permit_kept [where P = P])
      (use execute_kept [OF assms(1) _ assms(3) [OF Ok that]] assms(2) in \<open>auto split: prod.split\<close>, metis snd_conv)
  note run = this
  show ?thesis
  proof (cases "args \<noteq> [] \<and> eq_ignore_ascii_case (hd args) ''SELECT'' \<or> \<not> is_allowed (classify_arguments args)")
    case True
    with assms(2) Ok show ?thesis by (auto simp: execute_command_def Let_def)
  next
    case False
    then have "\<not> (args \<noteq> [] \<and> eq_ignore_ascii_case (hd args) ''SELECT'')" "is_allowed (classify_arguments args)"
      by blast+
    with run Ok show ?thesis by (simp add: execute_command_def Let_def cong: conj_cong del: not_not)
  qed
qed

lemma ping_allowed: "classify_bytes_arguments [''PING''] = Allow"
proof -
  have p: "policy [''PING''] [''PING''] ping \<in> set POLICIES"
    unfolding POLICIES_eval set_simps by (simp only: insert_iff simp_thms)
  show ?thesis
    by (rule allowed_by_policy [OF p]) (simp_all add: normalize_eval validator_defs ping_def)
qed

text \<open>No HTTP request makes the launcher send the child anything but the encoding of a command the public
  policy allows: the two public entry points guard the child with the same list.\<close>

theorem http_requests_allowed:
  assumes "case call of Execute command \<Rightarrow> valid_utf8 command | _ \<Rightarrow> True"
  shows "set (snd (app_world (snd (handle_call lib (traced env) call app)))) \<subseteq>
           set (snd (app_world app)) \<union> allowed_requests"
proof -
  note kept = traced_kept [of allowed_requests "set (snd (app_world app))" env]
  have ping: "encode_command [''PING''] \<in> allowed_requests" by (simp add: allowed_request ping_allowed)
  have parsed: "encode_command args \<in> allowed_requests"
    if "parse command = Ok args" "is_allowed (classify_arguments args)" "valid_utf8 command" for command args
    using that parse_valid_utf8 [OF that(1,3)] parse_nonempty [OF that(1)]
    by (intro allowed_request) (simp_all add: entry_points_agree list_all_iff)
  show ?thesis
  proof (cases call)
    case Health
    then show ?thesis using health_kept [OF kept _ ping] by simp
  next
    case (Execute command)
    then show ?thesis using execute_command_kept [OF kept _ parsed] assms by simp
  next
    case (Key_detail key)
    then show ?thesis using key_detail_kept [OF kept _ detail_requests_allowed] by simp
  qed
qed

section \<open>Success replies\<close>

text \<open>
  What the serializer documents: the compact form of a value, and for the reply envelope the object
  of its fields in their order, without those that are absent.
\<close>

definition api_text :: "(json \<Rightarrow> rstring) \<Rightarrow> ApiResponse \<Rightarrow> rstring" where
  "api_text text_of r =
     ''{\"success\":'' @ (if success r then ''true'' else ''false'') @
     (case response_data r of None \<Rightarrow> [] | Some j \<Rightarrow> '',\"data\":'' @ text_of j) @
     (case response_error r of None \<Rightarrow> [] | Some e \<Rightarrow> '',\"error\":'' @ quoted e) @ ''}''"

definition faithful_library :: "serializers \<Rightarrow> (json \<Rightarrow> rstring) \<Rightarrow> bool" where
  "faithful_library lib text_of \<longleftrightarrow>
     compact (to_text lib) text_of \<and> (\<forall>r. concat (pieces lib r) = api_text text_of r)"

lemma api_response_fits:
  assumes "faithful_library lib text_of" and "length (api_text text_of r) \<le> MAX_RESPONSE_BODY_BYTES"
  shows "api_response (pieces lib) s r = \<lparr>status = s, body = api_text text_of r\<rparr>"
proof -
  let ?b = "new_buffer MAX_RESPONSE_BODY_BYTES"
  from assms have "length (buffered ?b) + sum_list (map length (pieces lib r)) \<le> buffer_limit ?b"
    by (simp add: faithful_library_def new_buffer_def length_concat [symmetric])
  then obtain b where "charge_all write_json ?b (pieces lib r) = Ok b"
    using json_buffer.charge_all_Ok [of ?b "pieces lib r"] by (auto simp: new_buffer_def limits)
  then have "serialize_api_response (pieces lib) r = Ok (api_text text_of r)"
    using charge_all_write_json [of ?b "pieces lib r" b] assms(1)
    by (simp add: serialize_api_response_def new_buffer_def faithful_library_def)
  then show ?thesis by (simp add: api_response_def)
qed

lemma converted_in_full:
  assumes "faithful_library lib text_of" and "doubles_within text_of v"
    and "to_json_with_budget (to_text lib) v MAX_JSON_VALUE_BYTES = Ok j"
  shows "length (api_text text_of (api_ok j)) \<le> MAX_RESPONSE_BODY_BYTES"
    "converted_reply lib v = \<lparr>status = OK, body = api_text text_of (api_ok j)\<rparr>"
proof -
  have "length (text_of j) \<le> MAX_JSON_VALUE_BYTES"
    using assms by (intro to_json_length) (simp_all add: faithful_library_def limits)
  then show fits: "length (api_text text_of (api_ok j)) \<le> MAX_RESPONSE_BODY_BYTES"
    by (simp add: api_text_def api_ok_def limits)
  from api_response_fits [OF assms(1) fits]
  show "converted_reply lib v = \<lparr>status = OK, body = api_text text_of (api_ok j)\<rparr>"
    by (simp add: converted_reply_def assms(3))
qed

text \<open>C14: a command the child has answered is answered in full: when a permit is free, the command is not
  \<open>SELECT\<close>, the policy allows it and the child's reply converts within the JSON budget, the HTTP
  reply is 200 with the whole value; the room left for the envelope always suffices.  The library
  is assumed to write the compact form it documents and to print no floating-point number of the
  reply longer than the child sent it.\<close>

theorem http_success_reply:
  assumes "parse command = Ok args" and "\<not> eq_ignore_ascii_case (hd args) ''SELECT''"
    and "is_allowed (classify_arguments args)" and "0 < free_permits app"
    and "execute env (resp_addr app) args (app_world app) = (Ok v, w)"
    and "faithful_library lib text_of" and "doubles_within text_of v"
    and "to_json_with_budget (to_text lib) v MAX_JSON_VALUE_BYTES = Ok j"
  shows "execute_command lib env command app =
           (\<lparr>status = OK, body = api_text text_of (api_ok j)\<rparr>, app\<lparr>app_world := w\<rparr>)"
  using assms(1-5) converted_in_full(2) [OF assms(6-8)]
  by (simp add: execute_command_def with_permit_def Let_def)

definition example_lib :: serializers where
  "example_lib = \<lparr>to_text = \<lambda>j. Ok (json_text j), show_debug = \<lambda>_. [], pieces = \<lambda>r. [api_text json_text r]\<rparr>"

definition example_app :: "'w \<Rightarrow> 'w app" where
  "example_app w = \<lparr>resp_addr = ''127.0.0.1:6380'', version = ''test'', free_permits = 32, app_world = w\<rparr>"

lemma faithful_example_lib: "faithful_library example_lib json_text"
  using compact_json_text by (simp add: faithful_library_def example_lib_def)

lemma ping_parses: "parse ''PING'' = Ok [''PING'']"
  by (simp add: parse_def start_state_def parse_step_defs finish_parse_def push_def is_whitespace_def limits)

theorem http_success_reply_witness:
  "status (fst (execute_command example_lib scripted_env ''PING'' (example_app [Simple ''PONG'']))) = OK"
proof -
  have "execute_command example_lib scripted_env ''PING'' (example_app [Simple ''PONG'']) =
      (\<lparr>status = OK, body = api_text json_text (api_ok (JString ''PONG''))\<rparr>,
       (example_app [Simple ''PONG''])\<lparr>app_world := []\<rparr>)"
  proof (rule http_success_reply [OF ping_parses])
    show "is_allowed (classify_arguments [''PING''])"
      using ping_allowed entry_points_agree [of "[''PING'']"] by simp
    show "execute scripted_env (resp_addr (example_app [Simple ''PONG''])) [''PING''] (app_world (example_app [Simple ''PONG''])) =
        (Ok (Simple ''PONG''), [])"
      using scripted_reply [OF pong_fits, of "[''PING'']"] by (simp add: execute_def example_app_def limits)
    show "to_json_with_budget (to_text example_lib) (Simple ''PONG'') MAX_JSON_VALUE_BYTES = Ok (JString ''PONG'')"
      by (simp add: to_json_with_budget_def new_json_budget_def consume_def consume_json_string_def
          escaped_length_def saturating_add_def limits)
  qed (simp_all add: faithful_example_lib example_app_def eq_ignore_ascii_case_def to_ascii_uppercase_def
      ascii_upper_other all_values.simps)
  then show ?thesis by simp
qed

theorem http_requests_allowed_witness:
  "set (snd (app_world (snd (handle_call example_lib (traced scripted_env) (Execute ''PING'') (example_app ([], [])))))) \<subseteq>
     allowed_requests"
  using http_requests_allowed [of "Execute ''PING''" example_lib scripted_env "example_app ([], [])"]
  by (simp add: example_app_def)

section \<open>Two weak guards\<close>

text \<open>C40: the \<open>SELECT\<close> guard of the stateless API compares the name as typed while the policy trims it: with a
  blank inside quotes the command passes the guard, is allowed and is sent to the child.\<close>

theorem http_select_guard_bypassed:
  "set (snd (app_world (snd (execute_command lib (traced scripted_env) (DQUOTE @ '' SELECT'' @ DQUOTE @ '' 5'')
       (example_app (replies, [])))))) = {encode_command ['' SELECT'', ''5'']}"
proof -
  define cmd :: rstring where "cmd = DQUOTE @ '' SELECT'' @ DQUOTE @ '' 5''"
  have parsed: "parse cmd = Ok ['' SELECT'', ''5'']"
    by (simp add: cmd_def parse_def start_state_def parse_step_defs finish_parse_def finish_argument_def push_def
        is_whitespace_def limits)
  have "accepts (policy [''SELECT''] [''SELECT'', ''0''] select) ['' SELECT'', ''5'']"
    by (simp add: accepts_def normalized_name_and_arguments_def normalize_eval select_def number_eval)
  moreover have "policy [''SELECT''] [''SELECT'', ''0''] select \<in> set POLICIES"
    unfolding POLICIES_eval set_simps by (simp only: insert_iff simp_thms)
  ultimately have allowed: "classify_arguments ['' SELECT'', ''5''] = Allow" by (blast intro: accepts_imp_allowed)
  show ?thesis
    unfolding cmd_def [symmetric]
    by (simp add: execute_command_def parsed allowed with_permit_def example_app_def eq_ignore_ascii_case_def
        to_ascii_uppercase_def ascii_upper_other execute_def execute_within_def exchange_def traced_def
        scripted_env_def limits split: prod.split result.split)
qed

text \<open>The status of a failed conversion is chosen by a phrase in the error text, which for an error reply is
  the child's own: an error that quotes the phrase is reported as 413 though nothing was too
  large.\<close>

theorem http_status_from_error_text:
  "status (converted_reply lib (Error ''ERR unknown command 'JSON conversion exceeds' '')) = PAYLOAD_TOO_LARGE"
  by (simp add: converted_reply_def to_json_with_budget_def api_response_def split: result.split)

end
