(* ===== verification/Mock_Ferrite_Props.thy ===== *)
theory Mock_Ferrite_Props
  imports Mock_Ferrite Http_Props
begin

text \<open>
  The launcher against the child of the test suite, end to end: the command is encoded, read by the
  child's connection loop, dispatched, its reply encoded, decoded and shown.
\<close>

section \<open>One exchange\<close>

text \<open>Without a limit the encoder writes the wire form.\<close>

lemma append_unlimited: "append_bytes out bs USIZE_MAX = Ok (out @ bs)"
  by (simp add: append_bytes_def saturating_add_def)

lemma encode_unlimited:
  "encode_value v out USIZE_MAX = Ok (out @ wire v)"
  "encode_values vs out USIZE_MAX = Ok (out @ wires vs)"
  "encode_entries es out USIZE_MAX = Ok (out @ wire_entries es)"
  by (induction v and vs and es arbitrary: out and out and out rule: value_induct)
    (simp_all add: append_unlimited line_def blob_def)

lemma serve_one:
  assumes "acceptable args" and "serve_arguments (map from_utf8_lossy args) session = (Some out, session')"
  shows "serve_connection \<lparr>pending = encode_command args, ending = Silent\<rparr> session = (out, session', Some [])"
proof -
  let ?s = "\<lparr>pending = [], ending = Silent\<rparr>" and ?b = "new_request_budget MOCK_REQUEST_BYTES"
  have args: "args \<noteq> []" using assms(1) by (simp add: acceptable_def)
  have "sum_list (command_permits args) \<le> available ?b"
    using assms(1) by (simp add: acceptable_def sum_command_permits new_request_budget_def limits)
  from read_request_encoded [OF assms(1) this, where s = ?s and rest = "[]"] obtain b where
    read: "read_request \<lparr>pending = encode_command args, ending = Silent\<rparr> ?b = Ok (Command args, command_permits args, ?s, b)"
    by auto
  have "read_request ?s ?b = Err Hang"
    by (simp add: read_request_def read_line_def read_until_limited_def read_until_def)
  then have "serve_connection ?s session' = ([], session', Some [])"
    by (simp add: serve_connection.simps [of ?s])
  with read assms(2) args show ?thesis
    by (simp add: serve_connection.simps [of "\<lparr>pending = encode_command args, ending = Silent\<rparr>"])
qed

definition fresh_session :: "session \<Rightarrow> session" where
  "fresh_session s = s\<lparr>selected := 0, negotiated := 2\<rparr>"

lemma mock_execute:
  assumes "acceptable args" and "list_all valid_utf8 args" and "fits_budget n v"
    and "serve_arguments args (fresh_session (mock_session w)) = (Some (wire v), session')"
  shows "execute_within mock_env addr args n w = (Ok v, w\<lparr>mock_session := session', unread := []\<rparr>)"
proof -
  have lossy: "map from_utf8_lossy args = args"
    using assms(2) by (induction args) (simp_all add: from_utf8_lossy_valid)
  let ?s = "\<lparr>pending = [], ending = Silent\<rparr>" and ?w = "w\<lparr>mock_session := fresh_session (mock_session w), unread := []\<rparr>"
  have "serve_connection \<lparr>pending = encode_command args, ending = Silent\<rparr> (fresh_session (mock_session w)) =
      (wire v, session', Some [])"
    using serve_one [OF assms(1), of "fresh_session (mock_session w)"] assms(4) lossy by simp
  then show ?thesis
    using assms(1,3)
    by (intro execute_within_answered [where s = ?s and rest = "[]" and ?s0.0 = ?s and ?w0.0 = ?w and
          ?s1.0 = "\<lparr>pending = wire v, ending = Silent\<rparr>" and ?w1.0 = "w\<lparr>mock_session := session', unread := []\<rparr>"])
      (simp_all add: mock_env_def acceptable_def fresh_session_def)
qed

section \<open>Reads of a key\<close>

definition stored :: "mock_world \<Rightarrow> rstring \<Rightarrow> Stored option" where
  "stored w = data (mock_state (mock_session w))"

definition received :: "mock_world \<Rightarrow> rstring list" where
  "received w = commands (mock_state (mock_session w))"

definition read_names :: "rstring list" where
  "read_names =
     [''TYPE'', ''TTL'', ''STRLEN'', ''GETRANGE'', ''LLEN'', ''LRANGE'', ''SCARD'', ''HLEN'', ''ZCARD'', ''ZRANGE'', ''XLEN'', ''XRANGE'']"

lemma read_name_facts:
  "name \<in> set read_names \<Longrightarrow>
     to_ascii_uppercase name = name \<and> valid_utf8 name \<and> length name \<le> 8 \<and>
     name \<notin> {''SELECT'', ''HELLO'', ''SHUTDOWN'', ''GET'', ''SET''}"
  by (auto simp: read_names_def to_ascii_uppercase_def ascii_upper_other)

lemma dispatch_read_data:
  assumes "data st = data st'"
  shows "dispatch_read st name args = dispatch_read st' name args"
proof -
  have "on_key st = on_key st'" using assms by (intro ext) (simp add: on_key_def split: list.split)
  with assms show ?thesis by (simp only: dispatch_read_def)
qed

lemma log_command_simps [simp]:
  "data (mock_state (log_command args s)) = data (mock_state s)"
  "commands (mock_state (log_command args s)) = commands (mock_state s) @ [to_ascii_uppercase (args ! 0)]"
  by (simp_all add: log_command_def Let_def)

lemma serve_read:
  assumes "name \<in> set read_names" and "dispatch_read (mock_state s) name args = Some v"
  shows "serve_arguments (name # args) s = (Some (wire v), log_command (name # args) s)"
proof -
  have "dispatch_read (mock_state (log_command (name # args) s)) name args = Some v"
    using assms(2) dispatch_read_data [of "mock_state (log_command (name # args) s)" "mock_state s"] by simp
  with read_name_facts [OF assms(1)] show ?thesis
    by (simp add: serve_arguments_def update_session_def Let_def dispatch_def encode_unlimited)
qed

lemma fresh_session_simps [simp]: "mock_state (fresh_session s) = mock_state s"
  by (simp add: fresh_session_def)

lemma mock_read:
  assumes "name \<in> set read_names" and "list_all valid_utf8 args" and "length args \<le> 8"
    and "length (concat args) \<le> MAX_REQUEST_BULK"
    and "dispatch_read (mock_state (mock_session w)) name args = Some v" and "fits_budget KEY_DETAIL_RESPONSE_BYTES v"
  shows "\<exists>w'. key_execute mock_env addr (name # args) w = (Ok v, w') \<and> stored w' = stored w \<and> received w' = received w @ [name]"
proof -
  let ?w = "w\<lparr>mock_session := log_command (name # args) (fresh_session (mock_session w)), unread := []\<rparr>"
  note facts = read_name_facts [OF assms(1)]
  have "length a \<le> length (concat args)" if "a \<in> set args" for a
    using that by (induction args) auto
  then have "acceptable (name # args)"
    using facts assms(3,4) by (force simp: acceptable_def limits)
  moreover have "serve_arguments (name # args) (fresh_session (mock_session w)) =
      (Some (wire v), log_command (name # args) (fresh_session (mock_session w)))"
    using assms(5) by (intro serve_read [OF assms(1)]) simp
  ultimately have "key_execute mock_env addr (name # args) w = (Ok v, ?w)"
    unfolding key_execute_def using facts assms(2,6) by (intro mock_execute) simp_all
  then show ?thesis using facts by (simp add: stored_def received_def)
qed

section \<open>Windows\<close>

lemma window_eval:
  "parse_or parse_u64_str 0 ''0'' = 0" "parse_or parse_i64_str (-1) ''99'' = 99" "parse_or parse_i64_str (-1) ''4095'' = 4095"
  "parse_or parse_u64_str n ''100'' = 100"
  by (simp_all add: parse_or_def number_eval)

lemma window_first_page: "window xs (key # ''0'' # ''99'' # rest) = Some (take 100 xs)"
proof (cases "length xs")
  case (Suc m)
  then have "min 99 (int (length xs) - 1) = int (min 99 m)" "xs \<noteq> []" by auto
  moreover have "as_usize (int (min 99 m)) = min 99 m" by (simp add: as_usize_def min_def)
  moreover have "take (min 99 m + 1) xs = take 100 xs" using Suc by (simp add: min_def)
  ultimately show ?thesis using Suc
    by (simp add: window_def window_eval Let_def as_i64_def slice_def limits del: of_nat_min)
qed (simp add: window_def window_eval Let_def as_i64_def limits)

lemma range_first_page: "range_bulk value [key, ''0'', ''4095''] = Some (bulk (take 4096 value))"
proof (cases "length value")
  case (Suc m)
  moreover have "as_usize 4095 = 4095" by (simp add: as_usize_def)
  moreover have "take (min 4095 m + 1) value = take 4096 value" using Suc by (simp add: min_def)
  ultimately show ?thesis
    by (auto simp: range_bulk_def window_eval Let_def slice_def)
qed (simp add: range_bulk_def window_eval Let_def)

section \<open>The page of every kind of key\<close>

fun extent :: "Stored \<Rightarrow> nat" where
  "extent (Str value) = length value"
| "extent (Bytes value) = length value"
| "extent (List xs) = length xs"
| "extent (SetOf xs) = length xs"
| "extent (Hash es) = length es"
| "extent (ZSet es) = length es"
| "extent (Stream es) = length es"

text \<open>The reply a page shows, and the page for its JSON value.\<close>

fun shown :: "Stored \<Rightarrow> RespValue option" where
  "shown (Str value) = Some (bulk (take 4096 value))"
| "shown (Bytes value) = Some (bulk (take 4096 value))"
| "shown (List xs) = Some (Array (Some (map bulk (take 100 xs))))"
| "shown (SetOf xs) = None"
| "shown (Hash es) = None"
| "shown (ZSet es) = Some (Array (Some (concat (map (\<lambda>(member, score). [bulk member, bulk score]) (take 100 es)))))"
| "shown (Stream es) = Some (Array (Some (map stream_entry (take 100 es))))"

fun stored_page :: "Stored \<Rightarrow> json \<Rightarrow> Page" where
  "stored_page (SetOf xs) j = omitted_page (int (length xs)) SET_OMITTED"
| "stored_page (Hash es) j = omitted_page (int (length es)) HASH_OMITTED"
| "stored_page (Str value) j = bounded_page j (int (length value)) (int (min (length value) 4096)) STRING_PREVIEW_BYTES"
| "stored_page (Bytes value) j = bounded_page j (int (length value)) (int (min (length value) 4096)) STRING_PREVIEW_BYTES"
| "stored_page value j = bounded_page j (int (extent value)) (int (min (extent value) 100)) PAGE_LIMIT"

text \<open>The commands a page sends after \<open>TYPE\<close> and \<open>TTL\<close>.\<close>

fun page_commands :: "Stored \<Rightarrow> rstring list" where
  "page_commands (Str value) = [''STRLEN'', ''GETRANGE'']"
| "page_commands (Bytes value) = [''STRLEN'', ''GETRANGE'']"
| "page_commands (List xs) = [''LLEN'', ''LRANGE'']"
| "page_commands (SetOf xs) = [''SCARD'']"
| "page_commands (Hash es) = [''HLEN'']"
| "page_commands (ZSet es) = [''ZCARD'', ''ZRANGE'']"
| "page_commands (Stream es) = [''XLEN'', ''XRANGE'']"

lemma values_to_json_length: "values_to_json t i vs b = Ok (js, b') \<Longrightarrow> length js = length vs"
proof (induction vs arbitrary: i b js)
  case (Cons v vs)
  then show ?case by (auto split: if_split_asm)
qed simp

lemma array_to_json:
  assumes "to_json_with_budget t (Array (Some vs)) n = Ok j"
  shows "array_len j = int (length vs)"
  using assms by (auto simp: to_json_with_budget_def dest: values_to_json_length)

lemma integer_fits:
  assumes "int n \<le> I64_MAX"
  shows "fits_budget KEY_DETAIL_RESPONSE_BYTES (Integer (int n))"
proof -
  have "length (show_nat n) \<le> 19" using assms by (intro length_show_nat) (simp_all add: limits)
  with assms show ?thesis
    by (simp add: fits_budget_def all_values.simps [of admissible] leaf_shape in_i64_def show_int_of_nat limits)
qed

lemma simple_fits: "fits_budget KEY_DETAIL_RESPONSE_BYTES (Simple (type_name v))"
  by (cases v)
    (simp_all add: fits_budget_def all_values.simps [of admissible] leaf_shape text_line_def limits)

lemma minus_one_fits: "fits_budget KEY_DETAIL_RESPONSE_BYTES (Integer (-1))"
  by (simp add: fits_budget_def all_values.simps [of admissible] leaf_shape in_i64_def show_int_def show_nat.simps limits)

text \<open>A key that can be sent: a string that leaves room for the rest of the command.\<close>

definition sendable_key :: "rstring \<Rightarrow> bool" where
  "sendable_key key \<longleftrightarrow> valid_utf8 key \<and> length key + 64 \<le> MAX_REQUEST_BULK"

text \<open>The integer reply of a size command and of \<open>TTL\<close>.\<close>

lemma mock_integer:
  assumes "name \<in> set read_names" and "sendable_key key"
    and "dispatch_read (mock_state (mock_session w)) name [key] = Some (Integer i)"
    and "fits_budget KEY_DETAIL_RESPONSE_BYTES (Integer i)"
  shows "\<exists>w'. integer_reply sd mock_env addr name key w = (Ok i, w') \<and> stored w' = stored w \<and> received w' = received w @ [name]"
proof -
  obtain w' where "key_execute mock_env addr [name, key] w = (Ok (Integer i), w')"
    "stored w' = stored w" "received w' = received w @ [name]"
    using mock_read [OF assms(1), of "[key]" w "Integer i" addr] assms(2-4) by (auto simp: sendable_key_def)
  then show ?thesis by (simp add: integer_reply_def as_integer_def)
qed

lemma as_i64_small: "int n \<le> I64_MAX \<Longrightarrow> as_i64 n = int n"
  by (simp add: as_i64_def)

text \<open>A collection: its size, then its window.\<close>

lemma mock_collection:
  assumes "size_command \<in> set read_names" and "range_name \<in> set read_names" and "sendable_key key"
    and "\<And>st. data st = stored w \<Longrightarrow> dispatch_read st size_command [key] = Some (Integer (int n))"
    and "\<And>st. data st = stored w \<Longrightarrow> dispatch_read st range_name range_args = Some (Array (Some vs))"
    and "list_all valid_utf8 range_args" and "length range_args \<le> 8" and "length (concat range_args) \<le> MAX_REQUEST_BULK"
    and "int n \<le> I64_MAX" and "fits_budget KEY_DETAIL_RESPONSE_BYTES (Array (Some vs))"
    and "to_json_with_budget t (Array (Some vs)) KEY_DETAIL_JSON_VALUE_BYTES = Ok j"
  shows "\<exists>w'. collection_page t sd mock_env addr size_command (range_name # range_args) width key w =
      (Ok (bounded_page j (int n) (int (length vs) div width) PAGE_LIMIT), w') \<and> received w' = received w @ [size_command, range_name]"
proof -
  from mock_integer [OF assms(1,3) assms(4) integer_fits [OF assms(9)], of w sd addr]
  obtain w1 where w1: "integer_reply sd mock_env addr size_command key w = (Ok (int n), w1)"
    "stored w1 = stored w" "received w1 = received w @ [size_command]" by (auto simp: stored_def)
  then have "dispatch_read (mock_state (mock_session w1)) range_name range_args = Some (Array (Some vs))"
    by (intro assms(5)) (simp add: stored_def)
  from mock_read [OF assms(2,6,7,8) this assms(10), of addr] w1
  obtain w2 where "key_execute mock_env addr (range_name # range_args) w1 = (Ok (Array (Some vs)), w2)"
    "received w2 = received w @ [size_command, range_name]" by auto
  with w1 show ?thesis
    by (simp add: collection_page_def assms(11) array_to_json [OF assms(11)])
qed

lemma length_pairs: "length (concat (map (\<lambda>(a, b). [f a, g b]) xs)) = 2 * length xs"
  by (induction xs) auto

lemma option_words:
  "eq_ignore_ascii_case ''COUNT'' ''COUNT''" "\<not> eq_ignore_ascii_case ''-'' ''COUNT''"
  "\<not> eq_ignore_ascii_case ''+'' ''COUNT''" "eq_ignore_ascii_case ''WITHSCORES'' ''WITHSCORES''"
  by (simp_all add: eq_ignore_ascii_case_def to_ascii_uppercase_def ascii_upper_other)

text \<open>What the child answers to the commands of a page.\<close>

lemma dispatch_page:
  assumes "data st key = Some v"
  shows "v = List xs \<Longrightarrow> dispatch_read st ''LLEN'' [key] = size_reply (Some (length xs))"
    and "v = List xs \<Longrightarrow> dispatch_read st ''LRANGE'' [key, ''0'', ''99''] = shown v"
    and "v = ZSet es \<Longrightarrow> dispatch_read st ''ZCARD'' [key] = size_reply (Some (length es))"
    and "v = ZSet es \<Longrightarrow> dispatch_read st ''ZRANGE'' [key, ''0'', ''99'', ''WITHSCORES''] = shown v"
    and "v = Stream ss \<Longrightarrow> dispatch_read st ''XLEN'' [key] = size_reply (Some (length ss))"
    and "v = Stream ss \<Longrightarrow> \<not> eq_ignore_ascii_case key ''COUNT'' \<Longrightarrow>
      dispatch_read st ''XRANGE'' [key, ''-'', ''+'', ''COUNT'', ''100''] = shown v"
    and "v = SetOf ms \<Longrightarrow> dispatch_read st ''SCARD'' [key] = size_reply (Some (length ms))"
    and "v = Hash hs \<Longrightarrow> dispatch_read st ''HLEN'' [key] = size_reply (Some (length hs))"
    and "v = Str a \<or> v = Bytes a \<Longrightarrow> dispatch_read st ''STRLEN'' [key] = size_reply (Some (length a))"
    and "v = Str a \<or> v = Bytes a \<Longrightarrow> dispatch_read st ''GETRANGE'' [key, ''0'', ''4095''] = shown v"
    and "dispatch_read st ''TYPE'' [key] = Some (Simple (type_name v))"
    and "dispatch_read st ''TTL'' [key] = Some (Integer (-1))"
  using assms
  by (simp_all add: dispatch_read_def on_key_def window_first_page range_first_page option_words
      window_eval get_def, auto)

text \<open>The reply and its conversion fit the limits of a key page.\<close>

definition page_fits :: "(json \<Rightarrow> (rstring, rstring) result) \<Rightarrow> Stored \<Rightarrow> json \<Rightarrow> bool" where
  "page_fits t v j \<longleftrightarrow>
     int (extent v) \<le> I64_MAX \<and>
     (case shown v of
        None \<Rightarrow> True
      | Some reply \<Rightarrow>
          fits_budget KEY_DETAIL_RESPONSE_BYTES reply \<and>
          to_json_with_budget t reply KEY_DETAIL_JSON_VALUE_BYTES = Ok j)"

lemma sendable_args:
  assumes "sendable_key key"
  shows "list_all valid_utf8 [key, ''0'', ''99'']" "length (concat [key, ''0'', ''99'']) \<le> MAX_REQUEST_BULK"
    "list_all valid_utf8 [key, ''0'', ''99'', ''WITHSCORES'']" "length (concat [key, ''0'', ''99'', ''WITHSCORES'']) \<le> MAX_REQUEST_BULK"
    "list_all valid_utf8 [key, ''-'', ''+'', ''COUNT'', ''100'']" "length (concat [key, ''-'', ''+'', ''COUNT'', ''100'']) \<le> MAX_REQUEST_BULK"
    "list_all valid_utf8 [key, ''0'', ''4095'']" "length (concat [key, ''0'', ''4095'']) \<le> MAX_REQUEST_BULK"
    "list_all valid_utf8 [key]" "length (concat [key]) \<le> MAX_REQUEST_BULK"
  using assms by (simp_all add: sendable_key_def)

lemma mock_size:
  assumes "name \<in> set read_names" and "sendable_key key" and "int n \<le> I64_MAX"
    and "dispatch_read (mock_state (mock_session w)) name [key] = size_reply (Some n)"
  shows "\<exists>w'. integer_reply sd mock_env addr name key w = (Ok (int n), w') \<and> stored w' = stored w \<and> received w' = received w @ [name]"
  using assms by (intro mock_integer) (simp_all add: size_reply_def as_i64_small integer_fits)

lemma mock_string_page:
  assumes "stored w key = Some v" and "v = Str a \<or> v = Bytes a" and "sendable_key key" and "page_fits t v j"
  shows "\<exists>w'. string_page t sd mock_env addr key w = (Ok (stored_page v j), w') \<and> received w' = received w @ page_commands v"
proof -
  have n: "int (length a) \<le> I64_MAX" and fits: "fits_budget KEY_DETAIL_RESPONSE_BYTES (bulk (take 4096 a))"
    and conv: "to_json_with_budget t (bulk (take 4096 a)) KEY_DETAIL_JSON_VALUE_BYTES = Ok j" and v: "shown v = Some (bulk (take 4096 a))"
    using assms(2,4) by (auto simp: page_fits_def)
  note at = assms(1) [unfolded stored_def]
  from mock_size [OF _ assms(3) n dispatch_page(9) [OF at assms(2)], of sd addr]
  obtain w1 where w1: "integer_reply sd mock_env addr ''STRLEN'' key w = (Ok (int (length a)), w1)" "stored w1 = stored w"
    "received w1 = received w @ [''STRLEN'']"
    by (auto simp: read_names_def)
  then have "dispatch_read (mock_state (mock_session w1)) ''GETRANGE'' [key, ''0'', ''4095''] = Some (bulk (take 4096 a))"
    using assms(1) dispatch_page(10) [OF _ assms(2)] v by (simp add: stored_def)
  from mock_read [OF _ sendable_args(7) [OF assms(3)] _ sendable_args(8) [OF assms(3)] this fits, of addr]
  obtain w2 where "key_execute mock_env addr [''GETRANGE'', key, ''0'', ''4095''] w1 = (Ok (bulk (take 4096 a)), w2)"
    "received w2 = received w1 @ [''GETRANGE'']"
    by (auto simp: read_names_def)
  then show ?thesis
    unfolding string_page_def show_page_bounds using w1 conv assms(2)
    by (auto simp: bulk_def min_def limits)
qed

lemma mock_typed_page:
  assumes "stored w key = Some v" and "sendable_key key" and "\<not> eq_ignore_ascii_case key ''COUNT''" and "page_fits t v j"
  shows "\<exists>w'. typed_page t sd mock_env addr (type_name v) key w = (Ok (stored_page v j), w') \<and> received w' = received w @ page_commands v"
proof -
  note at = assms(1) [unfolded stored_def] and fits = assms(4) [unfolded page_fits_def]
  have size: "\<exists>w'. integer_reply sd mock_env addr name key w = (Ok (int (extent v)), w') \<and> received w' = received w @ [name]"
    if "name \<in> set read_names" "dispatch_read (mock_state (mock_session w)) name [key] = size_reply (Some (extent v))" for name
    using mock_size [OF that(1) assms(2) _ that(2), of sd addr] fits by blast
  have window: "\<exists>w'. collection_page t sd mock_env addr size_command (range_name # args) width key w =
        (Ok (bounded_page j (int (extent v)) (int (length vs) div width) PAGE_LIMIT), w') \<and> received w' = received w @ [size_command, range_name]"
    if "size_command \<in> set read_names" "range_name \<in> set read_names" "shown v = Some (Array (Some vs))"
      "\<And>st. data st key = Some v \<Longrightarrow> dispatch_read st size_command [key] = size_reply (Some (extent v))"
      "\<And>st. data st key = Some v \<Longrightarrow> dispatch_read st range_name args = shown v"
      "list_all valid_utf8 args" "length (concat args) \<le> MAX_REQUEST_BULK" "length args \<le> 8"
    for size_command range_name args vs width
    using mock_collection [OF that(1,2) assms(2), of w "extent v" args vs t j sd addr width] that(3-8) assms(1) fits
    by (auto simp: size_reply_def as_i64_small)
  note args = sendable_args [OF assms(2)]
  show ?thesis
  proof (cases v)
    case (Str a)
    with mock_string_page [OF assms(1) _ assms(2,4), of a sd addr] show ?thesis by (simp add: typed_page_def)
  next
    case (Bytes a)
    with mock_string_page [OF assms(1) _ assms(2,4), of a sd addr] show ?thesis by (simp add: typed_page_def)
  next
    case (List xs)
    with window [of "''LLEN''" "''LRANGE''" "map bulk (take 100 xs)" "[key, ''0'', ''99'']" 1] args(1,2) dispatch_page(1,2)
    show ?thesis by (simp add: typed_page_def list_page_def show_page_bounds read_names_def min.commute)
  next
    case (SetOf xs)
    with size [of "''SCARD''"] dispatch_page(7) [OF at] show ?thesis by (auto simp: typed_page_def read_names_def)
  next
    case (Hash es)
    with size [of "''HLEN''"] dispatch_page(8) [OF at] show ?thesis by (auto simp: typed_page_def read_names_def)
  next
    case (ZSet es)
    with window [of "''ZCARD''" "''ZRANGE''" "concat (map (\<lambda>(a, b). [bulk a, bulk b]) (take 100 es))"
        "[key, ''0'', ''99'', ''WITHSCORES'']" 2] args(3,4) dispatch_page(3,4)
    show ?thesis by (simp add: typed_page_def zset_page_def show_page_bounds read_names_def length_pairs min.commute)
  next
    case (Stream es)
    with window [of "''XLEN''" "''XRANGE''" "map stream_entry (take 100 es)" "[key, ''-'', ''+'', ''COUNT'', ''100'']" 1]
      args(5,6) dispatch_page(5,6) assms(3)
    show ?thesis by (simp add: typed_page_def stream_page_def show_page_bounds read_names_def min.commute)
  qed
qed

lemma mock_detail:
  assumes "stored w key = Some v" and "sendable_key key" and "\<not> eq_ignore_ascii_case key ''COUNT''"
    and "page_fits t v j"
  shows "\<exists>w'. detail t sd mock_env addr key w = (Ok (Some (detail_object key (type_name v) (-1) (stored_page v j))), w') \<and>
    received w' = received w @ [''TYPE'', ''TTL''] @ page_commands v"
proof -
  note at = assms(1) [unfolded stored_def] and args = sendable_args(9,10) [OF assms(2)]
  from mock_read [OF _ args(1) _ args(2) dispatch_page(11) [OF at] simple_fits, of addr]
  obtain w1 where w1: "key_execute mock_env addr [''TYPE'', key] w = (Ok (Simple (type_name v)), w1)" "stored w1 = stored w"
    "received w1 = received w @ [''TYPE'']"
    by (auto simp: read_names_def)
  with assms(1) have "data (mock_state (mock_session w1)) key = Some v" by (simp add: stored_def)
  from mock_integer [OF _ assms(2) dispatch_page(12) [OF this] minus_one_fits, of sd addr]
  obtain w2 where w2: "integer_reply sd mock_env addr ''TTL'' key w1 = (Ok (-1), w2)" "stored w2 = stored w1"
    "received w2 = received w1 @ [''TTL'']"
    by (auto simp: read_names_def)
  with w1 assms(1) have "stored w2 key = Some v" by simp
  from mock_typed_page [OF this assms(2,3,4), of sd addr] obtain w3 where
    "typed_page t sd mock_env addr (type_name v) key w2 = (Ok (stored_page v j), w3)" "received w3 = received w2 @ page_commands v" by blast
  moreover have "type_name v \<noteq> ''none''" by (cases v) simp_all
  ultimately show ?thesis using w1 w2 by (simp add: detail_def as_string_def)
qed

text \<open>C9: end to end against the child of the test suite, the page of a stored key is right for every type of
  value: its type and its true size; for a string at most 4096 bytes and for a list, sorted set or
  stream at most 100 elements from the front, how many of them are shown and whether that is all;
  for a set or hash its size only, marked as omitted.  The key is UTF-8 text that fits a command and
  is not \<open>COUNT\<close> (the child of the test suite would take it for an option of \<open>XRANGE\<close>), and the reply
  and its JSON are within the limits of a key page.\<close>

theorem key_detail_of_stored:
  assumes "stored w key = Some v" and "sendable_key key" and "\<not> eq_ignore_ascii_case key ''COUNT''"
    and "page_fits t v j"
  shows "fst (detail t sd mock_env addr key w) = Ok (Some (detail_object key (type_name v) (-1) (stored_page v j)))"
  using mock_detail [OF assms, of sd addr] by auto

theorem key_detail_of_stored_witness:
  "fst (detail (\<lambda>j. Ok (json_text j)) (\<lambda>_. []) mock_env ''a'' ''k''
      \<lparr>mock_session = \<lparr>mock_state = seed ''k'' (List [''a'', ''b'']) empty_mock, selected = 0, negotiated = 2\<rparr>, unread = [], delivered = []\<rparr>) =
    Ok (Some (detail_object ''k'' ''list'' (-1) (bounded_page (JArray [JString ''a'', JString ''b'']) 2 2 100)))"
proof -
  let ?w = "\<lparr>mock_session = \<lparr>mock_state = seed ''k'' (List [''a'', ''b'']) empty_mock, selected = 0, negotiated = 2\<rparr>, unread = [], delivered = []\<rparr>"
  have stored: "stored ?w ''k'' = Some (List [''a'', ''b''])" by (simp add: stored_def seed_def)
  have key: "sendable_key ''k''" "\<not> eq_ignore_ascii_case ''k'' ''COUNT''"
    by (simp_all add: sendable_key_def limits eq_ignore_ascii_case_def to_ascii_uppercase_def)
  have "to_json_with_budget (\<lambda>j. Ok (json_text j)) (Array (Some [bulk ''a'', bulk ''b''])) KEY_DETAIL_JSON_VALUE_BYTES =
      Ok (JArray [JString ''a'', JString ''b''])"
    by (simp add: bulk_def bulk_to_json_def from_utf8_def to_json_with_budget_def new_json_budget_def consume_def
        consume_json_string_def escaped_length_def saturating_add_def limits)
  moreover have "fits_budget KEY_DETAIL_RESPONSE_BYTES (Array (Some [bulk ''a'', bulk ''b'']))"
  proof -
    have "children (bulk x) = []" for x by (simp add: bulk_def)
    note leaf = leaf_shape [OF this]
    have "all_values admissible (bulk [c])" for c
      by (simp add: bulk_def all_values.simps [of admissible "Bulk x" for x] limits)
    then have "decodable (Array (Some [bulk ''a'', bulk ''b'']))"
      by (simp add: all_values.simps [of admissible "Array x" for x] limits)
    then show ?thesis
      by (simp add: fits_budget_def leaf height.simps [of "Array x" for x] nodes.simps [of "Array x" for x]
          elements.simps [of "Array x" for x] limits) (simp add: bulk_def blob_def line_def show_nat.simps)
  qed
  ultimately have fits: "page_fits (\<lambda>j. Ok (json_text j)) (List [''a'', ''b'']) (JArray [JString ''a'', JString ''b''])"
    by (simp add: page_fits_def limits)
  from key_detail_of_stored [OF stored key fits, of "\<lambda>_. []" "''a''"] show ?thesis by (simp add: limits)
qed

end
