(* ===== verification/Proxy_Props.thy ===== *)
theory Proxy_Props
  imports Proxy
begin

text \<open>
  What one public connection guarantees: only allowed commands reach the child, every accepted
  command is answered once, the child's reply is passed on unchanged, permits come back, and no
  error reply the proxy builds can exceed its buffer.
\<close>

section \<open>Error replies always fit\<close>

lemma encode_error_fits: "length msg + 3 \<le> MAX_RESPONSE_BYTES \<Longrightarrow> encode_error msg = Some (wire (Error msg))"
  by (simp add: encode_error_wire)

lemma show_limits_short:
  "length (show_nat MAX_REQUEST_LINE) \<le> 7" "length (show_nat MAX_REQUEST_BULK) \<le> 7"
  "length (show_nat MAX_REQUEST_BYTES) \<le> 7" "length (show_nat MAX_ARGUMENTS) \<le> 7"
  "length (show_nat CLIENT_READ_TIMEOUT_SECS) \<le> 7"
  by (rule length_show_small, simp add: limits)+

text \<open>The error texts of the operating system are short.\<close>

definition short_faults :: "stream \<Rightarrow> bool" where
  "short_faults s \<longleftrightarrow> (\<forall>msg. ending s = Broken msg \<or> ending s = Closed msg \<longrightarrow> length msg \<le> 4096)"

lemma read_until_limited_ending: "read_until_limited d n s = Ok (a, s') \<Longrightarrow> ending s' = ending s"
  by (auto simp: read_until_limited_def split: option.split_asm if_split_asm dest!: read_until_Ok)

lemma read_line_ending: "read_line s limit = Ok (l, s') \<Longrightarrow> ending s' = ending s"
  by (auto simp: read_line_def Let_def dest!: read_until_limited_ending split: if_split_asm)

lemma read_until_limited_Fail:
  "read_until_limited d n s = Err (Fail e) \<Longrightarrow> ending s = Broken e"
  by (auto simp: read_until_limited_def read_until_def split: option.split_asm if_split_asm stream_end.split_asm)

lemma in_context_Fail [simp]:
  "in_context prefix f = Fail e \<longleftrightarrow> (\<exists>m. f = Fail m \<and> e = prefix @ m)"
  "Fail e = in_context prefix f \<longleftrightarrow> (\<exists>m. f = Fail m \<and> e = prefix @ m)"
  by (cases f; auto)+

lemma read_line_Fail:
  "read_line s MAX_REQUEST_LINE = Err (Fail e) \<Longrightarrow> short_faults s \<Longrightarrow> length e \<le> 4200"
  using show_limits_short(1)
  by (auto simp: read_line_def Let_def short_faults_def dest!: read_until_limited_Fail split: if_split_asm)

lemma read_exact_Fail: "read_exact n s = Err (Fail e) \<Longrightarrow> short_faults s \<Longrightarrow> length e \<le> 4096"
  by (auto simp: read_exact_def short_faults_def split: if_split_asm stream_end.split_asm)

lemma request_number_Err: "request_number payload field = Err e \<Longrightarrow> e = ''ERR Protocol error: invalid '' @ field"
  by (auto simp: request_number_def split: option.split_asm)

lemma reserve_Err: "reserve b n = Err e \<Longrightarrow> e = REQUEST_BUDGET_EXHAUSTED_ERROR"
  by (auto simp: reserve_def Let_def split: if_split_asm)

lemma read_timeout_error_short: "length read_timeout_error \<le> 4200"
  using show_limits_short(5) by (simp add: read_timeout_error_def)

lemma timed_read_line_Fail:
  "with_timeout read_timeout_error (read_line s MAX_REQUEST_LINE) = Err (Fail e) \<Longrightarrow> short_faults s \<Longrightarrow> length e \<le> 4200"
  using read_timeout_error_short by (auto simp: with_timeout_Fail dest: read_line_Fail)

lemma timed_read_exact_Fail:
  "with_timeout read_timeout_error (map_err (in_context ''ERR failed to read RESP argument: '') (read_exact n s)) =
     Err (Fail e) \<Longrightarrow> short_faults s \<Longrightarrow> length e \<le> 4200"
  using read_timeout_error_short by (auto simp: with_timeout_Fail dest: read_exact_Fail)

lemma short_faults_cong: "ending s' = ending s \<Longrightarrow> short_faults s' = short_faults s"
  by (simp add: short_faults_def)

lemma read_arguments_Fail:
  "read_arguments n sofar s b = Err (Fail e) \<Longrightarrow> short_faults s \<Longrightarrow> length e \<le> 4200"
proof (induction n arbitrary: sofar s b)
  case (Suc n)
  show ?case
  proof (cases "with_timeout read_timeout_error (read_line s MAX_REQUEST_LINE)")
    case (Err f)
    with Suc.prems timed_read_line_Fail [of s e] show ?thesis by simp
  next
    case (Ok r)
    obtain header s1 where r: "r = (header, s1)" by fastforce
    have s1: "short_faults s1"
      using Ok r Suc.prems(2) by (auto dest!: read_line_ending intro: short_faults_cong [THEN iffD2])
    have data_short: "short_faults s2" if "read_exact m s1 = Ok (d, s2)" for m d s2
      using s1 read_exact_Ok [OF that] short_faults_cong [of s2 s1] by simp
    note errs = timed_read_exact_Fail [OF _ s1] request_number_Err reserve_Err
    show ?thesis
      using Suc.prems(1) show_limits_short Ok r
      by (auto simp: Let_def REQUEST_BUDGET_EXHAUSTED_ERROR_def simp del: add_2_eq_Suc'
          dest: errs Suc.IH [OF _ data_short] split: if_split_asm)
  qed
qed simp

lemma read_request_Fail:
  assumes "read_request s b = Err (Fail e)" and "short_faults s"
  shows "length e \<le> 4200"
proof (cases "read_line s MAX_REQUEST_LINE")
  case (Err f)
  with assms read_line_Fail [of s e] show ?thesis by (simp add: read_request_def)
next
  case (Ok r)
  obtain header s1 where r: "r = (header, s1)" by fastforce
  have s1: "short_faults s1"
    using Ok r assms(2) by (auto dest!: read_line_ending intro: short_faults_cong [THEN iffD2])
  show ?thesis
    using assms(1) show_limits_short Ok r
    by (auto simp: read_request_def REQUEST_BUDGET_EXHAUSTED_ERROR_def
        dest: read_arguments_Fail [OF _ s1] request_number_Err reserve_Err split: if_split_asm option.split_asm)
qed

lemma static_errors_fit:
  "encode_error UPSTREAM_STATE_LOSS_ERROR = Some (wire (Error UPSTREAM_STATE_LOSS_ERROR))"
  "encode_error IDLE_TIMEOUT_ERROR = Some (wire (Error IDLE_TIMEOUT_ERROR))"
  "encode_error BACKEND_BUSY_ERROR = Some (wire (Error BACKEND_BUSY_ERROR))"
  "encode_error TOO_MANY_CONNECTIONS_ERROR = Some (wire (Error TOO_MANY_CONNECTIONS_ERROR))"
  by (rule encode_error_fits,
      simp add: UPSTREAM_STATE_LOSS_ERROR_def IDLE_TIMEOUT_ERROR_def BACKEND_BUSY_ERROR_def
        TOO_MANY_CONNECTIONS_ERROR_def limits)+

lemma refusal_fits:
  assumes "\<forall>a \<in> set args. length a \<le> MAX_REQUEST_BULK"
  shows "encode_error (message (classify_bytes_arguments args)) =
           Some (wire (Error (message (classify_bytes_arguments args))))"
  using refusal_message_length [OF assms] by (intro encode_error_fits) (simp add: limits)

lemma encode_reply_some: "\<exists>encoded close. encode_reply reply = (Some encoded, close)"
  by (auto simp: encode_reply_def static_errors_fit split: result.split)

fun panicked :: "'w flow \<Rightarrow> bool" where
  "panicked (Panicked c) = True"
| "panicked _ = False"

lemma panicked_on_flow [simp]: "panicked (on_flow f r) = panicked r"
  by (cases r) simp_all

lemma refuse_not_panicked: "encode_error msg = Some bs \<Longrightarrow> \<not> panicked (refuse env msg t c)"
  by (auto simp: refuse_def split: prod.split result.split)

lemma close_with_not_panicked: "encode_error msg = Some bs \<Longrightarrow> \<not> panicked (close_with env msg c)"
  by (auto simp: close_with_def split: prod.split)

lemma serve_command_not_panicked:
  assumes "\<forall>a \<in> set args. length a \<le> MAX_REQUEST_BULK"
  shows "\<not> panicked (serve_command env addr args c)"
proof -
  have refused: "\<not> panicked (refuse env (message (classify_bytes_arguments args)) t c)"
    "\<not> panicked (refuse env BACKEND_BUSY_ERROR t c)" for t
    using refuse_not_panicked [OF refusal_fits [OF assms]] refuse_not_panicked [OF static_errors_fit(3)] by blast+
  have some: "fst (encode_reply r) \<noteq> None" for r using encode_reply_some [of r] by auto
  show ?thesis
    unfolding serve_command_def Let_def
    using refused some by (auto split: prod.split option.split result.split) (metis fst_conv option.distinct(1))
qed

lemma handle_step_not_panicked:
  assumes "short_faults (client c)"
  shows "\<not> panicked (handle_step env addr c)"
proof (cases "read_request (client c) (request_budget c)")
  case (Err f)
  show ?thesis
  proof (cases f)
    case (Fail e)
    from read_request_Fail [OF Err [unfolded Fail] assms] have "length e + 3 \<le> MAX_RESPONSE_BYTES"
      by (simp add: limits)
    with Err Fail show ?thesis
      by (simp add: handle_step_def close_with_not_panicked [OF encode_error_fits])
  next
    case Hang
    with Err show ?thesis by (simp add: handle_step_def close_with_not_panicked [OF static_errors_fit(2)])
  qed
next
  case (Ok r)
  obtain request permits s b where r: "r = (request, permits, s, b)" by (cases r)
  show ?thesis
  proof (cases request)
    case (Command args)
    have "\<forall>a \<in> set args. length a \<le> MAX_REQUEST_BULK" if "args \<noteq> []"
      using read_request_Ok [of "client c" "request_budget c" args permits s b] Ok r Command that
      by (simp add: acceptable_def)
    then show ?thesis
      using Ok r Command by (auto simp: handle_step_def Let_def serve_command_not_panicked)
  next
    case Eof
    with Ok r show ?thesis by (simp add: handle_step_def Let_def)
  qed
qed

text \<open>
  A concrete environment for the witnesses: a child that answers every request with \<open>+OK\<close>, and a
  world that records what was sent to the child and what was delivered to the client.
\<close>

definition recording_env :: "(bytes list \<times> bytes list) env" where
  "recording_env =
     \<lparr>connect = \<lambda>addr w. (Ok \<lparr>pending = [], ending = Silent\<rparr>, w),
      send = \<lambda>bs s w. (Ok (s\<lparr>pending := pending s @ wire (Simple ''OK'')\<rparr>), (fst w @ [bs], snd w)),
      flush = \<lambda>s w. (Ok s, w),
      deliver = \<lambda>bs w. (Ok (), (fst w, snd w @ [bs]))\<rparr>"

definition example_conn :: "bytes \<Rightarrow> (bytes list \<times> bytes list) conn" where
  "example_conn input =
     \<lparr>client = \<lparr>pending = input, ending = Closed ''early eof''\<rparr>, upstream = None,
      request_budget = new_request_budget MAX_IN_FLIGHT_REQUEST_BYTES, backend_permits = 32, world = ([], [])\<rparr>"

section \<open>Only allowed commands reach the child\<close>

fun flow_conn :: "'w flow \<Rightarrow> 'w conn" where
  "flow_conn (Running c) = c"
| "flow_conn (Finished r c) = c"
| "flow_conn (Panicked c) = c"

lemma flow_conn_on_flow [simp]: "flow_conn (on_flow f r) = f (flow_conn r)"
  by (cases r) simp_all

lemma write_response_kept:
  "kept_by allowed_requests P env \<Longrightarrow> P (world c) \<Longrightarrow> P (world (snd (write_response env bs c)))"
  by (auto simp: write_response_def kept_by_def split: prod.split) (metis snd_conv)

lemma refuse_kept: "kept_by allowed_requests P env \<Longrightarrow> P (world c) \<Longrightarrow> P (world (flow_conn (refuse env msg t c)))"
  using write_response_kept [of P env c]
  by (auto simp: refuse_def split: option.split prod.split result.split) (metis snd_conv)+

lemma close_with_kept: "kept_by allowed_requests P env \<Longrightarrow> P (world c) \<Longrightarrow> P (world (flow_conn (close_with env msg c)))"
  using write_response_kept [of P env c]
  by (auto simp: close_with_def split: option.split prod.split) (metis snd_conv)+

lemma forward_kept:
  assumes "kept_by A P env" and "P w" and "encode_command args \<in> A"
  shows "P (snd (forward env addr up args w))"
proof -
  note keep = kept_byD [OF assms(1)]
  have c: "P (snd (established env addr up w))"
    using keep(1) [OF assms(2), of addr] assms(2) by (auto simp: established_def split: option.split prod.split)
  show ?thesis
    unfolding forward_def using c keep(3,4) assms(3)
    by (auto split: prod.split result.split) (metis snd_conv)+
qed

lemma serve_command_kept:
  assumes "kept_by allowed_requests P env" and "P (world c)" and "args \<noteq> []"
  shows "P (world (flow_conn (serve_command env addr args c)))"
proof (cases "is_allowed (classify_bytes_arguments args) \<and> backend_permits c \<noteq> 0")
  case False
  then show ?thesis using assms by (auto simp: serve_command_def Let_def refuse_kept)
next
  case True
  obtain reply w where fw: "forward env addr (upstream c) args (world c) = (reply, w)" by fastforce
  with forward_kept [OF assms(1,2) allowed_request [OF assms(3)], of addr "upstream c"] True have w: "P w" by simp
  obtain encoded close where er: "encode_reply reply = (Some encoded, close)"
    using encode_reply_some [of reply] by blast
  let ?c = "c\<lparr>backend_permits := backend_permits c - 1, upstream := upstream_after reply (upstream c), world := w\<rparr>"
  have "P (world (snd (write_response env encoded ?c)))"
    using write_response_kept [OF assms(1), of ?c encoded] w by simp
  then show ?thesis
    using True fw er
    by (cases "write_response env encoded ?c")
      (auto simp: serve_command_def Let_def write_backend_response_def split: result.split)
qed

lemma handle_step_kept:
  assumes "kept_by allowed_requests P env" and "P (world c)"
  shows "P (world (flow_conn (handle_step env addr c)))"
  using assms close_with_kept [OF assms] serve_command_kept [OF assms(1)]
  by (auto simp: handle_step_def Let_def drop_reservation_def split: result.split fault.split prod.split Request.split)

lemma handle_connection_kept:
  "kept_by allowed_requests P env \<Longrightarrow> P (world c) \<Longrightarrow> P (world (flow_conn (handle_connection env addr c)))"
proof (induction env addr c rule: handle_connection.induct)
  case (1 env addr c)
  show ?case
  proof (cases "handle_step env addr c")
    case (Running c')
    with "1.IH" [OF Running "1.prems"(1)] handle_step_kept [OF "1.prems", of addr] show ?thesis
      by (simp add: handle_connection.simps [of env addr c])
  qed (use handle_step_kept [OF "1.prems", of addr] in \<open>simp_all add: handle_connection.simps [of env addr c]\<close>)
qed

text \<open>C1: whatever a client sends and however the child and the network behave, every request that is
  written to the child over the whole life of a connection is the encoding of a command that
  the public policy allows.\<close>

theorem only_allowed_commands_forwarded:
  "set (snd (world (flow_conn (handle_connection (traced env) addr c)))) \<subseteq> set (snd (world c)) \<union> allowed_requests"
  using handle_connection_kept [OF traced_kept [of allowed_requests "set (snd (world c))" env], of c addr] by simp

section \<open>Permits come back\<close>

lemma write_response_state:
  "write_response env bs c = (r, c') \<Longrightarrow>
     request_budget c' = request_budget c \<and> backend_permits c' = backend_permits c \<and> client c' = client c \<and>
     upstream c' = upstream c"
  by (auto simp: write_response_def split: prod.split_asm)

definition same_permits :: "'w conn \<Rightarrow> 'w conn \<Rightarrow> bool" where
  "same_permits c c' \<longleftrightarrow> request_budget c' = request_budget c \<and> backend_permits c' = backend_permits c"

lemma refuse_permits: "same_permits c (flow_conn (refuse env msg t c))"
  by (auto simp: same_permits_def refuse_def split: option.split prod.split result.split dest: write_response_state)

lemma close_with_permits: "same_permits c (flow_conn (close_with env msg c))"
  by (auto simp: same_permits_def close_with_def split: option.split prod.split dest: write_response_state)

lemma serve_command_permits: "same_permits c (flow_conn (serve_command env addr args c))"
proof (cases "is_allowed (classify_bytes_arguments args) \<and> backend_permits c \<noteq> 0")
  case False
  then show ?thesis by (auto simp: serve_command_def Let_def refuse_permits)
next
  case True
  obtain reply w where fw: "forward env addr (upstream c) args (world c) = (reply, w)" by fastforce
  obtain encoded close where er: "encode_reply reply = (Some encoded, close)"
    using encode_reply_some [of reply] by blast
  let ?c = "c\<lparr>backend_permits := backend_permits c - 1, upstream := upstream_after reply (upstream c), world := w\<rparr>"
  obtain r c' where wr: "write_response env encoded ?c = (r, c')" by fastforce
  note state = write_response_state [OF wr]
  show ?thesis
    using True fw er wr state
    by (cases r) (simp_all add: same_permits_def serve_command_def Let_def write_backend_response_def)
qed

lemma request_number_positive: "request_number payload field = Ok i \<Longrightarrow> 0 < i \<Longrightarrow> 0 < as_usize i"
  using as_usize_nonneg [of i]
  by (auto simp: request_number_def in_i64_def split: option.split_asm dest!: parse_i64_range)

lemma read_request_release:
  assumes "read_request s b = Ok (request, permits, s', b')"
  shows "release b' permits = b"
proof -
  from assms obtain first s1 where l: "read_line s MAX_REQUEST_LINE = Ok (first, s1)"
    by (auto simp: read_request_def)
  show ?thesis
  proof (cases "request \<noteq> Eof \<and> request \<noteq> Command []")
    case True
    then obtain args where "request = Command args" "args \<noteq> []" by (cases request) auto
    with read_request_Ok [of s b args permits s' b'] assms show ?thesis by (auto simp: release_def)
  next
    case False
    have "permits = [] \<and> b' = b"
    proof (cases first)
      case None
      with l assms show ?thesis by (simp add: read_request_def)
    next
      case (Some header)
      have "\<not> (\<exists>i s2 b2 rest. request_number (drop 1 header) ''argument count'' = Ok i \<and> 0 < i \<and>
          read_arguments (as_usize i) 0 s1 b2 = Ok ([], rest, s2, b'))"
        using request_number_positive read_arguments_Ok by fastforce
      then show ?thesis
        using Some l assms False by (auto simp: read_request_def split: if_split_asm)
    qed
    then show ?thesis by (simp add: release_def)
  qed
qed

lemma handle_step_permits: "same_permits c (flow_conn (handle_step env addr c))"
proof (cases "read_request (client c) (request_budget c)")
  case (Err f)
  then show ?thesis by (cases f) (simp_all add: handle_step_def close_with_permits)
next
  case (Ok r)
  obtain request permits s b where r: "r = (request, permits, s, b)" by (cases r)
  let ?c = "c\<lparr>client := s, request_budget := b\<rparr>"
  note restored = read_request_release [OF Ok [unfolded r]]
  have "same_permits ?c (flow_conn (case request of Eof \<Rightarrow> Finished (Ok ()) ?c
      | Command args \<Rightarrow> if args = [] then Running ?c else serve_command env addr args ?c))"
    using serve_command_permits [of ?c env addr] by (simp add: same_permits_def split: Request.split)
  then show ?thesis
    using Ok r restored by (simp add: handle_step_def Let_def same_permits_def drop_reservation_def)
qed

text \<open>C20: permits come back: however the life of a connection ends, and whatever happened on the way, the
  shared request budget and the backend permits are what they were before it.\<close>

theorem connection_returns_permits:
  "available (request_budget (flow_conn (handle_connection env addr c))) = available (request_budget c) \<and>
   backend_permits (flow_conn (handle_connection env addr c)) = backend_permits c"
proof (induction env addr c rule: handle_connection.induct)
  case (1 env addr c)
  show ?case
  proof (cases "handle_step env addr c")
    case (Running c')
    with "1.IH" [OF Running] handle_step_permits [of c env addr] show ?thesis
      by (simp add: handle_connection.simps [of env addr c] same_permits_def)
  qed (use handle_step_permits [of c env addr] in
      \<open>simp_all add: handle_connection.simps [of env addr c] same_permits_def\<close>)
qed

section \<open>No connection panics\<close>

lemma read_arguments_ending: "read_arguments n sofar s b = Ok (args, permits, s', b') \<Longrightarrow> ending s' = ending s"
proof (induction n arbitrary: sofar s b args permits)
  case (Suc n)
  then show ?case
    by (auto simp: Let_def split: if_split_asm option.split_asm dest!: read_line_ending read_exact_Ok Suc.IH)
qed simp

lemma read_request_ending:
  assumes "read_request s b = Ok (request, permits, s', b')"
  shows "ending s' = ending s"
proof -
  from assms obtain first s1 where l: "read_line s MAX_REQUEST_LINE = Ok (first, s1)"
    by (auto simp: read_request_def)
  have e: "ending s1 = ending s" by (rule read_line_ending [OF l])
  show ?thesis
    using assms l e
    by (auto simp: read_request_def Let_def split: option.split_asm if_split_asm dest!: read_arguments_ending)
qed

lemma handle_step_ending: "handle_step env addr c = Running c' \<Longrightarrow> ending (client c') = ending (client c)"
  by (auto simp: handle_step_def Let_def close_with_def drop_reservation_def on_flow_Running
      split: result.split_asm fault.split_asm prod.split_asm Request.split_asm if_split_asm option.split_asm
      dest!: serve_command_client read_request_ending)

text \<open>C21: no client input makes a connection panic: over its whole life every error reply it builds, a
  refusal that repeats the client's own text included, fits the 1 MiB reply buffer whose overflow
  the code excludes with \<open>expect\<close>.  The text of the operating-system error that ends the client's
  stream, if one does, is assumed to have at most 4096 bytes.\<close>

theorem connection_never_panics:
  assumes "short_faults (client c)"
  shows "\<not> panicked (handle_connection env addr c)"
  using assms
proof (induction env addr c rule: handle_connection.induct)
  case (1 env addr c)
  show ?case
  proof (cases "handle_step env addr c")
    case (Running c')
    from handle_step_ending [OF Running] "1.prems" have "short_faults (client c')" by (simp add: short_faults_def)
    from "1.IH" [OF Running this] Running show ?thesis by (simp add: handle_connection.simps [of env addr c])
  next
    case (Panicked c')
    with handle_step_not_panicked [OF "1.prems", of env addr] show ?thesis by simp
  qed (simp add: handle_connection.simps [of env addr c])
qed

theorem connection_never_panics_witness:
  "\<not> panicked (handle_connection recording_env ''127.0.0.1:6380''
     (example_conn (encode_command [''SHUTDOWN''] @ encode_command [''GET'', ''k''])))"
  by (rule connection_never_panics) (simp add: example_conn_def short_faults_def)

section \<open>One reply for each command\<close>

text \<open>The connection once an acceptable command at the front of the input has been read.\<close>

lemma handle_step_command:
  assumes "client c = \<lparr>pending = encode_command args @ rest, ending = e\<rparr>" and "acceptable args"
    and "sum_list (command_permits args) \<le> available (request_budget c)"
  shows "handle_step env addr c =
    on_flow (drop_reservation (command_permits args))
      (serve_command env addr args
        (c\<lparr>client := \<lparr>pending = rest, ending = e\<rparr>,
           request_budget := (request_budget c)\<lparr>available :=
             available (request_budget c) - sum_list (command_permits args)\<rparr>\<rparr>))"
  using read_request_encoded [OF assms(2,3), where s = "\<lparr>pending = [], ending = e\<rparr>" and rest = rest] assms(1,2)
  by (simp add: handle_step_def Let_def acceptable_def)

lemma handle_step_transparent:
  assumes "client c = \<lparr>pending = encode_command args @ rest, ending = e\<rparr>" and "acceptable args"
    and "sum_list (command_permits args) \<le> available (request_budget c)"
    and "is_allowed (classify_bytes_arguments args)" and "0 < backend_permits c"
    and "established env addr (upstream c) (world c) = (Ok s, w0)"
    and "send env (encode_command args) s w0 = (Ok s1, w1)"
    and "flush env s1 w1 = (Ok \<lparr>pending = wire v @ later, ending = e'\<rparr>, w2)"
    and "fits_budget MAX_RESPONSE_BYTES v" and "deliver env (wire v) w2 = (Ok (), w3)"
  shows "handle_step env addr c =
    Running (c\<lparr>client := \<lparr>pending = rest, ending = e\<rparr>,
               upstream := Some \<lparr>pending = later, ending = e'\<rparr>, world := w3\<rparr>)"
proof -
  have "read_reply MAX_RESPONSE_BYTES \<lparr>pending = wire v @ later, ending = e'\<rparr> = Ok (v, \<lparr>pending = later, ending = e'\<rparr>)"
    using read_reply_wire [OF assms(9), where s = "\<lparr>pending = [], ending = e'\<rparr>" and rest = later] by simp
  then obtain b where read: "read_value 0 \<lparr>pending = wire v @ later, ending = e'\<rparr> default_budget =
      Ok (v, \<lparr>pending = later, ending = e'\<rparr>, b)"
    by (auto simp: read_reply_def default_budget_def)
  have fw: "forward env addr (upstream c) args (world c) = (Ok (v, \<lparr>pending = later, ending = e'\<rparr>), w2)"
    using assms(6,7,8) read by (simp add: forward_def with_timeout_def)
  have "encode_value v [] MAX_RESPONSE_BYTES = Ok (wire v)"
    using encode_is_emit(1) [of MAX_RESPONSE_BYTES v "[]"] assms(9)
    by (simp add: fits_budget_def emit_def)
  then have er: "encode_reply (Ok (v, \<lparr>pending = later, ending = e'\<rparr>)) = (Some (wire v), False)"
    by (simp add: encode_reply_def)
  have release: "release ((request_budget c)\<lparr>available :=
      available (request_budget c) - sum_list (command_permits args)\<rparr>) (command_permits args) = request_budget c"
    using assms(3) by (simp add: release_def)
  show ?thesis
    unfolding handle_step_command [OF assms(1-3)]
    using assms(4,5,6,10) fw er release
    by (simp add: serve_command_def Let_def write_backend_response_def write_response_def upstream_after_def
        drop_reservation_def)
qed

text \<open>C3: the proxy is transparent for allowed commands: if the child answers the forwarded encoding of an
  allowed command with a reply within the limits, the client receives exactly the bytes of that
  reply, the rest of its input and the child's further bytes are untouched, and the connection
  goes on with all permits back.\<close>

theorem allowed_command_transparent:
  assumes "client c = \<lparr>pending = encode_command args @ rest, ending = e\<rparr>" and "acceptable args"
    and "sum_list (command_permits args) \<le> available (request_budget c)"
    and "is_allowed (classify_bytes_arguments args)" and "0 < backend_permits c"
    and "established env addr (upstream c) (world c) = (Ok s, w0)"
    and "send env (encode_command args) s w0 = (Ok s1, w1)"
    and "flush env s1 w1 = (Ok \<lparr>pending = wire v @ later, ending = e'\<rparr>, w2)"
    and "fits_budget MAX_RESPONSE_BYTES v" and "deliver env (wire v) w2 = (Ok (), w3)"
  shows "handle_step env addr c =
    Running (c\<lparr>client := \<lparr>pending = rest, ending = e\<rparr>,
               upstream := Some \<lparr>pending = later, ending = e'\<rparr>, world := w3\<rparr>)"
  using assms by (rule handle_step_transparent)

lemma get_policy: "policy [''GET'', ''GETDEL''] [''GET'', ''key''] (exact 1) \<in> set POLICIES"
  unfolding POLICIES_eval set_simps by (simp only: insert_iff simp_thms)

lemma get_allowed: "classify_bytes_arguments [''GET'', ''k''] = Allow"
proof -
  have "accepts (policy [''GET'', ''GETDEL''] [''GET'', ''key''] (exact 1)) [''GET'', ''k'']"
    by (simp add: accepts_def normalized_name_and_arguments_def normalize_eval)
  from accepts_imp_allowed [OF get_policy this] show ?thesis
    by (simp add: classify_arguments_def classify_bytes_arguments_def from_utf8_lossy_valid)
qed

lemma ok_fits: "fits_budget MAX_RESPONSE_BYTES (Simple ''OK'')"
  by (simp add: fits_budget_def all_values.simps [of admissible] leaf_shape text_line_def limits)

theorem allowed_command_transparent_witness:
  "\<exists>c. handle_step recording_env ''127.0.0.1:6380''
      ((example_conn (encode_command [''GET'', ''k'']))\<lparr>upstream := Some \<lparr>pending = [], ending = Silent\<rparr>\<rparr>) = Running c \<and>
     world c = ([encode_command [''GET'', ''k'']], [wire (Simple ''OK'')])"
proof -
  let ?c = "(example_conn (encode_command [''GET'', ''k'']))\<lparr>upstream := Some \<lparr>pending = [], ending = Silent\<rparr>\<rparr>"
  have "handle_step recording_env ''127.0.0.1:6380'' ?c =
      Running (?c\<lparr>client := \<lparr>pending = [], ending = Closed ''early eof''\<rparr>,
        upstream := Some \<lparr>pending = [], ending = Silent\<rparr>,
        world := ([encode_command [''GET'', ''k'']], [wire (Simple ''OK'')])\<rparr>)"
    by (rule allowed_command_transparent [where args = "[''GET'', ''k'']" and v = "Simple ''OK''" and
          ?w0.0 = "([], [])" and s = "\<lparr>pending = [], ending = Silent\<rparr>" and ?s1.0 = "\<lparr>pending = wire (Simple ''OK''), ending = Silent\<rparr>" and
          ?w1.0 = "([encode_command [''GET'', ''k'']], [])" and ?w2.0 = "([encode_command [''GET'', ''k'']], [])"])
      (simp_all add: example_conn_def recording_env_def established_def get_allowed ok_fits [unfolded MAX_RESPONSE_BYTES_def, simplified] acceptable_def sum_command_permits
        new_request_budget_def limits)
  then show ?thesis by simp
qed

lemma refused_step:
  assumes "client c = \<lparr>pending = encode_command args @ rest, ending = e\<rparr>" and "acceptable args"
    and "sum_list (command_permits args) \<le> available (request_budget c)"
    and "\<not> is_allowed (classify_bytes_arguments args)"
    and "deliver env (wire (Error (message (classify_bytes_arguments args)))) (world c) = (Ok (), w)"
  shows "handle_step env addr c = Running (c\<lparr>client := \<lparr>pending = rest, ending = e\<rparr>, world := w\<rparr>)"
proof -
  have "encode_error (message (classify_bytes_arguments args)) =
      Some (wire (Error (message (classify_bytes_arguments args))))"
    using assms(2) by (intro refusal_fits) (simp add: acceptable_def)
  then show ?thesis
    unfolding handle_step_command [OF assms(1-3)]
    using assms(3-5) by (simp add: serve_command_def Let_def refuse_def write_response_def drop_reservation_def release_def)
qed

lemma shutdown_refused:
  "classify_bytes_arguments [''SHUTDOWN''] =
     Reject ''SHUTDOWN'' ''the command is not on the explicit safe-command allowlist''"
proof -
  have "''SHUTDOWN'' \<notin> set allowlist" by code_simp
  then have "find (\<lambda>p. ''SHUTDOWN'' \<in> set (names p)) POLICIES = None"
    by (simp only: find_policy_None_iff not_False_eq_True)
  then show ?thesis
    by (simp add: classify_bytes_arguments_def classify_normalized_def normalized_name_and_arguments_def normalize_eval)
qed

text \<open>C36: a refused command never reaches the child: when an acceptable command that the request budget has
  room for is refused and the refusal can be delivered, the connection goes on exactly as it would
  have gone had the client not sent the command, the delivered refusal apart.\<close>

theorem refused_command_answered:
  assumes "client c = \<lparr>pending = encode_command args @ rest, ending = e\<rparr>" and "acceptable args"
    and "sum_list (command_permits args) \<le> available (request_budget c)"
    and "\<not> is_allowed (classify_bytes_arguments args)"
    and "deliver env (wire (Error (message (classify_bytes_arguments args)))) (world c) = (Ok (), w)"
  shows "handle_connection env addr c = handle_connection env addr (c\<lparr>client := \<lparr>pending = rest, ending = e\<rparr>, world := w\<rparr>)"
  using refused_step [OF assms, of addr] by (simp add: handle_connection.simps [of env addr c])

theorem refused_command_answered_witness:
  "handle_connection recording_env ''127.0.0.1:6380'' (example_conn (encode_command [''SHUTDOWN''] @ encode_command [''GET'', ''k''])) =
     handle_connection recording_env ''127.0.0.1:6380''
       ((example_conn (encode_command [''GET'', ''k'']))\<lparr>world := ([], [wire (Error (message
         (Reject ''SHUTDOWN'' ''the command is not on the explicit safe-command allowlist'')))])\<rparr>)"
proof -
  let ?c = "example_conn (encode_command [''SHUTDOWN''] @ encode_command [''GET'', ''k''])"
  let ?reply = "wire (Error (message (classify_bytes_arguments [''SHUTDOWN''])))"
  have "handle_connection recording_env ''127.0.0.1:6380'' ?c = handle_connection recording_env ''127.0.0.1:6380''
      (?c\<lparr>client := \<lparr>pending = encode_command [''GET'', ''k''], ending = Closed ''early eof''\<rparr>, world := ([], [?reply])\<rparr>)"
    by (rule refused_command_answered [where args = "[''SHUTDOWN'']"])
      (simp_all add: example_conn_def recording_env_def shutdown_refused acceptable_def sum_command_permits
        new_request_budget_def limits del: message.simps)
  then show ?thesis by (simp add: shutdown_refused example_conn_def del: message.simps)
qed

lemma handle_step_failed:
  assumes "client c = \<lparr>pending = encode_command args @ rest, ending = e\<rparr>" and "acceptable args"
    and "sum_list (command_permits args) \<le> available (request_budget c)"
    and "is_allowed (classify_bytes_arguments args)" and "0 < backend_permits c"
    and "forward env addr (upstream c) args (world c) = (Err f, w)"
    and "deliver env (wire (Error UPSTREAM_STATE_LOSS_ERROR)) w = (Ok (), w')"
  shows "\<exists>c'. handle_step env addr c = Finished (Ok ()) c' \<and> world c' = w'"
proof -
  have er: "encode_reply (Err f) = (Some (wire (Error UPSTREAM_STATE_LOSS_ERROR)), True)"
    by (simp add: encode_reply_def static_errors_fit)
  show ?thesis
    unfolding handle_step_command [OF assms(1-3)]
    using assms(4-7) er
    by (simp add: serve_command_def Let_def write_backend_response_def write_response_def upstream_after_def
        drop_reservation_def)
qed

text \<open>C22: when the child cannot be reached, fails, times out or answers with something the decoder rejects, the
  client gets the one static error and its connection ends; it is never served from a fresh
  upstream connection that has lost its state.\<close>

theorem upstream_failure_closes:
  assumes "client c = \<lparr>pending = encode_command args @ rest, ending = e\<rparr>" and "acceptable args"
    and "sum_list (command_permits args) \<le> available (request_budget c)"
    and "is_allowed (classify_bytes_arguments args)" and "0 < backend_permits c"
    and "forward env addr (upstream c) args (world c) = (Err f, w)"
    and "deliver env (wire (Error UPSTREAM_STATE_LOSS_ERROR)) w = (Ok (), w')"
  shows "\<exists>c'. handle_connection env addr c = Finished (Ok ()) c' \<and> world c' = w'"
proof -
  from handle_step_failed [OF assms] obtain c' where "handle_step env addr c = Finished (Ok ()) c'" and "world c' = w'" by blast
  then show ?thesis by (simp add: handle_connection.simps [of env addr c])
qed

theorem upstream_failure_closes_witness:
  "\<exists>c'. handle_connection (recording_env\<lparr>connect := \<lambda>addr w. (Err (Fail ''refused''), w)\<rparr>) ''127.0.0.1:6380''
       (example_conn (encode_command [''GET'', ''k''])) = Finished (Ok ()) c' \<and>
     world c' = ([], [wire (Error UPSTREAM_STATE_LOSS_ERROR)])"
  by (rule upstream_failure_closes [where args = "[''GET'', ''k'']" and w = "([], [])"])
    (simp_all add: example_conn_def recording_env_def established_def get_allowed acceptable_def sum_command_permits
      new_request_budget_def forward_def established_def with_timeout_def limits)

section \<open>A refusal repeats the client's text\<close>

lemma split_name_refused:
  "classify_bytes_arguments [''X'' @ crlf @ ''+OK''] =
     Reject (''X'' @ crlf @ ''+OK'') ''the command is not on the explicit safe-command allowlist''"
proof -
  let ?name = "''X'' @ crlf @ ''+OK''"
  have norm: "normalize ?name = ?name" by (simp add: normalize_eval)
  have "?name \<notin> set allowlist" by code_simp
  then have "find (\<lambda>p. ?name \<in> set (names p)) POLICIES = None"
    by (simp only: find_policy_None_iff not_False_eq_True)
  with norm show ?thesis
    by (simp add: classify_bytes_arguments_def classify_normalized_def normalized_name_and_arguments_def)
qed

text \<open>C38: a refusal puts the client's own command name on an error line without looking for line breaks in it:
  on a connection whose only input is one command with a line break in its name, nothing is sent to
  the child, and the client is delivered an error line followed by a second, well-formed reply of
  its own making.\<close>

theorem refusal_reply_splits:
  "\<exists>rest c. handle_connection recording_env ''127.0.0.1:6380'' (example_conn (encode_command [''X'' @ crlf @ ''+OK''])) =
       Finished (Ok ()) c \<and>
     world c = ([], [wire (Error ''ERR X'') @ wire (Simple (''OK'' @ rest))])"
proof -
  let ?args = "[''X'' @ crlf @ ''+OK'']"
  let ?text = "'' is not permitted by the Ferrite public playground policy: the command is not on the explicit safe-command allowlist''"
  let ?c = "(example_conn (encode_command ?args))\<lparr>client := \<lparr>pending = [], ending = Closed ''early eof''\<rparr>,
      world := ([], [wire (Error (message (classify_bytes_arguments ?args)))])\<rparr>"
  have "handle_step recording_env ''127.0.0.1:6380'' (example_conn (encode_command ?args)) = Running ?c"
    by (rule refused_step [where args = ?args])
      (simp_all add: example_conn_def recording_env_def split_name_refused [simplified] acceptable_def sum_command_permits
        new_request_budget_def limits del: message.simps)
  moreover have "handle_step recording_env ''127.0.0.1:6380'' ?c = Finished (Ok ()) ?c"
    by (simp add: handle_step_def read_request_def read_line_def read_until_limited_def read_until_def
        drop_reservation_def release_def)
  ultimately have "handle_connection recording_env ''127.0.0.1:6380'' (example_conn (encode_command ?args)) = Finished (Ok ()) ?c"
    by (simp add: handle_connection.simps)
  moreover have "wire (Error (message (classify_bytes_arguments ?args))) = wire (Error ''ERR X'') @ wire (Simple (''OK'' @ ?text))"
    by (simp add: split_name_refused [simplified] line_def)
  ultimately show ?thesis by (intro exI [of _ ?text] exI [of _ ?c]) simp
qed

end
