(* ===== verification/End_To_End.thy ===== *)
theory End_To_End
  imports Mock_Ferrite_Props Proxy_Props
begin

text \<open>
  The public proxy in front of the child of the test suite: a client that goes through the proxy sees
  what it would see on a connection of its own, database selection and protocol included.
\<close>

section \<open>The specification: commands against the child itself\<close>

definition answers :: "bytes list \<Rightarrow> RespValue \<Rightarrow> session \<Rightarrow> session \<Rightarrow> bool" where
  "answers args v s s' \<longleftrightarrow>
     serve_arguments (map from_utf8_lossy args) s = (Some (wire v), s') \<and> fits_budget MAX_RESPONSE_BYTES v"

inductive direct_run :: "bytes list list \<Rightarrow> RespValue list \<Rightarrow> session \<Rightarrow> session \<Rightarrow> bool" where
  finished: "direct_run [] [] s s"
| answered: "answers args v s s' \<Longrightarrow> direct_run cmds vs s' s'' \<Longrightarrow> direct_run (args # cmds) (v # vs) s s''"

inductive_cases direct_run_ConsE: "direct_run (args # cmds) vs s s''"
inductive_simps direct_run_Nil: "direct_run [] vs s s'"

section \<open>The proxy simulates it\<close>

definition idle_stream :: stream where
  "idle_stream = \<lparr>pending = [], ending = Silent\<rparr>"

text \<open>The session the next command of a connection meets: a fresh one before the child has been contacted.\<close>

definition current_session :: "mock_world conn \<Rightarrow> session" where
  "current_session c =
     (case upstream c of None \<Rightarrow> fresh_session (mock_session (world c)) | Some _ \<Rightarrow> mock_session (world c))"

definition ready :: "mock_world conn \<Rightarrow> bool" where
  "ready c \<longleftrightarrow>
     (upstream c = None \<or> upstream c = Some idle_stream \<and> unread (world c) = []) \<and>
     available (request_budget c) = MAX_IN_FLIGHT_REQUEST_BYTES \<and> 0 < backend_permits c"

lemma established_ready:
  assumes "ready c"
  shows "\<exists>w. established mock_env addr (upstream c) (world c) = (Ok idle_stream, w) \<and>
     mock_session w = current_session c \<and> unread w = [] \<and> delivered w = delivered (world c)"
  using assms
  by (auto simp: ready_def established_def mock_env_def idle_stream_def current_session_def fresh_session_def with_timeout_def)

lemma mock_answers:
  assumes "acceptable args" and "answers args v (mock_session w) s'" and "unread w = []"
  shows "send mock_env (encode_command args) idle_stream w =
    (Ok \<lparr>pending = wire v @ [], ending = Silent\<rparr>, w\<lparr>mock_session := s', unread := []\<rparr>)"
proof -
  have "serve_connection \<lparr>pending = encode_command args, ending = Silent\<rparr> (mock_session w) = (wire v, s', Some [])"
    using assms(1,2) by (intro serve_one) (simp_all add: answers_def)
  with assms(3) show ?thesis by (simp add: mock_env_def idle_stream_def)
qed

text \<open>The specification is what the client of the tests sees of the child.\<close>

lemma client_command_answers:
  assumes "acceptable args" and "answers args v (mock_session w) s'" and "unread w = []"
  shows "client_command mock_env args idle_stream w = (Some (v, idle_stream), w\<lparr>mock_session := s', unread := []\<rparr>)"
proof -
  obtain b where "read_value 0 (idle_stream\<lparr>pending := wire v @ []\<rparr>) default_budget =
      Ok (v, idle_stream\<lparr>pending := []\<rparr>, b)"
    using read_reply_wire [of MAX_RESPONSE_BYTES v, where s = idle_stream and rest = "[]"] assms(2)
    by (auto simp: read_reply_def default_budget_def answers_def)
  then show ?thesis by (simp add: client_command_def try_command_def mock_answers [OF assms, unfolded idle_stream_def] idle_stream_def)
qed

lemma step_simulates:
  assumes "ready c" and "client c = \<lparr>pending = encode_command args @ rest, ending = e\<rparr>" and "acceptable args"
    and "is_allowed (classify_bytes_arguments args)" and "answers args v (current_session c) s'"
  shows "\<exists>c'. handle_step mock_env addr c = Running c' \<and> ready c' \<and> current_session c' = s' \<and>
     client c' = \<lparr>pending = rest, ending = e\<rparr> \<and> delivered (world c') = delivered (world c) @ wire v"
proof -
  from established_ready [OF assms(1)] obtain w where est:
    "established mock_env addr (upstream c) (world c) = (Ok idle_stream, w)"
    "mock_session w = current_session c" "unread w = []" "delivered w = delivered (world c)" by blast
  from mock_answers [OF assms(3)] assms(5) est(2,3) have sent: "send mock_env (encode_command args) idle_stream w =
      (Ok \<lparr>pending = wire v @ [], ending = Silent\<rparr>, w\<lparr>mock_session := s', unread := []\<rparr>)" by simp
  let ?w = "w\<lparr>mock_session := s', unread := []\<rparr>"
  let ?c = "c\<lparr>client := \<lparr>pending = rest, ending = e\<rparr>, upstream := Some \<lparr>pending = [], ending = Silent\<rparr>,
              world := ?w\<lparr>delivered := delivered w @ wire v\<rparr>\<rparr>"
  have got: "deliver mock_env (wire v) ?w = (Ok (), ?w\<lparr>delivered := delivered w @ wire v\<rparr>)"
    by (cases w) (simp add: mock_env_def)
  have "handle_step mock_env addr c = Running ?c"
  proof (rule handle_step_transparent [OF assms(2,3) _ assms(4) _ est(1) sent _ _ got])
    show "sum_list (command_permits args) \<le> available (request_budget c)" and "0 < backend_permits c"
      using assms(1,3) acceptable_affordable by (simp_all add: ready_def)
    show "fits_budget MAX_RESPONSE_BYTES v" using assms(5) by (simp add: answers_def)
  qed (simp_all add: mock_env_def)
  moreover have "ready ?c" using assms(1) by (simp add: ready_def idle_stream_def)
  ultimately show ?thesis using est(4) by (intro exI [of _ ?c]) (simp add: current_session_def)
qed

text \<open>C2: the proxy is a faithful stand-in for the child, here the one of the test suite: a pipeline of commands
  of acceptable size that the policy allows, each of which the child, on a connection of its own,
  would answer with a reply within the 1 MiB reply budget, gets exactly these answers through the
  proxy, and leaves the child's session, selected database and protocol included, the same.  The
  whole request budget and a backend permit are free when the connection begins, the transport
  delivers, and the client closes after its last command.\<close>

theorem proxy_simulates_child:
  assumes "direct_run cmds vs (current_session c) s'" and "ready c"
    and "client c = \<lparr>pending = concat (map encode_command cmds), ending = Closed e\<rparr>"
    and "list_all acceptable cmds" and "list_all (\<lambda>args. is_allowed (classify_bytes_arguments args)) cmds"
  shows "\<exists>c'. handle_connection mock_env addr c = Finished (Ok ()) c' \<and> current_session c' = s' \<and>
     delivered (world c') = delivered (world c) @ concat (map wire vs)"
  using assms
proof (induction cmds arbitrary: vs c)
  case Nil
  have "read_request \<lparr>pending = [], ending = Closed e\<rparr> b = Ok (Eof, [], \<lparr>pending = [], ending = Closed e\<rparr>, b)" for b
    by (simp add: read_request_def read_line_def read_until_limited_def read_until_def)
  then have "handle_step mock_env addr c = Finished (Ok ()) c"
    using Nil.prems(3) by (cases c) (simp add: handle_step_def drop_reservation_def release_def)
  with Nil.prems(1) show ?case
    by (auto simp: handle_connection.simps [of mock_env addr c] direct_run_Nil)
next
  case (Cons args cmds)
  from Cons.prems(1) obtain v vs' s1 where vs: "vs = v # vs'" and step: "answers args v (current_session c) s1"
    and rest: "direct_run cmds vs' s1 s'" by (rule direct_run_ConsE)
  obtain c1 where c1: "handle_step mock_env addr c = Running c1" "ready c1" "current_session c1 = s1"
    "client c1 = \<lparr>pending = concat (map encode_command cmds), ending = Closed e\<rparr>"
    "delivered (world c1) = delivered (world c) @ wire v"
    using step_simulates [OF Cons.prems(2) _ _ _ step, of "concat (map encode_command cmds)" "Closed e" addr] Cons.prems(3-5)
    by auto
  from Cons.IH [of vs' c1] c1 rest Cons.prems(4,5) vs show ?case
    by (simp add: handle_connection.simps [of mock_env addr c])
qed

definition new_session :: session where
  "new_session = \<lparr>mock_state = empty_mock, selected = 0, negotiated = 2\<rparr>"

definition mock_conn :: "bytes \<Rightarrow> mock_world conn" where
  "mock_conn input =
     \<lparr>client = \<lparr>pending = input, ending = Closed ''early eof''\<rparr>, upstream = None,
      request_budget = new_request_budget MAX_IN_FLIGHT_REQUEST_BYTES, backend_permits = 32,
      world = \<lparr>mock_session = new_session, unread = [], delivered = []\<rparr>\<rparr>"

lemma select_session: "update_session [''SELECT'', ''5''] s = s\<lparr>selected := 5\<rparr>"
proof -
  have "parse_or parse_u8_str 0 ''5'' = 5" by (simp add: parse_or_def parse_u8_str_def number_eval)
  then show ?thesis
    by (simp add: update_session_def get_def to_ascii_uppercase_def ascii_upper_other)
qed

lemma select_answers:
  "answers [''SELECT'', ''5''] (Simple ''OK'') s (log_command [''SELECT'', ''5''] (s\<lparr>selected := 5\<rparr>))"
  by (simp add: answers_def serve_arguments_def select_session dispatch_def dispatch_read_def Let_def
      from_utf8_lossy_valid encode_unlimited ok_fits to_ascii_uppercase_def ascii_upper_other log_command_def)

lemma ping_answers: "answers [''PING''] (Simple ''PONG'') s (log_command [''PING''] s)"
  by (simp add: answers_def serve_arguments_def update_session_def dispatch_def dispatch_read_def Let_def
      from_utf8_lossy_valid encode_unlimited pong_fits to_ascii_uppercase_def ascii_upper_other log_command_def)

lemma select_allowed: "classify_bytes_arguments [''SELECT'', ''5''] = Allow"
proof -
  have p: "policy [''SELECT''] [''SELECT'', ''0''] select \<in> set POLICIES"
    unfolding POLICIES_eval set_simps by (simp only: insert_iff simp_thms)
  show ?thesis
    by (rule allowed_by_policy [OF p]) (simp_all add: normalize_eval validator_defs number_eval from_utf8_lossy_valid)
qed

theorem proxy_simulates_child_witness:
  "\<exists>c'. handle_connection mock_env ''a'' (mock_conn (encode_command [''SELECT'', ''5''] @ encode_command [''PING''])) =
       Finished (Ok ()) c' \<and>
     selected (current_session c') = 5 \<and> delivered (world c') = wire (Simple ''OK'') @ wire (Simple ''PONG'')"
proof -
  let ?c = "mock_conn (concat (map encode_command [[''SELECT'', ''5''], [''PING'']]))"
  let ?s = "log_command [''SELECT'', ''5''] (fresh_session new_session\<lparr>selected := 5\<rparr>)"
  have fresh: "current_session ?c = fresh_session new_session" by (simp add: current_session_def mock_conn_def)
  have run: "direct_run [[''SELECT'', ''5''], [''PING'']] [Simple ''OK'', Simple ''PONG''] (current_session ?c) (log_command [''PING''] ?s)"
    unfolding fresh by (rule answered [OF select_answers answered [OF ping_answers finished]])
  have c: "ready ?c" "client ?c = \<lparr>pending = concat (map encode_command [[''SELECT'', ''5''], [''PING'']]), ending = Closed ''early eof''\<rparr>"
    by (simp_all add: mock_conn_def ready_def new_request_budget_def)
  have ok: "list_all acceptable [[''SELECT'', ''5''], [''PING'']]"
    "list_all (\<lambda>args. is_allowed (classify_bytes_arguments args)) [[''SELECT'', ''5''], [''PING'']]"
    by (simp_all add: acceptable_def select_allowed ping_allowed limits)
  from proxy_simulates_child [OF run c ok, of "''a''"] obtain c' where
    "handle_connection mock_env ''a'' ?c = Finished (Ok ()) c'" "current_session c' = log_command [''PING''] ?s"
    "delivered (world c') = delivered (world ?c) @ concat (map wire [Simple ''OK'', Simple ''PONG''])" by blast
  then show ?thesis by (simp add: log_command_def mock_conn_def Let_def)
qed

end
