(* ===== verification/Proxy_System.thy ===== *)
theory Proxy_System
  imports Proxy_Request_Props
begin

text \<open>
  The shared resources of the launcher under concurrency: the request byte budget, the connection
  permits of the two listeners and the backend permits that the public connections and the
  HTTP handlers share (\<open>proxy.rs\<close>, \<open>http.rs\<close>, \<open>main.rs\<close>).  Tasks interleave at their
  semaphore operations, one step each; a task that ends, fails, panics or is cut off drops what it
  holds.
\<close>

section \<open>State and steps\<close>

definition MAX_BACKEND_OPERATIONS :: nat where
  [limits]: "MAX_BACKEND_OPERATIONS = 32"

definition MAX_HTTP_CONNECTIONS :: nat where
  [limits]: "MAX_HTTP_CONNECTIONS = 32"

text \<open>What the task of one public connection holds.\<close>

record client_task =
  reserved :: "nat list"
  executing :: bool

record system =
  request_bytes :: RequestByteBudget
  backend_free :: nat
  connections_free :: nat
  clients :: "client_task list"
  http_free :: nat
  http_connections :: nat
  http_operations :: nat

definition idle_task :: client_task where
  "idle_task = \<lparr>reserved = [], executing = False\<rparr>"

definition initial_system :: system where
  "initial_system =
     \<lparr>request_bytes = new_request_budget MAX_IN_FLIGHT_REQUEST_BYTES,
      backend_free = MAX_BACKEND_OPERATIONS, connections_free = MAX_CONNECTIONS, clients = [],
      http_free = MAX_HTTP_CONNECTIONS, http_connections = 0, http_operations = 0\<rparr>"

definition remove_at :: "nat \<Rightarrow> 'a list \<Rightarrow> 'a list" where
  "remove_at i xs = take i xs @ drop (Suc i) xs"

definition backend_held :: "client_task \<Rightarrow> nat" where
  "backend_held t = (if executing t then 1 else 0)"

inductive system_step :: "system \<Rightarrow> system \<Rightarrow> bool" where
  accept: "0 < connections_free s \<Longrightarrow>
    system_step s (s\<lparr>connections_free := connections_free s - 1, clients := clients s @ [idle_task]\<rparr>)"
| turn_away: "connections_free s = 0 \<Longrightarrow> system_step s s"
| reserve_bytes: "i < length (clients s) \<Longrightarrow> \<not> executing (clients s ! i) \<Longrightarrow>
    reserve (request_bytes s) n = Ok (Some p, b) \<Longrightarrow>
    system_step s (s\<lparr>request_bytes := b,
      clients := (clients s)[i := (clients s ! i)\<lparr>reserved := reserved (clients s ! i) @ [p]\<rparr>]\<rparr>)"
| take_backend: "i < length (clients s) \<Longrightarrow> \<not> executing (clients s ! i) \<Longrightarrow> 0 < backend_free s \<Longrightarrow>
    system_step s (s\<lparr>backend_free := backend_free s - 1,
      clients := (clients s)[i := (clients s ! i)\<lparr>executing := True\<rparr>]\<rparr>)"
| return_backend: "i < length (clients s) \<Longrightarrow> executing (clients s ! i) \<Longrightarrow>
    system_step s (s\<lparr>backend_free := backend_free s + 1,
      clients := (clients s)[i := (clients s ! i)\<lparr>executing := False\<rparr>]\<rparr>)"
| end_request: "i < length (clients s) \<Longrightarrow> \<not> executing (clients s ! i) \<Longrightarrow>
    system_step s (s\<lparr>request_bytes := release (request_bytes s) (reserved (clients s ! i)),
      clients := (clients s)[i := idle_task]\<rparr>)"
| leave: "i < length (clients s) \<Longrightarrow>
    system_step s (s\<lparr>request_bytes := release (request_bytes s) (reserved (clients s ! i)),
      backend_free := backend_free s + backend_held (clients s ! i),
      connections_free := connections_free s + 1, clients := remove_at i (clients s)\<rparr>)"
| http_accept: "0 < http_free s \<Longrightarrow>
    system_step s (s\<lparr>http_free := http_free s - 1, http_connections := http_connections s + 1\<rparr>)"
| http_close: "0 < http_connections s \<Longrightarrow>
    system_step s (s\<lparr>http_free := http_free s + 1, http_connections := http_connections s - 1\<rparr>)"
| http_take_backend: "0 < backend_free s \<Longrightarrow>
    system_step s (s\<lparr>backend_free := backend_free s - 1, http_operations := http_operations s + 1\<rparr>)"
| http_return_backend: "0 < http_operations s \<Longrightarrow>
    system_step s (s\<lparr>backend_free := backend_free s + 1, http_operations := http_operations s - 1\<rparr>)"

inductive reachable :: "system \<Rightarrow> bool" where
  start: "reachable initial_system"
| step: "reachable s \<Longrightarrow> system_step s s' \<Longrightarrow> reachable s'"

inductive_cases system_stepE: "system_step s s'"

section \<open>Conservation of permits\<close>

definition bytes_held :: "system \<Rightarrow> nat" where
  "bytes_held s = sum_list (map (\<lambda>t. sum_list (reserved t)) (clients s))"

definition operations :: "system \<Rightarrow> nat" where
  "operations s = sum_list (map backend_held (clients s)) + http_operations s"

definition conserved :: "system \<Rightarrow> bool" where
  "conserved s \<longleftrightarrow>
     available (request_bytes s) + bytes_held s = MAX_IN_FLIGHT_REQUEST_BYTES \<and>
     backend_free s + operations s = MAX_BACKEND_OPERATIONS \<and>
     connections_free s + length (clients s) = MAX_CONNECTIONS \<and>
     http_free s + http_connections s = MAX_HTTP_CONNECTIONS"

lemma sum_update:
  "i < length xs \<Longrightarrow> sum_list (map f (xs[i := x])) + f (xs ! i) = sum_list (map f xs) + f x" for f :: "'a \<Rightarrow> nat"
proof (induction xs arbitrary: i)
  case (Cons y ys)
  then show ?case by (cases i) auto
qed simp

lemma sum_remove: "i < length xs \<Longrightarrow> sum_list (map f (remove_at i xs)) + f (xs ! i) = sum_list (map f xs)"
  for f :: "'a \<Rightarrow> nat"
proof -
  assume i: "i < length xs"
  have "sum_list (map f xs) = sum_list (map f (take i xs @ xs ! i # drop (Suc i) xs))"
    using i by (simp add: id_take_nth_drop [symmetric])
  then show ?thesis by (simp add: remove_at_def)
qed

lemma length_remove_at: "i < length xs \<Longrightarrow> Suc (length (remove_at i xs)) = length xs"
  by (simp add: remove_at_def)

lemma reserve_Some:
  "reserve b n = Ok (Some p, b') \<Longrightarrow> available b' + p = available b"
  by (auto simp: reserve_def Let_def split: if_split_asm)

lemma idle_task_simps [simp]: "reserved idle_task = []" "executing idle_task = False" "backend_held idle_task = 0"
  by (simp_all add: idle_task_def backend_held_def)

lemma conserved_step:
  assumes "system_step s s'" and "conserved s"
  shows "conserved s'"
  using assms
proof (cases rule: system_step.cases)
  case (reserve_bytes i n p b)
  with reserve_Some [OF reserve_bytes(4)]
    sum_update [OF reserve_bytes(2), of "\<lambda>t. sum_list (reserved t)" "(clients s ! i)\<lparr>reserved := reserved (clients s ! i) @ [p]\<rparr>"]
    sum_update [OF reserve_bytes(2), of backend_held "(clients s ! i)\<lparr>reserved := reserved (clients s ! i) @ [p]\<rparr>"]
    assms(2) show ?thesis
    by (simp add: conserved_def bytes_held_def operations_def backend_held_def)
next
  case (take_backend i)
  with sum_update [OF take_backend(2), of "\<lambda>t. sum_list (reserved t)" "(clients s ! i)\<lparr>executing := True\<rparr>"]
    sum_update [OF take_backend(2), of backend_held "(clients s ! i)\<lparr>executing := True\<rparr>"] assms(2) show ?thesis
    by (simp add: conserved_def bytes_held_def operations_def backend_held_def)
next
  case (return_backend i)
  with sum_update [OF return_backend(2), of "\<lambda>t. sum_list (reserved t)" "(clients s ! i)\<lparr>executing := False\<rparr>"]
    sum_update [OF return_backend(2), of backend_held "(clients s ! i)\<lparr>executing := False\<rparr>"] assms(2) show ?thesis
    by (simp add: conserved_def bytes_held_def operations_def backend_held_def)
next
  case (end_request i)
  with sum_update [OF end_request(2), of "\<lambda>t. sum_list (reserved t)" idle_task]
    sum_update [OF end_request(2), of backend_held idle_task] assms(2) show ?thesis
    by (simp add: conserved_def bytes_held_def operations_def release_def backend_held_def [of "clients s ! i"])
next
  case (leave i)
  with sum_remove [OF leave(2), of "\<lambda>t. sum_list (reserved t)"] sum_remove [OF leave(2), of backend_held]
    length_remove_at [OF leave(2)] assms(2) show ?thesis
    by (simp add: conserved_def bytes_held_def operations_def release_def)
qed (auto simp: conserved_def bytes_held_def operations_def)

lemma reachable_conserved: "reachable s \<Longrightarrow> conserved s"
proof (induction rule: reachable.induct)
  case start
  show ?case by (simp add: conserved_def initial_system_def bytes_held_def operations_def new_request_budget_def)
next
  case (step s s')
  then show ?case by (blast intro: conserved_step)
qed

text \<open>C7: in every state that any interleaving of connections and HTTP requests can reach, the memory
  declared by all unfinished commands together is at most 4 MiB, at most 32 operations run
  against the child, at most 64 public and 32 HTTP connections are open.\<close>

theorem shared_limits_hold:
  assumes "reachable s"
  shows "bytes_held s \<le> 4 * 1024 * 1024 \<and> operations s \<le> 32 \<and> length (clients s) \<le> 64 \<and> http_connections s \<le> 32"
  using reachable_conserved [OF assms] by (simp add: conserved_def limits)

text \<open>A reachable state: one client has declared an argument of 100 bytes.\<close>

definition busy_system :: system where
  "busy_system = initial_system\<lparr>request_bytes := \<lparr>available = MAX_IN_FLIGHT_REQUEST_BYTES - 100\<rparr>,
     connections_free := 63, clients := [\<lparr>reserved = [100], executing = False\<rparr>]\<rparr>"

lemma reachable_example:
  "reachable busy_system"
proof -
  let ?s1 = "initial_system\<lparr>connections_free := 63, clients := [idle_task]\<rparr>"
  have "system_step initial_system
      (initial_system\<lparr>connections_free := connections_free initial_system - 1, clients := clients initial_system @ [idle_task]\<rparr>)"
    by (rule system_step.accept) (simp add: initial_system_def limits)
  then have "system_step initial_system ?s1" by (simp add: initial_system_def limits)
  with reachable.start have one: "reachable ?s1" by (rule reachable.step)
  have "system_step ?s1 (?s1\<lparr>request_bytes := \<lparr>available = MAX_IN_FLIGHT_REQUEST_BYTES - 100\<rparr>,
      clients := (clients ?s1)[0 := (clients ?s1 ! 0)\<lparr>reserved := reserved (clients ?s1 ! 0) @ [100]\<rparr>]\<rparr>)"
    by (rule system_step.reserve_bytes [where n = 100])
      (simp_all add: initial_system_def reserve_def new_request_budget_def limits)
  with one have "reachable (?s1\<lparr>request_bytes := \<lparr>available = MAX_IN_FLIGHT_REQUEST_BYTES - 100\<rparr>,
      clients := (clients ?s1)[0 := (clients ?s1 ! 0)\<lparr>reserved := reserved (clients ?s1 ! 0) @ [100]\<rparr>]\<rparr>)"
    by (rule reachable.step)
  then show ?thesis by (simp add: idle_task_def busy_system_def initial_system_def)
qed

theorem shared_limits_hold_witness:
  "length (clients busy_system) \<le> 64"
  using shared_limits_hold [OF reachable_example] by simp

section \<open>Nothing leaks\<close>

lemma leave_all: "\<exists>s'. system_step\<^sup>*\<^sup>* s s' \<and> clients s' = []"
proof (induction "length (clients s)" arbitrary: s)
  case 0
  then show ?case by auto
next
  case (Suc n)
  let ?s = "s\<lparr>request_bytes := release (request_bytes s) (reserved (clients s ! 0)),
      backend_free := backend_free s + backend_held (clients s ! 0),
      connections_free := connections_free s + 1, clients := remove_at 0 (clients s)\<rparr>"
  have "0 < length (clients s)" using Suc.hyps(2) by linarith
  then have first: "system_step s ?s" by (rule system_step.leave)
  have "n = length (clients ?s)" using Suc.hyps(2) by (simp add: remove_at_def)
  from Suc.hyps(1) [OF this] obtain s' where "system_step\<^sup>*\<^sup>* ?s s'" "clients s' = []" by auto
  with first show ?case by (blast intro: converse_rtranclp_into_rtranclp)
qed

lemma close_http: "\<exists>s'. system_step\<^sup>*\<^sup>* s s' \<and> clients s' = clients s \<and> http_operations s' = http_operations s \<and>
    http_connections s' = 0"
proof (induction "http_connections s" arbitrary: s)
  case 0
  then show ?case by auto
next
  case (Suc n)
  let ?s = "s\<lparr>http_free := http_free s + 1, http_connections := http_connections s - 1\<rparr>"
  have first: "system_step s ?s" using Suc.hyps(2) by (intro system_step.http_close) linarith
  have "n = http_connections ?s" using Suc.hyps(2) by simp
  from Suc.hyps(1) [OF this] obtain s' where "system_step\<^sup>*\<^sup>* ?s s'" "clients s' = clients s"
    "http_operations s' = http_operations s" "http_connections s' = 0" by auto
  with first show ?case by (blast intro: converse_rtranclp_into_rtranclp)
qed

lemma finish_http: "\<exists>s'. system_step\<^sup>*\<^sup>* s s' \<and> clients s' = clients s \<and> http_operations s' = 0"
proof (induction "http_operations s" arbitrary: s)
  case 0
  then show ?case by auto
next
  case (Suc n)
  let ?s = "s\<lparr>backend_free := backend_free s + 1, http_operations := http_operations s - 1\<rparr>"
  have first: "system_step s ?s" using Suc.hyps(2) by (intro system_step.http_return_backend) linarith
  have "n = http_operations ?s" using Suc.hyps(2) by simp
  from Suc.hyps(1) [OF this] obtain s' where "system_step\<^sup>*\<^sup>* ?s s'" "clients s' = clients s" "http_operations s' = 0" by auto
  with first show ?case by (blast intro: converse_rtranclp_into_rtranclp)
qed

lemma reachable_steps: "system_step\<^sup>*\<^sup>* s s' \<Longrightarrow> reachable s \<Longrightarrow> reachable s'"
  by (induction rule: rtranclp_induct) (auto intro: reachable.step)

text \<open>When nothing is left, every permit is back where it was.\<close>

lemma conserved_empty:
  assumes "conserved s" and "clients s = []" and "http_operations s = 0" and "http_connections s = 0"
  shows "s = initial_system"
proof -
  have "request_bytes s = new_request_budget MAX_IN_FLIGHT_REQUEST_BYTES"
    using assms by (cases "request_bytes s") (simp add: conserved_def bytes_held_def new_request_budget_def)
  with assms show ?thesis
    by (cases s) (simp add: conserved_def operations_def initial_system_def)
qed

text \<open>C30: nothing leaks: from every reachable state the public connections, the HTTP operations and the HTTP
  connections can all end, and the system is then exactly as it started: every byte of the request
  budget, every backend permit and every connection permit is free again.\<close>

theorem permits_never_leak:
  assumes "reachable s"
  shows "system_step\<^sup>*\<^sup>* s initial_system"
proof -
  obtain s1 where s1: "system_step\<^sup>*\<^sup>* s s1" "clients s1 = []" using leave_all [of s] by blast
  obtain s2 where s2: "system_step\<^sup>*\<^sup>* s1 s2" "clients s2 = []" "http_operations s2 = 0"
    using finish_http [of s1] s1(2) by auto
  obtain s3 where s3: "system_step\<^sup>*\<^sup>* s2 s3" "clients s3 = []" "http_operations s3 = 0" "http_connections s3 = 0"
    using close_http [of s2] s2 by auto
  have run: "system_step\<^sup>*\<^sup>* s s3" using s1(1) s2(1) s3(1) by (blast intro: rtranclp_trans)
  with conserved_empty [OF reachable_conserved [OF reachable_steps [OF run assms]] s3(2-4)] show ?thesis by simp
qed

theorem permits_never_leak_witness: "system_step\<^sup>*\<^sup>* busy_system initial_system"
  by (rule permits_never_leak [OF reachable_example])

end
