(* ===== verification/Proxy_Serve.thy ===== *)
theory Proxy_Serve
  imports Proxy_Props Proxy_System
begin

text \<open>
  The accept loop of the public proxy (\<open>serve\<close> in \<open>proxy.rs\<close>), driven by the sequence of what happens to it,
  and the proof that it implements the connection permits of \<open>Proxy_System\<close>.
\<close>

section \<open>The loop\<close>

datatype serve_event =
    Accepted stream
  | Accept_failed rstring
  | Task_ended nat
  | Shutdown_requested

record 'w server =
  free_tasks :: nat
  running :: "stream list"
  server_world :: 'w

definition initial_server :: "'w \<Rightarrow> 'w server" where
  "initial_server w = \<lparr>free_tasks = MAX_CONNECTIONS, running = [], server_world = w\<rparr>"

text \<open>A client without a permit gets one error reply, whether it arrives or not; \<open>None\<close> is a panic.\<close>

definition turn_away_client :: "'w env \<Rightarrow> 'w server \<Rightarrow> 'w server option" where
  "turn_away_client env s =
     map_option (\<lambda>encoded. s\<lparr>server_world := snd (deliver env encoded (server_world s))\<rparr>)
       (encode_error TOO_MANY_CONNECTIONS_ERROR)"

text \<open>The task of a connection holds its permit until it ends.\<close>

definition start_task :: "stream \<Rightarrow> 'w server \<Rightarrow> 'w server" where
  "start_task peer s = s\<lparr>free_tasks := free_tasks s - 1, running := running s @ [peer]\<rparr>"

definition end_task :: "nat \<Rightarrow> 'w server \<Rightarrow> 'w server" where
  "end_task i s =
     (if i < length (running s) then s\<lparr>free_tasks := free_tasks s + 1, running := remove_at i (running s)\<rparr> else s)"

text \<open>The server after the events, and whether the loop has returned.\<close>

fun serve :: "'w env \<Rightarrow> serve_event list \<Rightarrow> 'w server \<Rightarrow> ('w server \<times> bool) option" where
  "serve env [] s = Some (s, False)"
| "serve env (Shutdown_requested # events) s = Some (s, True)"
| "serve env (Accept_failed e # events) s = serve env events s"
| "serve env (Task_ended i # events) s = serve env events (end_task i s)"
| "serve env (Accepted peer # events) s =
     (if free_tasks s = 0 then
        (case turn_away_client env s of None \<Rightarrow> None | Some s \<Rightarrow> serve env events s)
      else serve env events (start_task peer s))"

section \<open>It implements the permits of the system\<close>

definition implements :: "'w server \<Rightarrow> system \<Rightarrow> bool" where
  "implements s sys \<longleftrightarrow> reachable sys \<and> connections_free sys = free_tasks s \<and> length (clients sys) = length (running s)"

lemma implementsD:
  assumes "implements s sys"
  shows "reachable sys" and "connections_free sys = free_tasks s" and "length (clients sys) = length (running s)"
    and "free_tasks s + length (running s) = MAX_CONNECTIONS"
  using assms reachable_conserved [of sys] by (auto simp: implements_def conserved_def)

lemma turn_away_client_Some: "\<exists>w. turn_away_client env s = Some (s\<lparr>server_world := w\<rparr>)"
  by (auto simp: turn_away_client_def static_errors_fit)

lemma implements_turn_away: "implements s sys \<Longrightarrow> implements (s\<lparr>server_world := w\<rparr>) sys"
  by (simp add: implements_def)

lemma implements_start_task:
  assumes "implements s sys" and "0 < free_tasks s"
  shows "implements (start_task peer s)
    (sys\<lparr>connections_free := connections_free sys - 1, clients := clients sys @ [idle_task]\<rparr>)"
  using assms reachable.step [OF implementsD(1) [OF assms(1)] system_step.accept]
  by (simp add: implements_def start_task_def)

lemma implements_end_task:
  assumes "implements s sys"
  shows "\<exists>sys'. implements (end_task i s) sys'"
proof (cases "i < length (running s)")
  case True
  note D = implementsD [OF assms]
  from True D(3) have i: "i < length (clients sys)" by simp
  from reachable.step [OF D(1) system_step.leave [OF i]] D True show ?thesis
    by (intro exI) (auto simp: implements_def end_task_def remove_at_def)
next
  case False
  with assms show ?thesis by (auto simp: end_task_def)
qed

lemma serve_implements:
  "implements s sys \<Longrightarrow> \<exists>s' stopped sys'. serve env events s = Some (s', stopped) \<and> implements s' sys'"
proof (induction env events s arbitrary: sys rule: serve.induct)
  case (4 env i events s)
  with implements_end_task [OF "4.prems", of i] show ?case by auto
next
  case (5 env peer events s)
  show ?case
  proof (cases "free_tasks s = 0")
    case True
    from turn_away_client_Some [of env s] obtain w where w: "turn_away_client env s = Some (s\<lparr>server_world := w\<rparr>)" ..
    from "5.IH"(1) [OF True w implements_turn_away [OF "5.prems"]] True w show ?thesis by simp
  next
    case False
    with "5.IH"(2) [OF False implements_start_task [OF "5.prems"]] show ?thesis by simp
  qed
qed auto

lemma implements_initial: "implements (initial_server w) initial_system"
  using reachable.start by (simp add: implements_def initial_server_def) (simp add: initial_system_def)

text \<open>C31: the accept loop implements the connection permits of the shared system: whatever clients come and go
  and however the network behaves, it does not panic, its state is that of a reachable system
  state, and at most 64 connections run at once.\<close>

theorem serve_refines_system:
  "\<exists>s stopped sys. serve env events (initial_server w) = Some (s, stopped) \<and> reachable sys \<and>
     connections_free sys = free_tasks s \<and> length (clients sys) = length (running s) \<and>
     length (running s) \<le> MAX_CONNECTIONS"
proof -
  from serve_implements [OF implements_initial [of w], of env events] obtain s stopped sys where
    "serve env events (initial_server w) = Some (s, stopped)" and i: "implements s sys" by blast
  then show ?thesis using implementsD [OF i] by auto
qed

end
