(* ===== verification/Proxy_Tests.thy ===== *)
theory Proxy_Tests
  imports End_To_End Proxy_Serve Policy_Tests Resp_Tests
begin

text \<open>
  The repository's own tests of the proxy (module \<open>tests\<close> of \<open>proxy.rs\<close>), each as a predicate on the
  model, and that it holds.  The proxy runs in front of the mock child of \<open>testing.rs\<close>; a test client
  sends a command, the proxy runs one iteration, and the client reads what it has been sent.  Left
  out are the two tests that look at a permit while an operation is still waiting.
\<close>

section \<open>The client and the proxy of the tests\<close>

definition decoded_request :: "bytes \<Rightarrow> (Request, rstring) result" where
  "decoded_request input =
     (case read_request (slice_reader input) (new_request_budget MAX_IN_FLIGHT_REQUEST_BYTES) of
        Ok (request, _, _, _) \<Rightarrow> Ok request
      | Err (Fail e) \<Rightarrow> Err e
      | Err Hang \<Rightarrow> Err [])"

definition start_proxy_with_permits_and_budget :: "MockState \<Rightarrow> nat \<Rightarrow> RequestByteBudget \<Rightarrow> mock_world conn" where
  "start_proxy_with_permits_and_budget upstream_state permits budget =
     \<lparr>client = idle_stream, upstream = None, request_budget = budget, backend_permits = permits,
      world = \<lparr>mock_session = \<lparr>mock_state = upstream_state, selected = 0, negotiated = 2\<rparr>, unread = [], delivered = []\<rparr>\<rparr>"

definition start_proxy_with_permits :: "MockState \<Rightarrow> nat \<Rightarrow> mock_world conn" where
  "start_proxy_with_permits upstream_state permits =
     start_proxy_with_permits_and_budget upstream_state permits (new_request_budget MAX_IN_FLIGHT_REQUEST_BYTES)"

definition start_proxy :: "MockState \<Rightarrow> mock_world conn" where
  "start_proxy upstream_state = start_proxy_with_permits upstream_state 4"

text \<open>The client writes bytes; what it gets for them is delivered after them.\<close>

definition write_public :: "bytes \<Rightarrow> mock_world conn \<Rightarrow> mock_world conn" where
  "write_public bs c =
     c\<lparr>client := (client c)\<lparr>pending := pending (client c) @ bs\<rparr>, world := (world c)\<lparr>delivered := []\<rparr>\<rparr>"

definition delivered_reply :: "mock_world flow \<Rightarrow> (RespValue, fault) result" where
  "delivered_reply flow =
     and_then
       (read_value 0
         \<lparr>pending = delivered (world (flow_conn flow)),
          ending = (case flow of Running _ \<Rightarrow> Silent | _ \<Rightarrow> Closed ''early eof'')\<rparr> default_budget)
       (\<lambda>(value, _, _). Ok value)"

fun public_write :: "bytes \<Rightarrow> mock_world flow \<Rightarrow> (RespValue, fault) result \<times> mock_world flow" where
  "public_write bs (Running c) =
     (let flow = handle_step mock_env ''127.0.0.1:6380'' (write_public bs c) in (delivered_reply flow, flow))"
| "public_write bs closed = (Err (Fail ''connection closed''), closed)"

definition public_command :: "bytes list \<Rightarrow> mock_world flow \<Rightarrow> (RespValue, fault) result \<times> mock_world flow" where
  "public_command args flow = public_write (encode_command args) flow"

fun public_commands :: "bytes list list \<Rightarrow> mock_world flow \<Rightarrow> (RespValue, fault) result list \<times> mock_world flow" where
  "public_commands [] flow = ([], flow)"
| "public_commands (args # rest) flow =
     (let (reply, flow) = public_command args flow; (replies, flow) = public_commands rest flow in (reply # replies, flow))"

definition child_of :: "mock_world flow \<Rightarrow> MockState" where
  "child_of flow = mock_state (mock_session (world (flow_conn flow)))"

fun is_error_with :: "rstring \<Rightarrow> (RespValue, fault) result \<Rightarrow> bool" where
  "is_error_with part (Ok (Error msg)) = contains part msg"
| "is_error_with part _ = False"

fun is_array_of :: "nat \<Rightarrow> (RespValue, fault) result \<Rightarrow> bool" where
  "is_array_of n (Ok (Array (Some vs))) = (length vs = n)"
| "is_array_of n _ = False"

fun is_err :: "('a, 'e) result \<Rightarrow> bool" where
  "is_err (Err _) = True"
| "is_err (Ok _) = False"

section \<open>The tests\<close>

definition decodes_resp_array_arguments_without_text_reparsing :: bool where
  "decodes_resp_array_arguments_without_text_reparsing \<longleftrightarrow>
     decoded_request (rows [''*2'', ''$3'', ''GET'', ''$1'', ''a'']) = Ok (Command [''GET'', ''a'']) \<and>
     (let argv = [''SET'', ''literal '' @ DQUOTE @ ''quoted'' @ DQUOTE @ '' argument'', [CHR 0xFF, CHR 0x00, CHR '' '']] in
      decoded_request (encode_command argv) = Ok (Command argv)) \<and>
     decoded_request [] = Ok Eof \<and>
     decoded_request (rows [''*0'']) = Ok (Command [])"

definition rejects_malformed_and_oversized_requests :: bool where
  "rejects_malformed_and_oversized_requests \<longleftrightarrow>
     fails_containing (decoded_request (rows [''*2'', ''+GET''])) ''$'' \<and>
     fails_containing (decoded_request (rows [''*abc''])) ''invalid argument count'' \<and>
     fails_containing (decoded_request (rows [''*'' @ show_nat (MAX_ARGUMENTS + 1)])) ''too many arguments'' \<and>
     fails_containing (decoded_request (rows [''*1'', ''$'' @ show_nat (MAX_REQUEST_BULK + 1)])) ''invalid bulk length'' \<and>
     fails_containing (decoded_request (rows [replicate (MAX_REQUEST_LINE + 10) (CHR ''A'')])) ''exceeds'' \<and>
     fails_containing (decoded_request (rows [''PING''])) ''inline commands are not supported'' \<and>
     fails_containing (decoded_request (rows [''SET '' @ DQUOTE @ ''unterminated''])) ''inline commands are not supported''"

definition refused_in_the_tests :: "bytes list list" where
  "refused_in_the_tests =
     [[''SHUTDOWN''],
      [''PLUGIN'', ''LIST''],
      [''AUDIT'', ''START''],
      [''MIGRATE.START'', ''redis://example.invalid''],
      [''MIGRATE'', ''START'', ''redis://example.invalid''],
      [''LRANGE'', ''list'', ''0'', ''-1''],
      [''XRANGE'', ''stream'', ''-'', ''+''],
      [''COPY'', ''source'', ''destination'', ''DB'', ''16''],
      [''XTRIM'', ''stream'', ''MAXLEN'', ''=''],
      [''XTRIM'', ''stream'', ''MAXLEN'', ''100'', ''LIMIT'', ''10''],
      [''XADD'', ''stream'', ''MAXLEN'', ''='', ''100'', ''LIMIT'', ''10'', ''*'', ''field'', ''value''],
      [''XADD'', ''stream'', ''18446744073709551615-18446744073709551615'', ''field'', ''value''],
      [''SETBIT'', ''bitmap'', ''4294967288'', ''1''],
      [''SCAN'', ''0'', ''COUNT'', ''100''],
      [''SSCAN'', ''set'', ''0'', ''COUNT'', ''100''],
      [''HSCAN'', ''hash'', ''0'', ''COUNT'', ''100''],
      [''ZSCAN'', ''zset'', ''0'', ''COUNT'', ''100''],
      [''XREAD'', ''COUNT'', ''10'', ''STREAMS'', ''stream'', ''0-0''],
      [''XREAD'', ''STREAMS'', ''COUNT'', ''10'', ''stream'', ''0-0''],
      [''XREADGROUP'', ''GROUP'', ''group'', ''consumer'', ''COUNT'', ''10'', ''STREAMS'', ''stream'', ''>'']]"

definition rejects_non_allowlisted_and_unbounded_commands_without_forwarding_them :: bool where
  "rejects_non_allowlisted_and_unbounded_commands_without_forwarding_them \<longleftrightarrow>
     (let (replies, flow) = public_commands refused_in_the_tests (Running (start_proxy empty_mock)) in
      list_all (is_error_with ''playground'') replies \<and>
      received_commands (child_of flow) = [] \<and> \<not> was_shutdown (child_of flow))"

definition forwards_ordinary_commands_and_returns_real_replies :: bool where
  "forwards_ordinary_commands_and_returns_real_replies \<longleftrightarrow>
     (let st = seed_stream ''stream'' (map (\<lambda>i. (show_nat i @ ''-0'', [''field'', ''value-'' @ show_nat i])) [0..<150])
            (seed_list ''list'' (map (\<lambda>i. ''item-'' @ show_nat i) [0..<150]) empty_mock);
          (replies, flow) = public_commands
            [[''PING''],
             [''ECHO'', ''hello''],
             [''SET'', ''proxy-key'', ''proxy-value''],
             [''GET'', ''proxy-key''],
             [''GET'', ''missing''],
             [''LRANGE'', ''list'', ''0'', ''99''],
             [''XRANGE'', ''stream'', ''-'', ''+'', ''COUNT'', ''100'']] (Running (start_proxy st))
      in take 5 replies = map Ok
           [Simple ''PONG'', Bulk (Some ''hello''), Simple ''OK'', Bulk (Some ''proxy-value''), Bulk None] \<and>
         list_all (is_array_of 100) (drop 5 replies) \<and>
         received_commands (child_of flow) = [''PING'', ''ECHO'', ''SET'', ''GET'', ''GET'', ''LRANGE'', ''XRANGE''])"

definition keeps_serving_after_a_rejected_command :: bool where
  "keeps_serving_after_a_rejected_command \<longleftrightarrow>
     (let (replies, flow) = public_commands
            [[''SHUTDOWN''], [''SET'', ''after'', ''reject''], [''GET'', ''after'']] (Running (start_proxy empty_mock))
      in is_error_with [] (hd replies) \<and>
         tl replies = [Ok (Simple ''OK''), Ok (Bulk (Some ''reject''))] \<and> \<not> was_shutdown (child_of flow))"

definition preserves_select_state_on_a_persistent_public_resp_connection :: bool where
  "preserves_select_state_on_a_persistent_public_resp_connection \<longleftrightarrow>
     (let (replies, flow) = public_commands
            [[''SELECT'', ''5''], [''SET'', ''selected-key'', ''selected-value''], [''GET'', ''selected-key'']]
            (Running (start_proxy empty_mock));
          commands = received_in_sessions (child_of flow)
      in replies = [Ok (Simple ''OK''), Ok (Simple ''OK''), Ok (Bulk (Some ''selected-value''))] \<and>
         list_ex (\<lambda>c. command_name c = ''SET'' \<and> command_arguments c = [''selected-key'', ''selected-value''] \<and> database c = 5)
           commands \<and>
         list_ex (\<lambda>c. command_name c = ''GET'' \<and> command_arguments c = [''selected-key''] \<and> database c = 5) commands)"

definition oversized_reply_closes_a_selected_client_without_resetting_to_database_zero :: bool where
  "oversized_reply_closes_a_selected_client_without_resetting_to_database_zero \<longleftrightarrow>
     (let (replies, flow) = public_commands
            [[''SELECT'', ''5''], [''GET'', ''oversized''], [''GET'', ''must-not-run-on-database-zero'']]
            (Running (start_proxy (seed_bytes ''oversized'' (replicate (MAX_RESPONSE_BYTES + 1) (CHR 0xFF)) empty_mock)));
          commands = received_in_sessions (child_of flow)
      in replies ! 0 = Ok (Simple ''OK'') \<and>
         is_error_with ''state was lost'' (replies ! 1) \<and> is_err (replies ! 2) \<and>
         list_ex (\<lambda>c. command_name c = ''GET'' \<and> command_arguments c = [''oversized''] \<and> database c = 5 \<and> protocol c = 2)
           commands \<and>
         \<not> list_ex (\<lambda>c. command_arguments c = [''must-not-run-on-database-zero''] \<and> database c = 0) commands)"

definition malformed_reply_closes_a_resp3_client_without_resetting_the_protocol :: bool where
  "malformed_reply_closes_a_resp3_client_without_resetting_the_protocol \<longleftrightarrow>
     (let (replies, flow) = public_commands
            [[''HELLO'', ''3''], [''GET'', ''__mock_malformed__''], [''GET'', ''must-not-run-with-default-protocol'']]
            (Running (start_proxy empty_mock));
          commands = received_in_sessions (child_of flow)
      in (case replies ! 0 of Ok (Map _) \<Rightarrow> True | _ \<Rightarrow> False) \<and>
         is_error_with ''state was lost'' (replies ! 1) \<and> is_err (replies ! 2) \<and>
         list_ex (\<lambda>c. command_name c = ''GET'' \<and> command_arguments c = [''__mock_malformed__''] \<and> protocol c = 3) commands \<and>
         \<not> list_ex (\<lambda>c. command_arguments c = [''must-not-run-with-default-protocol''] \<and> protocol c = 2) commands)"

definition inline_wire_commands_are_rejected_and_the_connection_is_closed :: bool where
  "inline_wire_commands_are_rejected_and_the_connection_is_closed \<longleftrightarrow>
     (let (reply, flow) = public_write (''SET '' @ DQUOTE @ ''quoted key'' @ DQUOTE @ '' value'' @ crlf)
            (Running (start_proxy empty_mock));
          (follow_up, flow) = public_command [''PING''] flow
      in is_error_with ''inline commands are not supported'' reply \<and> is_err follow_up \<and>
         received_commands (child_of flow) = [])"

text \<open>The held permit is the only one; dropping it gives it back to the proxy.\<close>

definition returns_an_error_without_forwarding_when_backend_pool_is_saturated :: bool where
  "returns_an_error_without_forwarding_when_backend_pool_is_saturated \<longleftrightarrow>
     (let (refused, flow) = public_command [''PING''] (Running (start_proxy_with_permits empty_mock (1 - 1)));
          (answered, _) = public_command [''PING'']
            (on_flow (\<lambda>c. c\<lparr>backend_permits := backend_permits c + 1\<rparr>) flow)
      in is_error_with ''backend is busy'' refused \<and> received_commands (child_of flow) = [] \<and>
         answered = Ok (Simple ''PONG''))"

definition public_resp_connections_cannot_accumulate_past_the_limit :: bool where
  "public_resp_connections_cannot_accumulate_past_the_limit \<longleftrightarrow>
     (let connections = replicate MAX_CONNECTIONS (Accepted idle_stream);
          started = initial_server (world (start_proxy empty_mock))
      in case serve mock_env (connections @ [Accepted idle_stream]) started of
           None \<Rightarrow> False
         | Some (full, _) \<Rightarrow>
             (case read_value 0 (slice_reader (delivered (server_world full))) default_budget of
                Ok (Error msg, _, _) \<Rightarrow> contains ''too many connections'' msg
              | _ \<Rightarrow> False) \<and>
             (case serve mock_env [Task_ended (MAX_CONNECTIONS - 1), Accepted idle_stream, Shutdown_requested] full of
                None \<Rightarrow> False
              | Some (replaced, stopped) \<Rightarrow>
                  length (running replaced) = MAX_CONNECTIONS \<and>
                  fst (public_command [''PING''] (Running ((start_proxy empty_mock)\<lparr>client := last (running replaced)\<rparr>))) =
                    Ok (Simple ''PONG'') \<and>
                  stopped))"

definition concurrent_declared_bulk_requests_are_capped_by_the_shared_request_budget :: bool where
  "concurrent_declared_bulk_requests_are_capped_by_the_shared_request_budget \<longleftrightarrow>
     (let input = (\<lambda>c. slice_reader (rows [''*1'', ''$2000'', replicate 2000 c])) in
      case read_request (input (CHR ''a'')) (new_request_budget 2100) of
        Err _ \<Rightarrow> False
      | Ok (first_request, first_reservation, _, budget) \<Rightarrow>
          first_request = Command [replicate 2000 (CHR ''a'')] \<and> first_reservation \<noteq> [] \<and>
          (case read_request (input (CHR ''b'')) budget of
             Err (Fail e) \<Rightarrow> contains ''request budget is exhausted'' e
           | _ \<Rightarrow> False) \<and>
          (case read_request (input (CHR ''c'')) (release budget first_reservation) of
             Ok (third_request, _, _, _) \<Rightarrow> third_request = Command [replicate 2000 (CHR ''c'')]
           | Err _ \<Rightarrow> False))"

end
