(* ===== verification/Small_Replies.thy ===== *)
theory Small_Replies
  imports Mock_Ferrite_Props Resp_Json_Props
begin

text \<open>
  Replies that are certain to fit: text of bounded length, and lists of such replies.  They are within
  every budget of the decoder and of the conversion to JSON, and keep their shape in JSON.
\<close>

section \<open>Within the budgets of the decoder\<close>

definition bounded_reply :: "nat \<Rightarrow> nat \<Rightarrow> nat \<Rightarrow> RespValue \<Rightarrow> bool" where
  "bounded_reply h n w v \<longleftrightarrow> decodable v \<and> height v \<le> h \<and> nodes v \<le> n \<and> elements v \<le> n \<and> length (wire v) \<le> w"

lemma bounded_text:
  assumes "length s \<le> w" and "w \<le> 100000"
  shows "bounded_reply 0 1 (w + 15) (bulk s)"
proof -
  have "length (show_nat (length s)) \<le> 10" using assms by (intro length_show_nat) simp_all
  with assms show ?thesis
    by (simp add: bounded_reply_def bulk_def all_values.simps [of admissible] leaf_shape line_def blob_def limits)
qed

lemma sum_list_below:
  assumes "\<And>x. x \<in> set xs \<Longrightarrow> f x \<le> k" and "length xs \<le> m"
  shows "sum_list (map f xs) \<le> m * (k :: nat)"
proof -
  have "sum_list (map f xs) \<le> length xs * k" using assms(1) by (induction xs) (auto intro: add_mono)
  also have "\<dots> \<le> m * k" using assms(2) by simp
  finally show ?thesis .
qed

lemma length_wires: "length (wires vs) = sum_list (map (\<lambda>v. length (wire v)) vs)"
  by (induction vs) simp_all

lemma bounded_array:
  assumes "list_all (bounded_reply h n w) vs" and "length vs \<le> m" and "m \<le> 4096"
  shows "bounded_reply (Suc h) (1 + m + m * n) (15 + m * w) (Array (Some vs))"
proof -
  have "length (show_nat (length vs)) \<le> 10" using assms by (intro length_show_nat) simp_all
  moreover have "sum_list (map nodes vs) \<le> m * n" "sum_list (map elements vs) \<le> m * n" "length (wires vs) \<le> m * w"
    unfolding length_wires
    using assms by (auto intro!: sum_list_below simp: list_all_iff bounded_reply_def)
  ultimately show ?thesis
    using assms by (auto simp: bounded_reply_def all_values.simps [of admissible "Array (Some vs)"] nodes.simps [of "Array (Some vs)"]
        elements.simps [of "Array (Some vs)"] height_le_iff [of "Array (Some vs)"] list_all_iff line_def limits)
qed

lemma bounded_reply_mono:
  "bounded_reply h n w v \<Longrightarrow> h \<le> h' \<Longrightarrow> n \<le> n' \<Longrightarrow> w \<le> w' \<Longrightarrow> bounded_reply h' n' w' v"
  by (auto simp: bounded_reply_def)

lemma bounded_reply_fits:
  assumes "bounded_reply h n w v" and "h \<le> MAX_RESP_DEPTH" and "n \<le> MAX_RESPONSE_NODES" and "n \<le> MAX_RESPONSE_ELEMENTS"
    and "w \<le> k" and "k < USIZE_MAX"
  shows "fits_budget k v"
  using assms by (auto simp: bounded_reply_def fits_budget_def)

section \<open>Within the budget of the conversion\<close>

definition converts :: "nat \<Rightarrow> RespValue \<Rightarrow> json \<Rightarrow> bool" where
  "converts k v j \<longleftrightarrow>
     (\<forall>t b. json_limit b < USIZE_MAX \<longrightarrow> json_used b + k \<le> json_limit b \<longrightarrow>
        (\<exists>m \<le> k. to_json_budgeted t v b = Ok (j, b\<lparr>json_used := json_used b + m\<rparr>)))"

text \<open>Text that JSON needs not escape.\<close>

definition plain :: "rstring \<Rightarrow> bool" where
  "plain s \<longleftrightarrow> valid_utf8 s \<and> list_all (\<lambda>c. escaped_length c = 1) s"

lemma length_quoted_plain: "plain s \<Longrightarrow> length (quoted s) = 2 + length s"
  by (auto simp: plain_def length_quoted list_all_iff intro!: sum_list_ones)

lemma converts_text:
  assumes "plain s" and "length s + 2 \<le> k"
  shows "converts k (bulk s) (JString s)"
  unfolding converts_def
proof (intro allI impI)
  fix t :: "json \<Rightarrow> (rstring, rstring) result" and b :: JsonBudget
  assume b: "json_limit b < USIZE_MAX" "json_used b + k \<le> json_limit b"
  have "consume_json_string b s = Ok (b\<lparr>json_used := json_used b + (2 + length s)\<rparr>)"
    unfolding consume_json_string_Ok [OF b(1)] using b(2) assms length_quoted_plain [OF assms(1)] by simp
  with assms show "\<exists>m \<le> k. to_json_budgeted t (bulk s) b = Ok (JString s, b\<lparr>json_used := json_used b + m\<rparr>)"
    by (intro exI [of _ "2 + length s"]) (simp add: bulk_def bulk_to_json_def plain_def from_utf8_def)
qed

lemma converts_values:
  assumes "list_all2 (converts k) vs js" and "json_limit b < USIZE_MAX" and "json_used b + length vs * (k + 1) \<le> json_limit b"
  shows "\<exists>m \<le> length vs * (k + 1). values_to_json t i vs b = Ok (js, b\<lparr>json_used := json_used b + m\<rparr>)"
  using assms
proof (induction vs js arbitrary: i b rule: list_all2_induct)
  case Nil
  then show ?case by auto
next
  case (Cons v vs j js)
  let ?comma = "if i > 0 then 1 else 0 :: nat"
  have room: "json_used b + ?comma + k \<le> json_limit b" using Cons.prems(2) by auto
  then have comma: "(if i > 0 then consume b 1 else Ok b) = Ok (b\<lparr>json_used := json_used b + ?comma\<rparr>)"
    using consume_Ok [OF Cons.prems(1), of 1] by auto
  from Cons.hyps(1) [unfolded converts_def, rule_format, of "b\<lparr>json_used := json_used b + ?comma\<rparr>" t] Cons.prems(1) room
  obtain m where m: "m \<le> k"
    "to_json_budgeted t v (b\<lparr>json_used := json_used b + ?comma\<rparr>) = Ok (j, b\<lparr>json_used := json_used b + ?comma + m\<rparr>)"
    by auto
  let ?b = "b\<lparr>json_used := json_used b + ?comma + m\<rparr>"
  have "json_used ?b + length vs * (k + 1) \<le> json_limit ?b" using Cons.prems(2) m(1) by auto
  with Cons.IH [of ?b "i + 1"] Cons.prems(1) obtain m' where m': "m' \<le> length vs * (k + 1)"
    "values_to_json t (i + 1) vs ?b = Ok (js, ?b\<lparr>json_used := json_used ?b + m'\<rparr>)" by auto
  have "?comma + m + m' \<le> length (v # vs) * (k + 1)" using m(1) m'(1) by auto
  moreover have "values_to_json t i (v # vs) b = Ok (j # js, b\<lparr>json_used := json_used b + (?comma + m + m')\<rparr>)"
    using comma m(2) m'(2) by (simp add: add.assoc)
  ultimately show ?case by blast
qed

lemma converts_array:
  assumes "list_all2 (converts k) vs js" and "2 + length vs * (k + 1) \<le> n"
  shows "converts n (Array (Some vs)) (JArray js)"
  unfolding converts_def
proof (intro allI impI)
  fix t :: "json \<Rightarrow> (rstring, rstring) result" and b :: JsonBudget
  assume b: "json_limit b < USIZE_MAX" "json_used b + n \<le> json_limit b"
  let ?b = "b\<lparr>json_used := json_used b + 2\<rparr>"
  have c: "consume b 2 = Ok ?b" using consume_Ok [OF b(1), of 2] assms(2) b(2) by simp
  from converts_values [OF assms(1), of ?b t 0] b assms(2) obtain m where m: "m \<le> length vs * (k + 1)"
    "values_to_json t 0 vs ?b = Ok (js, ?b\<lparr>json_used := json_used ?b + m\<rparr>)" by auto
  with c assms(2) show "\<exists>m \<le> n. to_json_budgeted t (Array (Some vs)) b = Ok (JArray js, b\<lparr>json_used := json_used b + m\<rparr>)"
    by (intro exI [of _ "2 + m"]) auto
qed

lemma converts_within:
  assumes "converts k v j" and "k \<le> limit" and "limit < USIZE_MAX"
  shows "to_json_with_budget t v limit = Ok j"
  using assms unfolding converts_def to_json_with_budget_def
  by (force simp: new_json_budget_def)

end
