(* ===== verification/Proxy_Tests_Hold.thy ===== *)
theory Proxy_Tests_Hold
  imports Proxy_Tests Small_Replies
begin

text \<open>
  The tests of \<open>Proxy_Tests\<close> hold.  A run of a test is a chain of commands: each rule \<open>then_...\<close> takes a
  connection in its session through one command and leaves the rest of the chain to be shown for
  the session after it.
\<close>

section \<open>One command of a test\<close>

text \<open>A connection of a test between two commands, and the session its next command meets.\<close>

definition serves :: "mock_world conn \<Rightarrow> session \<Rightarrow> bool" where
  "serves c s \<longleftrightarrow> ready c \<and> client c = idle_stream \<and> current_session c = s"

lemma child_of_serves: "serves c s \<Longrightarrow> child_of (Running c) = mock_state s"
  by (auto simp: serves_def child_of_def current_session_def fresh_session_def split: option.split)

lemma serves_start [simp]:
  "serves (start_proxy st) \<lparr>mock_state = st, selected = 0, negotiated = 2\<rparr>"
  by (simp add: serves_def ready_def start_proxy_def start_proxy_with_permits_def start_proxy_with_permits_and_budget_def
      current_session_def fresh_session_def new_request_budget_def)

lemma write_public_serves:
  assumes "serves c s"
  shows "ready (write_public bs c)" "client (write_public bs c) = \<lparr>pending = bs @ [], ending = Silent\<rparr>"
    "current_session (write_public bs c) = s" "delivered (world (write_public bs c)) = []"
  using assms by (auto simp: serves_def ready_def write_public_def idle_stream_def current_session_def split: option.split)

lemma read_default:
  assumes "fits_budget MAX_RESPONSE_BYTES v"
  shows "\<exists>s' b. read_value 0 \<lparr>pending = wire v, ending = e\<rparr> default_budget = Ok (v, s', b)"
  using read_reply_wire [OF assms, where s = "\<lparr>pending = [], ending = e\<rparr>" and rest = "[]"]
  by (auto simp: read_reply_def default_budget_def)

lemma allowed_command:
  assumes "serves c s" and "acceptable args" and "is_allowed (classify_bytes_arguments args)" and "answers args v s s'"
  shows "\<exists>c'. public_command args (Running c) = (Ok v, Running c') \<and> serves c' s'"
proof -
  let ?c = "write_public (encode_command args) c"
  note start = write_public_serves [OF assms(1), of "encode_command args"]
  from step_simulates [OF start(1,2) assms(2,3), of v s' "''127.0.0.1:6380''"] assms(4) start(3,4) obtain c' where c':
    "handle_step mock_env ''127.0.0.1:6380'' ?c = Running c'" "ready c'" "current_session c' = s'"
    "client c' = \<lparr>pending = [], ending = Silent\<rparr>" "delivered (world c') = wire v" by auto
  with read_default [of v Silent] assms(4) show ?thesis
    by (auto simp: public_command_def Let_def delivered_reply_def serves_def idle_stream_def answers_def)
qed

lemma refused_command:
  assumes "serves c s" and "acceptable args" and "classify_bytes_arguments args = Reject name reason"
    and "fits_budget MAX_RESPONSE_BYTES (Error (message (Reject name reason)))"
  shows "\<exists>c'. public_command args (Running c) = (Ok (Error (message (Reject name reason))), Running c') \<and> serves c' s"
proof -
  let ?c = "write_public (encode_command args) c" and ?e = "Error (message (Reject name reason))"
  note start = write_public_serves [OF assms(1), of "encode_command args"]
  have affordable: "sum_list (command_permits args) \<le> available (request_budget ?c)"
    using acceptable_affordable [OF assms(2)] start(1) by (simp add: ready_def)
  let ?c' = "?c\<lparr>client := \<lparr>pending = [], ending = Silent\<rparr>, world := (world ?c)\<lparr>delivered := wire ?e\<rparr>\<rparr>"
  have step: "handle_step mock_env ''127.0.0.1:6380'' ?c = Running ?c'"
    by (rule refused_step [OF start(2) assms(2) affordable])
      (use assms(3) start(4) in \<open>simp_all add: mock_env_def del: message.simps\<close>)
  have "serves ?c' s"
    using start by (cases "upstream ?c") (simp_all add: serves_def ready_def idle_stream_def current_session_def)
  with step read_default [OF assms(4), of Silent] show ?thesis
    by (auto simp: public_command_def Let_def delivered_reply_def)
qed

text \<open>A command whose reply the decoder rejects.\<close>

lemma failed_command:
  assumes "serves c s" and "acceptable args" and "is_allowed (classify_bytes_arguments args)"
    and "serve_arguments (map from_utf8_lossy args) s = (Some out, s')"
    and "read_value 0 \<lparr>pending = out, ending = Silent\<rparr> default_budget = Err f"
  shows "\<exists>c'. public_command args (Running c) = (Ok (Error UPSTREAM_STATE_LOSS_ERROR), Finished (Ok ()) c') \<and>
     mock_session (world c') = s'"
proof -
  let ?c = "write_public (encode_command args) c" and ?addr = "''127.0.0.1:6380''"
  note start = write_public_serves [OF assms(1), of "encode_command args"]
  from established_ready [OF start(1)] start(3,4) obtain w where w:
    "established mock_env ?addr (upstream ?c) (world ?c) = (Ok idle_stream, w)" "mock_session w = s" "unread w = []" "delivered w = []"
    by metis
  have affordable: "sum_list (command_permits args) \<le> available (request_budget ?c)"
    using acceptable_affordable [OF assms(2)] start(1) by (simp add: ready_def)
  have "serve_connection \<lparr>pending = encode_command args, ending = Silent\<rparr> s = (out, s', Some [])"
    using assms(2,4) by (rule serve_one)
  then have fw: "forward mock_env ?addr (upstream ?c) args (world ?c) =
      (Err (case f of Hang \<Rightarrow> Fail upstream_timeout_error | _ \<Rightarrow> f), w\<lparr>mock_session := s', unread := []\<rparr>)"
    using w assms(5) by (cases f) (simp_all add: forward_def mock_env_def idle_stream_def with_timeout_def)
  have "\<exists>c'. handle_step mock_env ?addr ?c = Finished (Ok ()) c' \<and>
      world c' = w\<lparr>mock_session := s', unread := [], delivered := wire (Error UPSTREAM_STATE_LOSS_ERROR)\<rparr>"
    by (rule handle_step_failed [OF start(2) assms(2) affordable assms(3) _ fw])
      (use start(1) w(4) in \<open>simp_all add: ready_def mock_env_def\<close>)
  then obtain c' where c': "handle_step mock_env ?addr ?c = Finished (Ok ()) c'"
    "world c' = w\<lparr>mock_session := s', unread := [], delivered := wire (Error UPSTREAM_STATE_LOSS_ERROR)\<rparr>" by blast
  have "fits_budget MAX_RESPONSE_BYTES (Error UPSTREAM_STATE_LOSS_ERROR)"
    by (simp add: fits_budget_def shape_eval text_line_def UPSTREAM_STATE_LOSS_ERROR_def limits)
  from read_default [OF this] c' show ?thesis
    by (auto simp: public_command_def Let_def delivered_reply_def)
qed

section \<open>The answers of the mock\<close>

definition storing :: "rstring \<Rightarrow> Stored \<Rightarrow> session \<Rightarrow> session" where
  "storing key value s = s\<lparr>mock_state := seed key value (mock_state s)\<rparr>"

lemma log_command_more [simp]:
  "session_commands (mock_state (log_command args s)) = session_commands (mock_state s) @
     [\<lparr>command_name = to_ascii_uppercase (args ! 0), command_arguments = drop 1 args, database = selected s, protocol = negotiated s\<rparr>]"
  "shutdown (mock_state (log_command args s)) = shutdown (mock_state s)"
  "selected (log_command args s) = selected s" "negotiated (log_command args s) = negotiated s"
  by (simp_all add: log_command_def Let_def)

lemma storing_simps [simp]:
  "data (mock_state (storing key value s)) = (data (mock_state s))(key \<mapsto> value)"
  "commands (mock_state (storing key value s)) = commands (mock_state s)"
  "session_commands (mock_state (storing key value s)) = session_commands (mock_state s)"
  "shutdown (mock_state (storing key value s)) = shutdown (mock_state s)"
  "selected (storing key value s) = selected s" "negotiated (storing key value s) = negotiated s"
  by (simp_all add: storing_def seed_def)

lemma upper_eval: "to_ascii_uppercase ''SET'' = ''SET''" "to_ascii_uppercase ''GET'' = ''GET''" "to_ascii_uppercase ''ECHO'' = ''ECHO''"
  "to_ascii_uppercase ''HELLO'' = ''HELLO''" "to_ascii_uppercase ''PING'' = ''PING''" "to_ascii_uppercase ''SELECT'' = ''SELECT''"
  "to_ascii_uppercase ''LRANGE'' = ''LRANGE''" "to_ascii_uppercase ''XRANGE'' = ''XRANGE''"
  by (simp_all add: to_ascii_uppercase_def ascii_upper_other)

lemmas serve_eval = answers_def serve_arguments_def update_session_def dispatch_def dispatch_read_def Let_def upper_eval
  from_utf8_lossy_valid encode_unlimited

lemma set_answers:
  assumes "valid_utf8 key" and "valid_utf8 value"
  shows "answers [''SET'', key, value] (Simple ''OK'') s (storing key (Str value) (log_command [''SET'', key, value] s))"
  using assms by (simp add: serve_eval storing_def ok_fits)

lemma echo_answers:
  assumes "valid_utf8 text" and "fits_budget MAX_RESPONSE_BYTES (bulk text)"
  shows "answers [''ECHO'', text] (bulk text) s (log_command [''ECHO'', text] s)"
  using assms by (simp add: serve_eval)

lemma get_answers:
  assumes "valid_utf8 key" and "key \<noteq> ''__mock_malformed__''" and "fits_budget MAX_RESPONSE_BYTES v"
    and "dispatch_read (mock_state s) ''GET'' [key] = Some v"
  shows "answers [''GET'', key] v s (log_command [''GET'', key] s)"
proof -
  have "dispatch_read (mock_state (log_command [''GET'', key] s)) ''GET'' [key] = Some v"
    using assms(4) dispatch_read_data [of "mock_state (log_command [''GET'', key] s)" "mock_state s"] by simp
  with assms(1-3) show ?thesis
    by (simp add: answers_def serve_arguments_def update_session_def dispatch_def Let_def upper_eval from_utf8_lossy_valid
        encode_unlimited get_def)
qed

lemma read_answers:
  assumes "name \<in> set read_names" and "list_all valid_utf8 args" and "dispatch_read (mock_state s) name args = Some v"
    and "fits_budget MAX_RESPONSE_BYTES v"
  shows "answers (name # args) v s (log_command (name # args) s)"
proof -
  have "map from_utf8_lossy (name # args) = name # args"
    using assms(2) read_name_facts [OF assms(1)] by (induction args) (simp_all add: from_utf8_lossy_valid)
  with serve_read [OF assms(1,3)] assms(4) show ?thesis by (simp add: answers_def)
qed

definition hello_reply :: RespValue where
  "hello_reply = Map [(bulk ''proto'', Integer 3), (bulk ''server'', bulk ''ferrite-mock'')]"

lemma hello_answers:
  "answers [''HELLO'', ''3''] hello_reply s (log_command [''HELLO'', ''3''] (s\<lparr>negotiated := 3\<rparr>))"
proof -
  have "parse_or parse_u8_str 2 ''3'' = 3" by (simp add: parse_or_def parse_u8_str_def number_eval)
  moreover have "fits_budget MAX_RESPONSE_BYTES hello_reply"
    by (simp add: hello_reply_def bulk_def fits_budget_def shape_eval)
  ultimately show ?thesis
    by (simp add: serve_eval get_def) (simp add: hello_reply_def)
qed

section \<open>The commands of the tests\<close>

lemma tested_policyD: "tested_policy name = Some p \<Longrightarrow> p \<in> set POLICIES \<and> name \<in> set (names p)"
  using tested_policies_listed by (auto simp: tested_policy_def find_Some_iff)

lemma allowed_bytesI:
  assumes "tested_policy name = Some p" and "valid_utf8 name" and "normalize name = name" and "CHR ''.'' \<notin> set name"
    and "name \<noteq> ''COMMAND''" and "validate p (map (\<lambda>a. normalize (from_utf8_lossy a)) rest) = Ok ()"
  shows "is_allowed (classify_bytes_arguments (name # rest))"
  using allowed_by_policy [OF _ _ assms(2-6)] tested_policyD [OF assms(1)] by (metis is_allowed.simps(1))

lemma allowed_examples:
  "is_allowed (classify_bytes_arguments [''PING''])"
  "is_allowed (classify_bytes_arguments [''ECHO'', k])"
  "is_allowed (classify_bytes_arguments [''SET'', k, v])"
  "is_allowed (classify_bytes_arguments [''GET'', k])"
  "is_allowed (classify_bytes_arguments [''HELLO'', ''3''])"
  "is_allowed (classify_bytes_arguments [''LRANGE'', ''list'', ''0'', ''99''])"
  "is_allowed (classify_bytes_arguments [''XRANGE'', ''stream'', ''-'', ''+'', ''COUNT'', ''100''])"
  by (rule allowed_bytesI, simp add: tested_eval,
      simp_all add: normalize_eval validate_eval from_utf8_lossy_valid)+

lemma run_Nil: "public_commands [] flow = ([], flow)"
  by simp

lemma run_Cons:
  assumes "public_command args flow = (r, flow1)" and "public_commands rest flow1 = (rs, flow2)"
  shows "public_commands (args # rest) flow = (r # rs, flow2)"
  using assms by simp

lemma closed_command: "public_command args (Finished r c) = (Err (Fail ''connection closed''), Finished r c)"
  by (simp add: public_command_def)

section \<open>The results of the tests\<close>

lemma policy_message_contains: "contains ''playground'' (message (Reject name reason))"
  unfolding contains_iff message.simps
  by (intro exI [of _ "''ERR '' @ name @ '' is not permitted by the Ferrite public ''"] exI [of _ "'' policy: '' @ reason"]) simp

definition readable_refusal :: "bytes list \<Rightarrow> bool" where
  "readable_refusal args \<longleftrightarrow> acceptable args \<and> list_all valid_utf8 args \<and>
     (\<exists>name reason. classify_bytes_arguments args = Reject name reason \<and>
        fits_budget MAX_RESPONSE_BYTES (Error (message (Reject name reason))) \<and>
        text_line (message (Reject name reason)) \<and> length (message (Reject name reason)) \<le> 8000)"

lemma refused_commands:
  assumes "list_all readable_refusal cmds" and "serves c s"
  shows "\<exists>rs c'. public_commands cmds (Running c) = (rs, Running c') \<and> serves c' s \<and> list_all (is_error_with ''playground'') rs"
  using assms
proof (induction cmds arbitrary: c)
  case Nil
  then show ?case by auto
next
  case (Cons args cmds)
  then obtain name reason where args: "acceptable args" "classify_bytes_arguments args = Reject name reason"
    "fits_budget MAX_RESPONSE_BYTES (Error (message (Reject name reason)))" by (auto simp: readable_refusal_def)
  from refused_command [OF Cons.prems(2) args] obtain c1 where c1:
    "public_command args (Running c) = (Ok (Error (message (Reject name reason))), Running c1)" "serves c1 s" by blast
  from Cons.IH [OF _ c1(2)] Cons.prems(1) obtain rs c' where rs: "public_commands cmds (Running c1) = (rs, Running c')" "serves c' s"
    "list_all (is_error_with ''playground'') rs" by auto
  from run_Cons [OF c1(1) rs(1)] rs(2,3) policy_message_contains [of name reason] show ?case
    by (auto simp del: message.simps public_commands.simps)
qed

lemma readable_refusalI:
  assumes "list_all valid_utf8 args" and "acceptable args" and "classify_arguments args = Reject name reason"
    and "text_line name" and "text_line reason" and "length name + length reason \<le> 4096"
  shows "readable_refusal args"
proof -
  have readable: "text_line (message (Reject name reason))"
    using assms(4,5) by (simp add: text_line_def)
  with assms(6) have "fits_budget MAX_RESPONSE_BYTES (Error (message (Reject name reason)))"
    by (simp add: fits_budget_def all_values.simps [of admissible] leaf_shape line_def limits)
  moreover have "length (message (Reject name reason)) \<le> 8000" using assms(6) by simp
  ultimately show ?thesis
    using readable entry_points_agree [of args] assms(1-3) by (simp add: readable_refusal_def list_all_iff del: message.simps)
qed

lemma unlisted_refusal:
  assumes "list_all valid_utf8 args" and "acceptable args" and "normalized_name_and_arguments (map normalize args) = Some (name, rest)"
    and "name \<notin> set allowlist" and "text_line name" and "length name \<le> 1000"
  shows "readable_refusal args"
proof (rule readable_refusalI [OF assms(1,2)])
  show "classify_arguments args = Reject name not_allowlisted"
    unfolding classify_arguments_def by (rule classify_normalized_not_listed [OF assms(3,4)])
qed (use assms(5,6) in \<open>simp_all add: not_allowlisted_def text_line_def\<close>)

lemma invalid_refusal:
  assumes "list_all valid_utf8 args" and "acceptable args" and "normalized_name_and_arguments (map normalize args) = Some (name, rest)"
    and "tested_policy name = Some p" and "validate p rest = Err reason"
    and "text_line name" and "text_line reason \<and> length name + length reason \<le> 4096"
  shows "readable_refusal args"
  using classify_tested [OF assms(3,4)] assms by (intro readable_refusalI [where name = name and reason = reason]) simp_all

lemma refused_in_the_tests_readable: "list_all readable_refusal refused_in_the_tests"
  unfolding refused_in_the_tests_def list.pred_inject
  by (intro conjI list.pred_inject(1);
      (rule unlisted_refusal, simp, simp add: acceptable_def limits, simp add: named_eval, simp add: allowlist_eval,
         simp add: text_line_def, simp |
       rule invalid_refusal, simp, simp add: acceptable_def limits, simp add: named_eval, simp add: tested_eval,
         simp add: validate_eval, simp add: text_line_def, simp add: text_line_def show_nat.simps))

lemma refusal_test_holds: rejects_non_allowlisted_and_unbounded_commands_without_forwarding_them
proof -
  from refused_commands [OF refused_in_the_tests_readable serves_start, of empty_mock] obtain rs c' where
    "public_commands refused_in_the_tests (Running (start_proxy empty_mock)) = (rs, Running c')"
    "serves c' \<lparr>mock_state = empty_mock, selected = 0, negotiated = 2\<rparr>" "list_all (is_error_with ''playground'') rs" by blast
  with child_of_serves [of c'] show ?thesis
    by (simp add: rejects_non_allowlisted_and_unbounded_commands_without_forwarding_them_def
      received_commands_def was_shutdown_def empty_mock_def)
qed

lemma text_fits: "length s \<le> 5000 \<Longrightarrow> fits_budget MAX_RESPONSE_BYTES (bulk s)"
  by (rule bounded_reply_fits [OF bounded_text [of s 5000]]) (simp_all add: limits)

lemma item_length: "i < 1000 \<Longrightarrow> 3 \<le> n \<Longrightarrow> length (show_nat i) \<le> n"
  using length_show_nat [of i 3] by simp

lemma list_page_fits:
  assumes "\<And>x. x \<in> set xs \<Longrightarrow> length x \<le> 100" and "length xs \<le> 200"
  shows "fits_budget MAX_RESPONSE_BYTES (Array (Some (map bulk xs)))"
  by (rule bounded_reply_fits [OF bounded_array [where m = 200 and vs = "map bulk xs" and h = 0 and n = 1 and w = 115]])
    (use assms bounded_text [of _ 100] in \<open>auto simp: list_all_iff limits\<close>)

lemma bounded_entry:
  assumes "length (fst e) \<le> 100" and "list_all (\<lambda>x. length x \<le> 100) (snd e)" and "length (snd e) \<le> 2"
  shows "bounded_reply 2 13 505 (stream_entry e)"
proof -
  have "bounded_reply 1 5 245 (Array (Some (map bulk (snd e))))"
    by (rule bounded_reply_mono [OF bounded_array [where m = 2 and h = 0 and n = 1 and w = 115]])
      (use assms bounded_text [of _ 100] in \<open>auto simp: list_all_iff\<close>)
  moreover have "bounded_reply 1 5 245 (bulk (fst e))"
    by (rule bounded_reply_mono [OF bounded_text [OF assms(1)]]) simp_all
  ultimately show ?thesis
    unfolding stream_entry_def
    by (intro bounded_reply_mono [OF bounded_array [where m = 2 and h = 1 and n = 5 and w = 245]]) simp_all
qed

lemma stream_page_fits:
  assumes "list_all (\<lambda>e. length (fst e) \<le> 100 \<and> list_all (\<lambda>x. length x \<le> 100) (snd e) \<and> length (snd e) \<le> 2) es"
    and "length es \<le> 200"
  shows "fits_budget MAX_RESPONSE_BYTES (Array (Some (map stream_entry es)))"
  by (rule bounded_reply_fits [OF bounded_array [where m = 200 and vs = "map stream_entry es" and h = 2 and n = 13 and w = 505]])
    (use assms bounded_entry in \<open>auto simp: list_all_iff limits\<close>)

lemma short_acceptable:
  assumes "args \<noteq> []" and "length args \<le> 20" and "list_all (\<lambda>a. length a \<le> 100) args"
  shows "acceptable args"
proof -
  have "length (concat args) \<le> 20 * 100"
    unfolding length_concat using assms(2,3) by (intro sum_list_below) (auto simp: list_all_iff)
  with assms show ?thesis by (auto simp: acceptable_def list_all_iff limits)
qed

text \<open>One command after the other: the session each leaves is the one the next meets.\<close>

lemma then_allowed:
  assumes "serves c s" and "acceptable args" and "is_allowed (classify_bytes_arguments args)" and "answers args v s s'"
    and "\<And>c'. serves c' s' \<Longrightarrow> \<exists>rs flow. public_commands cmds (Running c') = (rs, flow) \<and> P (Ok v # rs) flow"
  shows "\<exists>rs flow. public_commands (args # cmds) (Running c) = (rs, flow) \<and> P rs flow"
proof -
  from allowed_command [OF assms(1-4)] obtain c' where c': "public_command args (Running c) = (Ok v, Running c')" "serves c' s'" by blast
  from assms(5) [OF c'(2)] obtain rs flow where "public_commands cmds (Running c') = (rs, flow)" "P (Ok v # rs) flow" by blast
  with run_Cons [OF c'(1)] show ?thesis by blast
qed

lemma then_nothing:
  assumes "P [] (Running c)"
  shows "\<exists>rs flow. public_commands [] (Running c) = (rs, flow) \<and> P rs flow"
  using assms by simp

definition start_session :: "MockState \<Rightarrow> session" where
  "start_session st = \<lparr>mock_state = st, selected = 0, negotiated = 2\<rparr>"

lemma start_session_simps [simp]:
  "mock_state (start_session st) = st" "selected (start_session st) = 0" "negotiated (start_session st) = 2"
  by (simp_all add: start_session_def)

lemma let_pair: "\<exists>rs flow. x = (rs, flow) \<and> Q rs flow \<Longrightarrow> (let (rs, flow) = x in Q rs flow)"
  by auto

lemma get_dispatch:
  "data st key = Some (Str value) \<Longrightarrow> dispatch_read st ''GET'' [key] = Some (bulk value)"
  "data st key = Some (Bytes value) \<Longrightarrow> dispatch_read st ''GET'' [key] = Some (bulk value)"
  "data st key = None \<Longrightarrow> dispatch_read st ''GET'' [key] = Some (Bulk None)"
  by (simp_all add: dispatch_read_def bulk_def)

lemma null_fits: "fits_budget MAX_RESPONSE_BYTES (Bulk None)"
  by (simp add: fits_budget_def all_values.simps [of admissible] leaf_shape limits)

lemma then_refused:
  assumes "serves c s" and "readable_refusal args"
    and "\<And>c' name reason. serves c' s \<Longrightarrow>
      \<exists>rs flow. public_commands cmds (Running c') = (rs, flow) \<and> P (Ok (Error (message (Reject name reason))) # rs) flow"
  shows "\<exists>rs flow. public_commands (args # cmds) (Running c) = (rs, flow) \<and> P rs flow"
proof -
  from assms(2) obtain name reason where args: "acceptable args" "classify_bytes_arguments args = Reject name reason"
    "fits_budget MAX_RESPONSE_BYTES (Error (message (Reject name reason)))" by (auto simp: readable_refusal_def)
  from refused_command [OF assms(1) args] obtain c' where c':
    "public_command args (Running c) = (Ok (Error (message (Reject name reason))), Running c')" "serves c' s" by blast
  from assms(3) [OF c'(2)] obtain rs flow where "public_commands cmds (Running c') = (rs, flow)"
    "P (Ok (Error (message (Reject name reason))) # rs) flow" by blast
  with run_Cons [OF c'(1)] show ?thesis by blast
qed

text \<open>After a reply that cannot be decoded the connection is closed.\<close>

lemma then_failed:
  assumes "serves c s" and "acceptable args" and "is_allowed (classify_bytes_arguments args)"
    and "serve_arguments (map from_utf8_lossy args) s = (Some out, s')"
    and "read_value 0 \<lparr>pending = out, ending = Silent\<rparr> default_budget = Err f"
    and "\<And>c'. mock_session (world c') = s' \<Longrightarrow>
      P [Ok (Error UPSTREAM_STATE_LOSS_ERROR), Err (Fail ''connection closed'')] (Finished (Ok ()) c')"
  shows "\<exists>rs flow. public_commands [args, args'] (Running c) = (rs, flow) \<and> P rs flow"
proof -
  from failed_command [OF assms(1-5)] obtain c' where c':
    "public_command args (Running c) = (Ok (Error UPSTREAM_STATE_LOSS_ERROR), Finished (Ok ()) c')" "mock_session (world c') = s'" by blast
  from run_Cons [OF c'(1) run_Cons [OF closed_command run_Nil]] assms(6) [OF c'(2)] show ?thesis by blast
qed

lemma then_ping:
  assumes "serves c s"
    and "\<And>c'. serves c' (log_command [''PING''] s) \<Longrightarrow>
      \<exists>rs flow. public_commands cmds (Running c') = (rs, flow) \<and> P (Ok (Simple ''PONG'') # rs) flow"
  shows "\<exists>rs flow. public_commands ([''PING''] # cmds) (Running c) = (rs, flow) \<and> P rs flow"
  by (rule then_allowed [OF assms(1) _ _ ping_answers assms(2)]) (simp_all add: short_acceptable allowed_examples)

lemma then_select:
  assumes "serves c s"
    and "\<And>c'. serves c' (log_command [''SELECT'', ''5''] (s\<lparr>selected := 5\<rparr>)) \<Longrightarrow>
      \<exists>rs flow. public_commands cmds (Running c') = (rs, flow) \<and> P (Ok (Simple ''OK'') # rs) flow"
  shows "\<exists>rs flow. public_commands ([''SELECT'', ''5''] # cmds) (Running c) = (rs, flow) \<and> P rs flow"
  by (rule then_allowed [OF assms(1) _ _ select_answers assms(2)]) (simp_all add: short_acceptable select_allowed)

lemma then_hello:
  assumes "serves c s"
    and "\<And>c'. serves c' (log_command [''HELLO'', ''3''] (s\<lparr>negotiated := 3\<rparr>)) \<Longrightarrow>
      \<exists>rs flow. public_commands cmds (Running c') = (rs, flow) \<and> P (Ok hello_reply # rs) flow"
  shows "\<exists>rs flow. public_commands ([''HELLO'', ''3''] # cmds) (Running c) = (rs, flow) \<and> P rs flow"
  by (rule then_allowed [OF assms(1) _ _ hello_answers assms(2)]) (simp_all add: short_acceptable allowed_examples)

lemma then_set:
  assumes "serves c s" and "valid_utf8 key \<and> length key \<le> 100 \<and> valid_utf8 value \<and> length value \<le> 100"
    and "\<And>c'. serves c' (storing key (Str value) (log_command [''SET'', key, value] s)) \<Longrightarrow>
      \<exists>rs flow. public_commands cmds (Running c') = (rs, flow) \<and> P (Ok (Simple ''OK'') # rs) flow"
  shows "\<exists>rs flow. public_commands ([''SET'', key, value] # cmds) (Running c) = (rs, flow) \<and> P rs flow"
  by (rule then_allowed [OF assms(1) _ _ set_answers assms(3)]) (use assms(2) in \<open>simp_all add: short_acceptable allowed_examples\<close>)

lemma then_get:
  assumes "serves c s" and "valid_utf8 key \<and> length key \<le> 100 \<and> key \<noteq> ''__mock_malformed__''"
    and "dispatch_read (mock_state s) ''GET'' [key] = Some v" and "fits_budget MAX_RESPONSE_BYTES v"
    and "\<And>c'. serves c' (log_command [''GET'', key] s) \<Longrightarrow>
      \<exists>rs flow. public_commands cmds (Running c') = (rs, flow) \<and> P (Ok v # rs) flow"
  shows "\<exists>rs flow. public_commands ([''GET'', key] # cmds) (Running c) = (rs, flow) \<and> P rs flow"
  by (rule then_allowed [OF assms(1) _ _ get_answers assms(5)]) (use assms(2-4) in \<open>simp_all add: short_acceptable allowed_examples\<close>)

lemma then_read:
  assumes "serves c s" and "name \<in> set read_names" and "list_all valid_utf8 args" and "length args \<le> 19"
    and "list_all (\<lambda>a. length a \<le> 100) args" and "is_allowed (classify_bytes_arguments (name # args))"
    and "dispatch_read (mock_state s) name args = Some v" and "fits_budget MAX_RESPONSE_BYTES v"
    and "\<And>c'. serves c' (log_command (name # args) s) \<Longrightarrow>
      \<exists>rs flow. public_commands cmds (Running c') = (rs, flow) \<and> P (Ok v # rs) flow"
  shows "\<exists>rs flow. public_commands ((name # args) # cmds) (Running c) = (rs, flow) \<and> P rs flow"
  by (rule then_allowed [OF assms(1) _ assms(6) read_answers [OF assms(2,3,7,8)] assms(9)])
    (use assms(2,4,5) read_name_facts [OF assms(2)] in \<open>simp_all add: short_acceptable\<close>)

lemma start_serves: "serves (start_proxy st) (start_session st)"
  by (simp add: start_session_def)

lemmas look_eval = child_of_serves received_in_sessions_def received_commands_def was_shutdown_def upper_eval bulk_def

lemma select_test_holds: preserves_select_state_on_a_persistent_public_resp_connection
  unfolding preserves_select_state_on_a_persistent_public_resp_connection_def
  by (intro let_pair, rule then_select [OF start_serves], erule then_set, simp, erule then_get, simp, rule get_dispatch, simp,
      rule text_fits [of "''selected-value''"], simp, rule then_nothing) (simp add: look_eval)

lemma shutdown_readable: "readable_refusal [''SHUTDOWN'']"
  using refused_in_the_tests_readable by (simp add: refused_in_the_tests_def)

lemma contains_nothing: "contains [] s"
  using contains_iff [of "[]" s] by auto

lemma reject_test_holds: keeps_serving_after_a_rejected_command
  unfolding keeps_serving_after_a_rejected_command_def
  by (intro let_pair, rule then_refused [OF start_serves shutdown_readable], erule then_set, simp, erule then_get, simp,
      rule get_dispatch, simp, rule text_fits [of "''reject''"], simp, rule then_nothing)
    (simp add: look_eval empty_mock_def contains_nothing del: message.simps)

lemma malformed_reply: "read_value 0 \<lparr>pending = ''?malformed'' @ crlf, ending = Silent\<rparr> default_budget =
    Err (Fail (''unsupported RESP response prefix: '' @ show_hex (CHR ''?'')))"
proof -
  have "read_header \<lparr>pending = ''?malformed'' @ crlf, ending = Silent\<rparr> default_budget =
      Ok (CHR ''?'', ''malformed'', \<lparr>pending = [], ending = Silent\<rparr>, spend 12 1 0 default_budget)"
    using read_header_line [where prefix = "CHR ''?''" and payload = "''malformed''" and b = default_budget and
        s = "\<lparr>pending = [], ending = Silent\<rparr>" and rest = "[]"]
    by (simp add: line_def default_budget_def new_budget_def with_limits_def small_limits_def affords_def limits)
  then show ?thesis
    by (simp add: read_value.simps [of 0] limits)
qed

lemma malformed_test_holds: malformed_reply_closes_a_resp3_client_without_resetting_the_protocol
  unfolding malformed_reply_closes_a_resp3_client_without_resetting_the_protocol_def
  by (intro let_pair, rule then_hello [OF start_serves], erule then_failed [OF _ short_acceptable _ _ malformed_reply],
      simp, simp, simp, rule allowed_examples,
      simp add: serve_arguments_def update_session_def Let_def upper_eval get_def from_utf8_lossy_valid)
    (simp add: child_of_def look_eval hello_reply_def UPSTREAM_STATE_LOSS_ERROR_def empty_mock_def)

definition oversized_mock :: MockState where
  "oversized_mock = seed_bytes ''oversized'' (replicate (MAX_RESPONSE_BYTES + 1) (CHR 0xFF)) empty_mock"

lemma oversized_dispatch:
  "data (mock_state s) = data oversized_mock \<Longrightarrow>
     dispatch_read (mock_state s) ''GET'' [''oversized''] = Some (bulk (replicate (MAX_RESPONSE_BYTES + 1) (CHR 0xFF)))"
  by (rule get_dispatch(2)) (simp add: oversized_mock_def seed_bytes_def seed_def)

lemma oversized_reply:
  "\<exists>e. read_value 0 \<lparr>pending = wire (bulk (replicate (MAX_RESPONSE_BYTES + 1) c)), ending = Silent\<rparr> default_budget = Err (Fail e)"
proof -
  let ?v = "bulk (replicate (MAX_RESPONSE_BYTES + 1) c)"
  have shape: "decodable ?v" "height ?v = 0" "nodes ?v = 1" "elements ?v = 0" "MAX_RESPONSE_BYTES < length (wire ?v)"
    by (simp_all add: bulk_def all_values.simps [of admissible] leaf_shape blob_def limits del: replicate.simps replicate_Suc)
  have "read_reply MAX_RESPONSE_BYTES (\<lparr>pending = [], ending = Silent\<rparr>\<lparr>pending := wire ?v @ []\<rparr>) =
      Err (Fail (byte_refusal (new_budget MAX_RESPONSE_BYTES)))"
    using shape by (intro read_reply_too_long) (simp_all add: limits)
  then show ?thesis
    by (cases "read_value 0 \<lparr>pending = wire ?v, ending = Silent\<rparr> default_budget")
      (auto simp: read_reply_def default_budget_def)
qed

lemma oversized_serve:
  assumes "data (mock_state s) = data oversized_mock"
  shows "serve_arguments (map from_utf8_lossy [''GET'', ''oversized'']) s =
    (Some (wire (bulk (replicate (MAX_RESPONSE_BYTES + 1) (CHR 0xFF)))), log_command [''GET'', ''oversized''] s)"
proof -
  have "dispatch_read (mock_state (log_command [''GET'', ''oversized''] s)) ''GET'' [''oversized''] =
      Some (bulk (replicate (MAX_RESPONSE_BYTES + 1) (CHR 0xFF)))"
    using assms by (intro oversized_dispatch) simp
  then show ?thesis
    by (simp add: serve_arguments_def update_session_def dispatch_def Let_def upper_eval from_utf8_lossy_valid
        encode_unlimited get_def del: replicate.simps replicate_Suc)
qed

lemma oversized_test_holds: oversized_reply_closes_a_selected_client_without_resetting_to_database_zero
proof -
  obtain e where e: "read_value 0 \<lparr>pending = wire (bulk (replicate (MAX_RESPONSE_BYTES + 1) (CHR 0xFF))), ending = Silent\<rparr>
      default_budget = Err (Fail e)" using oversized_reply by blast
  show ?thesis
    unfolding oversized_reply_closes_a_selected_client_without_resetting_to_database_zero_def oversized_mock_def [symmetric]
    by (intro let_pair, rule then_select [OF start_serves], erule then_failed [OF _ short_acceptable _ oversized_serve e],
        simp, simp, simp, rule allowed_examples, simp)
      (simp add: child_of_def look_eval UPSTREAM_STATE_LOSS_ERROR_def oversized_mock_def seed_bytes_def seed_def empty_mock_def)
qed

definition busy_mock :: MockState where
  "busy_mock = seed_stream ''stream'' (map (\<lambda>i. (show_nat i @ ''-0'', [''field'', ''value-'' @ show_nat i])) [0..<150])
     (seed_list ''list'' (map (\<lambda>i. ''item-'' @ show_nat i) [0..<150]) empty_mock)"

lemma busy_data:
  "data busy_mock ''list'' = Some (List (map (\<lambda>i. ''item-'' @ show_nat i) [0..<150]))"
  "data busy_mock ''stream'' = Some (Stream (map (\<lambda>i. (show_nat i @ ''-0'', [''field'', ''value-'' @ show_nat i])) [0..<150]))"
  "data busy_mock ''missing'' = None" "commands busy_mock = []"
  by (simp_all add: busy_mock_def seed_stream_def seed_list_def seed_def empty_mock_def)

lemma then_echo:
  assumes "serves c s" and "valid_utf8 t \<and> length t \<le> 100"
    and "\<And>c'. serves c' (log_command [''ECHO'', t] s) \<Longrightarrow>
      \<exists>rs flow. public_commands cmds (Running c') = (rs, flow) \<and> P (Ok (bulk t) # rs) flow"
  shows "\<exists>rs flow. public_commands ([''ECHO'', t] # cmds) (Running c) = (rs, flow) \<and> P rs flow"
  by (rule then_allowed [OF assms(1) _ _ echo_answers assms(3)]) (use assms(2) in \<open>simp_all add: short_acceptable allowed_examples text_fits\<close>)

lemma page_dispatch:
  "data st ''list'' = Some (List xs) \<Longrightarrow>
     dispatch_read st ''LRANGE'' [''list'', ''0'', ''99''] = Some (Array (Some (map bulk (take 100 xs))))"
  "data st ''stream'' = Some (Stream es) \<Longrightarrow>
     dispatch_read st ''XRANGE'' [''stream'', ''-'', ''+'', ''COUNT'', ''100''] = Some (Array (Some (map stream_entry (take 100 es))))"
  using dispatch_page(2) [of st "''list''" "List xs" xs] dispatch_page(6) [of st "''stream''" "Stream es" es]
  by (simp_all add: eq_ignore_ascii_case_def to_ascii_uppercase_def ascii_upper_other)

definition busy_list_page :: RespValue where
  "busy_list_page = Array (Some (map bulk (take 100 (map (\<lambda>i. ''item-'' @ show_nat i) [0..<150]))))"

definition busy_stream_page :: RespValue where
  "busy_stream_page = Array (Some (map stream_entry
     (take 100 (map (\<lambda>i. (show_nat i @ ''-0'', [''field'', ''value-'' @ show_nat i])) [0..<150]))))"

lemma busy_pages_fit: "fits_budget MAX_RESPONSE_BYTES busy_list_page" "fits_budget MAX_RESPONSE_BYTES busy_stream_page"
proof -
  have "length x \<le> 100" if "x \<in> set (map (\<lambda>i. ''item-'' @ show_nat i) [0..<150])" for x
    using that by (auto intro!: item_length)
  then show "fits_budget MAX_RESPONSE_BYTES busy_list_page"
    unfolding busy_list_page_def by (intro list_page_fits) (blast dest: in_set_takeD, simp)
  have "length (fst e) \<le> 100 \<and> list_all (\<lambda>x. length x \<le> 100) (snd e) \<and> length (snd e) \<le> 2"
    if "e \<in> set (map (\<lambda>i. (show_nat i @ ''-0'', [''field'', ''value-'' @ show_nat i])) [0..<150])" for e
    using that by (auto intro!: item_length)
  then show "fits_budget MAX_RESPONSE_BYTES busy_stream_page"
    unfolding busy_stream_page_def by (intro stream_page_fits) (auto simp only: list_all_iff dest: in_set_takeD, simp)
qed

lemma busy_dispatch:
  assumes "data st = (data busy_mock)(''proxy-key'' \<mapsto> v)"
  shows "dispatch_read st ''LRANGE'' [''list'', ''0'', ''99''] = Some busy_list_page"
    "dispatch_read st ''XRANGE'' [''stream'', ''-'', ''+'', ''COUNT'', ''100''] = Some busy_stream_page"
  unfolding busy_list_page_def busy_stream_page_def
  by (rule page_dispatch, unfold assms, rule trans [OF _ busy_data(1)] trans [OF _ busy_data(2)], simp)+

lemma pages_shape [simp]: "is_array_of 100 (Ok busy_list_page)" "is_array_of 100 (Ok busy_stream_page)"
  by (simp_all add: busy_list_page_def busy_stream_page_def)

lemma forward_test_holds: forwards_ordinary_commands_and_returns_real_replies
  unfolding forwards_ordinary_commands_and_returns_real_replies_def busy_mock_def [symmetric] Let_def
  by (rule let_pair [unfolded Let_def], rule then_ping [OF start_serves], erule then_echo, simp, erule then_set, simp,
      erule then_get, simp, rule get_dispatch, simp, rule text_fits [of "''proxy-value''"], simp,
      erule then_get, simp, rule get_dispatch(3), simp add: busy_data, rule null_fits,
      erule then_read, simp add: read_names_def, simp, simp, simp, rule allowed_examples,
      rule busy_dispatch, simp, rule busy_pages_fit,
      erule then_read, simp add: read_names_def, simp, simp, simp, rule allowed_examples,
      rule busy_dispatch, simp, rule busy_pages_fit, rule then_nothing)
    (simp add: look_eval busy_data to_ascii_uppercase_def ascii_upper_other)

text \<open>The tests of the reader.\<close>

lemma header_line:
  assumes "LF \<notin> set xs" and "length xs < MAX_REQUEST_LINE"
  shows "read_line \<lparr>pending = xs @ crlf @ rest, ending = e\<rparr> MAX_REQUEST_LINE = Ok (Some xs, \<lparr>pending = rest, ending = e\<rparr>)"
  using read_line_found [OF assms, where s = "\<lparr>pending = [], ending = e\<rparr>" and rest = rest] by simp

lemma inline_request:
  assumes "\<not> starts_with first ''*''" and "LF \<notin> set first" and "length first < MAX_REQUEST_LINE"
  shows "read_request \<lparr>pending = first @ crlf, ending = e\<rparr> b =
    Err (Fail ''ERR Protocol error: inline commands are not supported; use RESP arrays'')"
  using header_line [OF assms(2,3), of "[]" e] assms(1) by (simp add: read_request_def)

lemma inline_test_holds: inline_wire_commands_are_rejected_and_the_connection_is_closed
proof -
  let ?error = "''ERR Protocol error: inline commands are not supported; use RESP arrays''"
  let ?line = "''SET '' @ DQUOTE @ ''quoted key'' @ DQUOTE @ '' value''"
  let ?c = "write_public (?line @ crlf) (start_proxy empty_mock)"
  note start = write_public_serves [OF start_serves [of empty_mock], of "?line @ crlf"]
  have "read_request (client ?c) (request_budget ?c) = Err (Fail ?error)"
    using start(2) inline_request [of ?line Silent] by (simp add: limits)
  then have step: "handle_step mock_env ''127.0.0.1:6380'' ?c = Finished (Ok ()) (?c\<lparr>world := (world ?c)\<lparr>delivered := wire (Error ?error)\<rparr>\<rparr>)"
    using start(4) by (simp add: handle_step_def close_with_def encode_error_fits write_response_def mock_env_def MAX_RESPONSE_BYTES_def)
  have "fits_budget MAX_RESPONSE_BYTES (Error ?error)" by (simp add: fits_budget_def shape_eval)
  from read_default [OF this, of "Closed ''early eof''"] step
  have reply: "fst (public_write (?line @ crlf) (Running (start_proxy empty_mock))) = Ok (Error ?error)"
    by (auto simp: delivered_reply_def Let_def)
  have closed: "snd (public_write (?line @ crlf) (Running (start_proxy empty_mock))) =
      Finished (Ok ()) (?c\<lparr>world := (world ?c)\<lparr>delivered := wire (Error ?error)\<rparr>\<rparr>)"
    using step by (simp add: Let_def)
  obtain r flow where rf: "public_write (?line @ crlf) (Running (start_proxy empty_mock)) = (r, flow)" by fastforce
  have "mock_session (world ?c) = start_session empty_mock"
    by (simp add: write_public_def start_proxy_def start_proxy_with_permits_def start_proxy_with_permits_and_budget_def start_session_def)
  with rf reply closed show ?thesis
    by (simp add: inline_wire_commands_are_rejected_and_the_connection_is_closed_def closed_command child_of_def
        received_commands_def empty_mock_def del: public_write.simps)
qed

lemma decode_test_holds: decodes_resp_array_arguments_without_text_reparsing
proof -
  have decoded: "decoded_request (encode_command args) = Ok (Command args)" if "acceptable args" for args
    using read_request_encoded [OF that, of "new_request_budget MAX_IN_FLIGHT_REQUEST_BYTES", where s = "slice_reader []" and rest = "[]"]
      acceptable_affordable [OF that]
    by (simp add: decoded_request_def slice_reader_def new_request_budget_def)
  have "rows [''*2'', ''$3'', ''GET'', ''$1'', ''a''] = encode_command [''GET'', ''a'']"
    by (simp add: rows_def encode_command_def encode_argument_def show_nat.simps small_digits)
  moreover have "decoded_request [] = Ok Eof"
    by (simp add: decoded_request_def slice_reader_def read_request_def read_line_def read_until_limited_def read_until_def)
  moreover have "decoded_request (rows [''*0'']) = Ok (Command [])"
    using header_line [of "''*0''" "[]" "Closed ''early eof''"] request_number_show [of 0 "''argument count''"]
    by (simp add: decoded_request_def slice_reader_def rows_def read_request_def limits show_nat.simps)
  ultimately show ?thesis
    by (simp add: decodes_resp_array_arguments_without_text_reparsing_def decoded short_acceptable)
qed

lemma long_line:
  assumes "LF \<notin> set xs" and "limit < length xs"
  shows "read_line \<lparr>pending = xs @ rest, ending = e\<rparr> limit =
    Err (Fail (''ERR Protocol error: command line exceeds '' @ show_nat limit @ '' bytes''))"
proof -
  have "LF \<notin> set (take (limit + 1) xs)" using assms(1) by (meson in_set_takeD)
  moreover have "take (limit + 1) xs \<noteq> []" using assms(2) by (cases xs) auto
  ultimately show ?thesis
    using assms(2) ends_with_imp_append [of "take (limit + 1) xs" "[LF]"] split_after_None [of LF "take (limit + 1) xs"]
    by (auto simp: read_line_def read_until_limited_def Let_def)
qed

lemma malformed_requests_hold: rejects_malformed_and_oversized_requests
proof -
  note eval = decoded_request_def slice_reader_def rows_def read_request_def fails_containing_def contains_nothing with_timeout_def
  let ?e = "Closed ''early eof''"
  have two: "request_number ''2'' field = Ok 2" and one: "request_number ''1'' field = Ok 1" for field
    using request_number_show [of 2 field] request_number_show [of 1 field] by (simp_all add: limits show_nat.simps small_digits)
  have abc: "request_number ''abc'' field = Err (''ERR Protocol error: invalid '' @ field)" for field
    by (simp add: request_number_def normalize_eval number_eval)
  have short: "length (show_nat 257) < 65535" "length (show_nat 262145) < 65535"
    using length_show_nat [of 257 7] length_show_nat [of 262145 7] by simp_all
  have room: "reserve (new_request_budget MAX_IN_FLIGHT_REQUEST_BYTES) n =
      Ok (Some n, new_request_budget (MAX_IN_FLIGHT_REQUEST_BYTES - n))" if "0 < n" "n \<le> 1000" for n
    using that by (simp add: reserve_def new_request_budget_def limits)
  have "fails_containing (decoded_request (rows [''*2'', ''+GET''])) ''$''"
    using header_line [of "''*2''" "''+GET'' @ crlf" ?e] header_line [of "''+GET''" "[]" ?e]
    by (simp add: eval two as_usize_def ARGUMENT_SLOT_OVERHEAD_BYTES_def MAX_ARGUMENTS_def MAX_REQUEST_LINE_def room numeral_2_eq_2)
  moreover have "fails_containing (decoded_request (rows [''*abc''])) ''invalid argument count''"
    using header_line [of "''*abc''" "[]" ?e] 
    by (simp add: eval abc MAX_REQUEST_LINE_def)
  moreover have "fails_containing (decoded_request (rows [''*'' @ show_nat (MAX_ARGUMENTS + 1)])) ''too many arguments''"
    using header_line [of "''*'' @ show_nat (MAX_ARGUMENTS + 1)" "[]" ?e] request_number_show [of "MAX_ARGUMENTS + 1" "''argument count''"]
    by (simp add: eval as_usize_def limits show_nat_no_lf short)
  moreover have "fails_containing (decoded_request (rows [''*1'', ''$'' @ show_nat (MAX_REQUEST_BULK + 1)])) ''invalid bulk length''"
    using header_line [of "''*1''" "''$'' @ show_nat (MAX_REQUEST_BULK + 1) @ crlf" ?e]
      header_line [of "''$'' @ show_nat (MAX_REQUEST_BULK + 1)" "[]" ?e] request_number_show [of "MAX_REQUEST_BULK + 1" "''bulk length''"]
    by (simp add: eval one as_usize_def limits show_nat_no_lf short reserve_def new_request_budget_def)
  moreover have "fails_containing (decoded_request (rows [replicate (MAX_REQUEST_LINE + 10) (CHR ''A'')])) ''exceeds''"
    using long_line [of "replicate (MAX_REQUEST_LINE + 10) (CHR ''A'')" MAX_REQUEST_LINE crlf ?e]
    by (simp add: eval)
  moreover have "fails_containing (decoded_request (rows [''PING''])) ''inline commands are not supported''"
    "fails_containing (decoded_request (rows [''SET '' @ DQUOTE @ ''unterminated''])) ''inline commands are not supported''"
    using inline_request [of "''PING''"] inline_request [of "''SET '' @ DQUOTE @ ''unterminated''"]
    by (simp_all add: decoded_request_def slice_reader_def rows_def fails_containing_def contains_nothing limits)
  ultimately show ?thesis by (simp add: rejects_malformed_and_oversized_requests_def)
qed

lemma budget_test_holds: concurrent_declared_bulk_requests_are_capped_by_the_shared_request_budget
proof -
  let ?input = "\<lambda>c. slice_reader (rows [''*1'', ''$2000'', replicate 2000 c])"
  have sent: "?input c = \<lparr>pending = encode_command [replicate 2000 c] @ [], ending = Closed ''early eof''\<rparr>" for c
    by (simp add: slice_reader_def rows_def encode_command_def encode_argument_def show_nat.simps small_digits)
  have ok: "acceptable [replicate 2000 c]" for c
    by (simp add: acceptable_def limits)
  have permits: "command_permits [replicate 2000 c] = [64, 2000]" for c
    by (simp add: command_permits_def argument_permits_def limits)
  have read: "read_request (?input c) (new_request_budget 2100) =
      Ok (Command [replicate 2000 c], [64, 2000], slice_reader [], new_request_budget 36)" for c
    unfolding sent
    using read_request_encoded [OF ok, where b = "new_request_budget 2100" and s = "slice_reader []" and rest = "[]"]
    by (simp add: slice_reader_def permits new_request_budget_def)
  have "read_request (?input c) (new_request_budget 36) = Err (Fail REQUEST_BUDGET_EXHAUSTED_ERROR)" for c
  proof -
    have "?input c = \<lparr>pending = ''*1'' @ crlf @ rows [''$2000'', replicate 2000 c], ending = Closed ''early eof''\<rparr>"
      by (simp add: slice_reader_def rows_def)
    moreover have "request_number ''1'' field = Ok 1" for field
      using request_number_show [of 1 field] by (simp add: limits show_nat.simps small_digits)
    ultimately show ?thesis
      using header_line [of "''*1''" "rows [''$2000'', replicate 2000 c]" "Closed ''early eof''"]
      by (simp add: read_request_def as_usize_def reserve_def new_request_budget_def limits)
  qed
  moreover have "release (new_request_budget 36) [64, 2000] = new_request_budget 2100"
    by (simp add: release_def new_request_budget_def)
  moreover have "contains ''request budget is exhausted'' REQUEST_BUDGET_EXHAUSTED_ERROR"
    by (simp add: REQUEST_BUDGET_EXHAUSTED_ERROR_def)
  ultimately show ?thesis
    unfolding concurrent_declared_bulk_requests_are_capped_by_the_shared_request_budget_def Let_def
    by (simp add: read)
qed

lemma busy_command:
  assumes "client c = idle_stream" and "available (request_budget c) = MAX_IN_FLIGHT_REQUEST_BYTES" and "backend_permits c = 0"
    and "acceptable args" and "is_allowed (classify_bytes_arguments args)"
  shows "public_command args (Running c) =
    (Ok (Error BACKEND_BUSY_ERROR), Running ((write_public [] c)\<lparr>world := (world c)\<lparr>delivered := wire (Error BACKEND_BUSY_ERROR)\<rparr>\<rparr>))"
proof -
  let ?c = "write_public (encode_command args) c"
  have c: "client ?c = \<lparr>pending = encode_command args @ [], ending = Silent\<rparr>"
    using assms(1) by (simp add: write_public_def idle_stream_def)
  have affordable: "sum_list (command_permits args) \<le> available (request_budget ?c)"
    using acceptable_affordable [OF assms(4)] assms(2) by (simp add: write_public_def)
  have "handle_step mock_env ''127.0.0.1:6380'' ?c =
      Running ((write_public [] c)\<lparr>world := (world c)\<lparr>delivered := wire (Error BACKEND_BUSY_ERROR)\<rparr>\<rparr>)"
    unfolding handle_step_command [OF c assms(4) affordable]
    using assms(1,3,5) affordable
    by (simp add: serve_command_def Let_def refuse_def static_errors_fit write_response_def mock_env_def drop_reservation_def
        release_def write_public_def idle_stream_def)
  moreover have "fits_budget MAX_RESPONSE_BYTES (Error BACKEND_BUSY_ERROR)"
    by (simp add: fits_budget_def shape_eval BACKEND_BUSY_ERROR_def)
  ultimately show ?thesis
    using read_default [of "Error BACKEND_BUSY_ERROR" Silent]
    by (auto simp: public_command_def Let_def delivered_reply_def)
qed

lemma saturation_test_holds: returns_an_error_without_forwarding_when_backend_pool_is_saturated
proof -
  let ?c = "start_proxy_with_permits empty_mock (1 - 1)"
  let ?busy = "(write_public [] ?c)\<lparr>world := (world ?c)\<lparr>delivered := wire (Error BACKEND_BUSY_ERROR)\<rparr>\<rparr>"
  note start = start_proxy_with_permits_def start_proxy_with_permits_and_budget_def new_request_budget_def
  have busy: "public_command [''PING''] (Running ?c) = (Ok (Error BACKEND_BUSY_ERROR), Running ?busy)"
    by (rule busy_command) (simp_all add: start short_acceptable allowed_examples)
  have "serves (?busy\<lparr>backend_permits := 1\<rparr>) (start_session empty_mock)"
    by (simp add: serves_def ready_def start write_public_def idle_stream_def current_session_def fresh_session_def start_session_def)
  from then_ping [where cmds = "[]" and P = "\<lambda>rs flow. rs = [Ok (Simple ''PONG'')]", OF this]
  have "fst (public_command [''PING''] (Running (?busy\<lparr>backend_permits := 1\<rparr>))) = Ok (Simple ''PONG'')"
    by (auto simp: case_prod_beta)
  moreover have "contains ''backend is busy'' BACKEND_BUSY_ERROR" by (simp add: BACKEND_BUSY_ERROR_def)
  moreover have "child_of (Running ?busy) = empty_mock" by (simp add: child_of_def start)
  ultimately show ?thesis
    using busy
    by (auto simp: returns_an_error_without_forwarding_when_backend_pool_is_saturated_def received_commands_def empty_mock_def
        write_public_def start case_prod_beta)
qed

lemma serve_accepted:
  "length peers \<le> free_tasks s \<Longrightarrow> serve env (map Accepted peers @ events) s =
     serve env events (s\<lparr>free_tasks := free_tasks s - length peers, running := running s @ peers\<rparr>)"
proof (induction peers arbitrary: s)
  case (Cons peer peers)
  then show ?case by (simp add: start_task_def)
qed simp

lemma connection_test_holds: public_resp_connections_cannot_accumulate_past_the_limit
proof -
  let ?w = "world (start_proxy empty_mock)"
  let ?full = "\<lparr>free_tasks = 0, running = replicate MAX_CONNECTIONS idle_stream,
      server_world = ?w\<lparr>delivered := wire (Error TOO_MANY_CONNECTIONS_ERROR)\<rparr>\<rparr>"
  have d: "delivered ?w = []" by (simp add: start_proxy_def start_proxy_with_permits_def start_proxy_with_permits_and_budget_def)
  have full: "serve mock_env (replicate MAX_CONNECTIONS (Accepted idle_stream) @ [Accepted idle_stream]) (initial_server ?w) = Some (?full, False)"
    using serve_accepted [of "replicate MAX_CONNECTIONS idle_stream" "initial_server ?w" mock_env "[Accepted idle_stream]"] d
    by (simp add: initial_server_def turn_away_client_def static_errors_fit mock_env_def)
  have "fits_budget MAX_RESPONSE_BYTES (Error TOO_MANY_CONNECTIONS_ERROR)"
    by (simp add: fits_budget_def shape_eval TOO_MANY_CONNECTIONS_ERROR_def)
  from read_default [OF this, of "Closed ''early eof''"] obtain s b where
    reply: "read_value 0 (slice_reader (delivered (server_world ?full))) default_budget = Ok (Error TOO_MANY_CONNECTIONS_ERROR, s, b)"
    unfolding slice_reader_def by auto
  have "MAX_CONNECTIONS - 1 < MAX_CONNECTIONS" by (simp add: limits)
  then have replaced: "serve mock_env [Task_ended (MAX_CONNECTIONS - 1), Accepted idle_stream, Shutdown_requested] ?full =
      Some (?full\<lparr>running := remove_at (MAX_CONNECTIONS - 1) (replicate MAX_CONNECTIONS idle_stream) @ [idle_stream]\<rparr>, True)"
    by (simp add: end_task_def start_task_def)
  have n: "length (remove_at (MAX_CONNECTIONS - 1) (replicate MAX_CONNECTIONS idle_stream)) = MAX_CONNECTIONS - 1"
    by (simp add: remove_at_def limits)
  from then_ping [where cmds = "[]" and P = "\<lambda>rs flow. rs = [Ok (Simple ''PONG'')]", OF start_serves [of empty_mock]]
  have pong: "fst (public_command [''PING''] (Running (start_proxy empty_mock))) = Ok (Simple ''PONG'')"
    by (auto simp: case_prod_beta)
  have same: "(start_proxy empty_mock)\<lparr>client := idle_stream\<rparr> = start_proxy empty_mock"
    by (simp add: start_proxy_def start_proxy_with_permits_def start_proxy_with_permits_and_budget_def)
  have "contains ''too many connections'' TOO_MANY_CONNECTIONS_ERROR" by (simp add: TOO_MANY_CONNECTIONS_ERROR_def)
  moreover have "Suc (MAX_CONNECTIONS - 1) = MAX_CONNECTIONS" by (simp add: limits)
  ultimately show ?thesis
    unfolding public_resp_connections_cannot_accumulate_past_the_limit_def Let_def
    by (simp only: full option.case prod.case replaced reply RespValue.case result.case) (simp add: n [simplified] pong same)
qed

end
