(* ===== verification/Client_Tests.thy ===== *)
theory Client_Tests
  imports Proxy_Tests_Hold
begin

text \<open>
  The test of the RESP client (\<open>execute_within\<close> in module \<open>tests\<close> of \<open>resp.rs\<close>) against the mock child: a reply
  over the budget of the call is refused, one within it is returned.
\<close>

definition execute_within_applies_the_requested_budget :: bool where
  "execute_within_applies_the_requested_budget \<longleftrightarrow>
     (let addr = ''127.0.0.1:6380'';
          before = \<lparr>mock_session = start_session empty_mock, unread = [], delivered = []\<rparr>;
          (refused, w) = execute_within mock_env addr [''MOCKBULK'', ''8192''] 1024 before;
          (answered, _) = execute_within mock_env addr [''MOCKBULK'', ''512''] (1024 * 1024) w
      in (case refused of Err e \<Rightarrow> contains ''response budget'' e | Ok _ \<Rightarrow> False) \<and>
         (case answered of Ok (Bulk (Some bs)) \<Rightarrow> length bs = 512 | _ \<Rightarrow> False))"

text \<open>A reply that is too long for the call.\<close>

lemma mock_execute_refused:
  assumes "acceptable args" and "list_all valid_utf8 args" and "decodable v" and "height v \<le> MAX_RESP_DEPTH"
    and "nodes v \<le> MAX_RESPONSE_NODES" and "elements v \<le> MAX_RESPONSE_ELEMENTS" and "n < length (wire v)" and "n < USIZE_MAX"
    and "serve_arguments args (fresh_session (mock_session w)) = (Some (wire v), session')"
  shows "execute_within mock_env addr args n w =
    (Err (byte_refusal (new_budget n)), w\<lparr>mock_session := session', unread := []\<rparr>)"
proof -
  have "map from_utf8_lossy args = args"
    using assms(2) by (induction args) (simp_all add: from_utf8_lossy_valid)
  with serve_one [OF assms(1), of "fresh_session (mock_session w)" "wire v" session'] assms(9)
  have served: "serve_connection \<lparr>pending = encode_command args, ending = Silent\<rparr> (fresh_session (mock_session w)) =
      (wire v, session', Some [])" by simp
  have "read_value 0 \<lparr>pending = wire v, ending = Silent\<rparr> (new_budget n) = Err (Fail (byte_refusal (new_budget n)))"
    using read_reply_too_long [OF assms(3-8), where s = "\<lparr>pending = [], ending = Silent\<rparr>" and rest = "[]"]
    by (cases "read_value 0 \<lparr>pending = wire v, ending = Silent\<rparr> (new_budget n)") (auto simp: read_reply_def)
  with assms(1) served show ?thesis
    by (simp add: execute_within_def exchange_def mock_env_def acceptable_def fresh_session_def within_deadline_def)
qed

lemma mockbulk_served:
  assumes "parse_or parse_u64_str 0 n = k" and "valid_utf8 n"
  shows "serve_arguments [''MOCKBULK'', n] s = (Some (wire (bulk (replicate k (CHR ''x'')))), log_command [''MOCKBULK'', n] s)"
  using assms
  by (simp add: serve_arguments_def update_session_def dispatch_def dispatch_read_def generated_reply_def Let_def
      to_ascii_uppercase_def ascii_upper_other encode_unlimited bulk_def)

lemma execute_within_test_holds: execute_within_applies_the_requested_budget
proof -
  let ?before = "\<lparr>mock_session = start_session empty_mock, unread = [], delivered = []\<rparr>" and ?addr = "''127.0.0.1:6380''"
  let ?large = "bulk (replicate 8192 (CHR ''x''))" and ?small = "bulk (replicate 512 (CHR ''x''))"
  have n: "parse_or parse_u64_str 0 ''8192'' = 8192" "parse_or parse_u64_str 0 ''512'' = 512"
    by (simp_all add: parse_or_def number_eval)
  have "decodable ?large" "height ?large \<le> MAX_RESP_DEPTH" "nodes ?large \<le> MAX_RESPONSE_NODES" "elements ?large \<le> MAX_RESPONSE_ELEMENTS"
    "1024 < length (wire ?large)" "1024 < USIZE_MAX"
    by (simp_all add: bulk_def all_values.simps [of admissible] leaf_shape blob_def limits del: replicate.simps replicate_Suc)
  note shape = this
  obtain w where refused: "execute_within mock_env ?addr [''MOCKBULK'', ''8192''] 1024 ?before = (Err (byte_refusal (new_budget 1024)), w)"
    using mock_execute_refused [OF _ _ shape mockbulk_served [OF n(1)], where w = ?before and addr = ?addr] by (auto simp: short_acceptable)
  have "fits_budget (1024 * 1024) ?small"
    by (rule bounded_reply_fits [OF bounded_text [where w = 512]]) (simp_all add: limits)
  from mock_execute [OF _ _ this mockbulk_served [OF n(2)], where w = w and addr = ?addr] obtain w' where
    answered: "execute_within mock_env ?addr [''MOCKBULK'', ''512''] (1024 * 1024) w = (Ok ?small, w')"
    by (auto simp: short_acceptable)
  have "contains ''response budget'' (byte_refusal b)" for b
    unfolding contains_iff byte_refusal_def by (rule exI [of _ "''response exceeds the playground ''"]) simp
  with refused answered show ?thesis
    by (simp add: execute_within_applies_the_requested_budget_def Let_def bulk_def del: replicate.simps replicate_Suc)
qed

end
