(* ===== verification/Index_Page.thy ===== *)
theory Index_Page
  imports Rust_Utf8
begin

text \<open>
  The page the HTTP service serves at its root (\<open>INDEX_HTML\<close> of \<open>http.rs\<close>), line by line: the markup and
  its style, then the script that calls the API.
\<close>

definition ELLIPSIS :: rstring where
  "ELLIPSIS = [CHR 0xE2, CHR 0x80, CHR 0xA6]"

definition EM_DASH :: rstring where
  "EM_DASH = [CHR 0xE2, CHR 0x80, CHR 0x94]"

definition INDEX_MARKUP :: "rstring list" where
  "INDEX_MARKUP = [
      ''<!doctype html>'',
      ''<html lang=\"en\">'',
      ''<head>'',
      ''  <meta charset=\"utf-8\">'',
      ''  <meta name=\"viewport\" content=\"width=device-width, initial-scale=1\">'',
      ''  <title>Ferrite Playground</title>'',
      ''  <style>'',
      ''    :root { color-scheme: dark; font-family: ui-monospace, SFMono-Regular, Menlo, monospace; }'',
      ''    body { max-width: 860px; margin: 0 auto; padding: 3rem 1.25rem; background: #111827; color: #e5e7eb; }'',
      ''    h1 { color: #f97316; }'',
      ''    form { display: flex; gap: .75rem; }'',
      ''    input { flex: 1; padding: .85rem; border: 1px solid #4b5563; border-radius: .5rem; background: #1f2937; color: inherit; }'',
      ''    button { padding: .85rem 1.25rem; border: 0; border-radius: .5rem; background: #f97316; color: #111827; font-weight: 700; cursor: pointer; }'',
      ''    pre { min-height: 10rem; padding: 1rem; overflow: auto; border-radius: .5rem; background: #030712; white-space: pre-wrap; }'',
      ''    .status { margin-bottom: 1rem; color: #9ca3af; }'',
      ''    .note { margin-top: 1rem; color: #9ca3af; font-size: .85rem; }'',
      ''  </style>'',
      ''</head>'',
      ''<body>'',
      ''  <h1>Ferrite Playground</h1>'',
      ''  <p class=\"status\" id=\"status\">Connecting to Ferrite'' @ ELLIPSIS @ ''</p>'',
      ''  <form id=\"command-form\">'',
      ''    <input id=\"command\" name=\"command\" value=\"PING\" autocomplete=\"off\" aria-label=\"RESP command\">'',
      ''    <button type=\"submit\">Execute</button>'',
      ''  </form>'',
      ''  <pre id=\"output\" aria-live=\"polite\">Enter a Redis-compatible command.</pre>'',
      ''  <p class=\"note\">'',
      ''    This is a shared, unauthenticated playground: administrative and lifecycle'',
      ''    commands (for example SHUTDOWN, CONFIG, DEBUG, MODULE, ACL, SAVE, BGSAVE,'',
      ''    BGREWRITEAOF, REPLICAOF) are rejected on both the HTTP API and the public'',
      ''    Redis-compatible port.'',
      ''  </p>'']"

definition INDEX_SCRIPT :: "rstring list" where
  "INDEX_SCRIPT = [
      ''  <script>'',
      ''    const status = document.querySelector(\"#status\");'',
      ''    const form = document.querySelector(\"#command-form\");'',
      ''    const command = document.querySelector(\"#command\");'',
      ''    const output = document.querySelector(\"#output\");'',
      [],
      ''    fetch(\"/api/health\")'',
      ''      .then(response => response.json())'',
      ''      .then(body => {'',
      ''        status.textContent = body.success'',
      ''          ? `Ferrite ${body.data.version} '' @ EM_DASH @ '' ${body.data.status}`'',
      ''          : body.error;'',
      ''      })'',
      ''      .catch(error => { status.textContent = `Unavailable: ${error}`; });'',
      [],
      ''    form.addEventListener(\"submit\", async event => {'',
      ''      event.preventDefault();'',
      ''      output.textContent = \"Executing'' @ ELLIPSIS @ ''\";'',
      ''      try {'',
      ''        const response = await fetch(\"/api/execute\", {'',
      ''          method: \"POST\",'',
      ''          headers: { \"content-type\": \"application/json\" },'',
      ''          body: JSON.stringify({ command: command.value })'',
      ''        });'',
      ''        const body = await response.json();'',
      ''        output.textContent = body.success'',
      ''          ? JSON.stringify(body.data, null, 2)'',
      ''          : `Error: ${body.error}`;'',
      ''      } catch (error) {'',
      ''        output.textContent = `Request failed: ${error}`;'',
      ''      }'',
      ''    });'',
      ''  </script>'',
      ''</body>'',
      ''</html>'']"

definition INDEX_HTML :: rstring where
  "INDEX_HTML = concat (map (\<lambda>l. l @ [LF]) (INDEX_MARKUP @ INDEX_SCRIPT))"

lemma valid_index_text: "valid_utf8 ELLIPSIS" "valid_utf8 EM_DASH"
  by (simp_all add: ELLIPSIS_def EM_DASH_def valid_utf8_def utf8_chunks.simps utf8_scan_def char_width_def
      second_ok_def is_cont_def byte_at_def)

text \<open>The page is a Rust string.\<close>

lemma valid_index_html: "valid_utf8 INDEX_HTML"
  unfolding INDEX_HTML_def INDEX_MARKUP_def INDEX_SCRIPT_def
  by (simp add: valid_index_text)

end
