(* ===== verification/Http_Router.thy ===== *)
theory Http_Router
  imports Http_Props Index_Page
begin

text \<open>
  The routes of the HTTP service (\<open>router\<close> of \<open>http.rs\<close>) over the handlers of \<open>Http\<close>.  The web framework
  \<open>axum\<close> is not part of the repository: how it matches a path, decodes a path segment and a JSON
  body, and the answers it gives itself are the parameter \<open>axum\<close>; \<open>documented_axum\<close> states what its
  documentation says of them.
\<close>

section \<open>Definitions\<close>

definition MAX_BODY_BYTES :: nat where
  [limits]: "MAX_BODY_BYTES = 64 * 1024"

record ExecuteRequest =
  command :: rstring

record Request =
  request_method :: rstring
  request_path :: rstring
  content_type :: "rstring option"
  request_body :: bytes

record axum =
  serves_method :: "rstring \<Rightarrow> rstring \<Rightarrow> bool"
  matches_path :: "rstring \<Rightarrow> rstring \<Rightarrow> bool"
  extract_path :: "rstring \<Rightarrow> Request \<Rightarrow> (rstring, Response) result"
  extract_json :: "nat \<Rightarrow> Request \<Rightarrow> (ExecuteRequest, Response) result"
  no_route :: "Request \<Rightarrow> Response"
  wrong_method :: "Request \<Rightarrow> Response"

definition index :: Response where
  "index = \<lparr>status = OK, body = INDEX_HTML\<rparr>"

datatype handler = Index | Health_check | Execute_command | Key_page

definition ROUTES :: "(rstring \<times> rstring \<times> handler) list" where
  "ROUTES =
     [(''/'', ''GET'', Index),
      (''/api/health'', ''GET'', Health_check),
      (''/api/execute'', ''POST'', Execute_command),
      (''/api/command'', ''POST'', Execute_command),
      (''/api/keys/detail/{key}'', ''GET'', Key_page)]"

text \<open>The extractors run before the handler and answer in its place when they fail.\<close>

definition run_handler ::
    "axum \<Rightarrow> serializers \<Rightarrow> 'w env \<Rightarrow> rstring \<Rightarrow> handler \<Rightarrow> Request \<Rightarrow> 'w app \<Rightarrow> Response \<times> 'w app" where
  "run_handler axum lib env pattern h request app =
     (case h of
        Index \<Rightarrow> (index, app)
      | Health_check \<Rightarrow> handle_call lib env Health app
      | Execute_command \<Rightarrow>
          (case extract_json axum MAX_BODY_BYTES request of
             Ok r \<Rightarrow> handle_call lib env (Execute (command r)) app
           | Err rejection \<Rightarrow> (rejection, app))
      | Key_page \<Rightarrow>
          (case extract_path axum pattern request of
             Ok key \<Rightarrow> handle_call lib env (Key_detail key) app
           | Err rejection \<Rightarrow> (rejection, app)))"

definition router :: "axum \<Rightarrow> serializers \<Rightarrow> 'w env \<Rightarrow> Request \<Rightarrow> 'w app \<Rightarrow> Response \<times> 'w app" where
  "router axum lib env request app =
     (case find (\<lambda>(pattern, _). matches_path axum pattern (request_path request)) ROUTES of
        None \<Rightarrow> (no_route axum request, app)
      | Some (pattern, served, h) \<Rightarrow>
          if serves_method axum served (request_method request)
          then run_handler axum lib env pattern h request app
          else (wrong_method axum request, app))"

section \<open>What the framework documents\<close>

text \<open>
  A pattern without a parameter matches itself; \<open>{key}\<close> matches one non-empty segment; the JSON
  extractor gives a string, and refuses a body over the limit or without the JSON content type.
\<close>

definition KEY_PATH :: rstring where
  "KEY_PATH = ''/api/keys/detail/''"

definition documented_axum :: "axum \<Rightarrow> bool" where
  "documented_axum axum \<longleftrightarrow>
     (\<forall>pattern path. CHR ''{'' \<notin> set pattern \<longrightarrow> (matches_path axum pattern path \<longleftrightarrow> path = pattern)) \<and>
     (\<forall>path. matches_path axum (KEY_PATH @ ''{key}'') path \<longleftrightarrow>
        (\<exists>segment. segment \<noteq> [] \<and> CHR ''/'' \<notin> set segment \<and> path = KEY_PATH @ segment)) \<and>
     (\<forall>limit request r. extract_json axum limit request = Ok r \<longrightarrow>
        valid_utf8 (command r) \<and> length (request_body request) \<le> limit \<and> content_type request \<noteq> None)"

lemma routes_eval:
  assumes "documented_axum axum"
  shows "find (\<lambda>(pattern, _). matches_path axum pattern path) ROUTES =
    (if path = ''/'' then Some (''/'', ''GET'', Index)
     else if path = ''/api/health'' then Some (''/api/health'', ''GET'', Health_check)
     else if path = ''/api/execute'' then Some (''/api/execute'', ''POST'', Execute_command)
     else if path = ''/api/command'' then Some (''/api/command'', ''POST'', Execute_command)
     else if matches_path axum (KEY_PATH @ ''{key}'') path then Some (KEY_PATH @ ''{key}'', ''GET'', Key_page)
     else None)"
proof -
  have "CHR ''{'' \<notin> set pattern \<Longrightarrow> matches_path axum pattern path \<longleftrightarrow> path = pattern" for pattern
    using assms by (simp add: documented_axum_def)
  then show ?thesis by (simp add: ROUTES_def KEY_PATH_def)
qed

section \<open>What a request can do\<close>

text \<open>A request that is turned away before a handler runs changes nothing.\<close>

lemma router_cases [consumes 1, case_names answered health execute detail]:
  assumes "documented_axum axum"
  obtains r where "router axum lib env request app = (r, app)"
  | "request_path request = ''/api/health''" "serves_method axum ''GET'' (request_method request)"
    "router axum lib env request app = handle_call lib env Health app"
  | r where "request_path request \<in> {''/api/execute'', ''/api/command''}"
    "serves_method axum ''POST'' (request_method request)"
    "extract_json axum MAX_BODY_BYTES request = Ok r"
    "router axum lib env request app = handle_call lib env (Execute (command r)) app"
  | key where "matches_path axum (KEY_PATH @ ''{key}'') (request_path request)"
    "serves_method axum ''GET'' (request_method request)"
    "extract_path axum (KEY_PATH @ ''{key}'') request = Ok key"
    "router axum lib env request app = handle_call lib env (Key_detail key) app"
proof -
  note eval = router_def routes_eval [OF assms] run_handler_def
  let ?path = "request_path request" and ?verb = "request_method request"
  show thesis
  proof (cases "?path \<in> {''/api/execute'', ''/api/command''}")
    case True
    then show thesis
      using that(1,3) by (cases "serves_method axum ''POST'' ?verb"; cases "extract_json axum MAX_BODY_BYTES request")
        (auto simp: eval)
  next
    case other: False
    show thesis
    proof (cases "?path = ''/api/health''")
      case True
      then show thesis using that(1,2) by (cases "serves_method axum ''GET'' ?verb") (auto simp: eval)
    next
      case False
      with other show thesis
        using that(1,4)
        by (cases "?path = ''/''"; cases "matches_path axum (KEY_PATH @ ''{key}'') ?path"; cases "serves_method axum ''GET'' ?verb";
            cases "extract_path axum (KEY_PATH @ ''{key}'') request") (auto simp: eval)
    qed
  qed
qed


text \<open>C4: no HTTP request, whatever its route, method and body, makes the launcher send the child anything but
  the encoding of a command the public policy allows: the two public entry points guard the
  child with the same list.\<close>

theorem http_requests_guarded:
  assumes "documented_axum axum"
  shows "set (snd (app_world (snd (router axum lib (traced env) request app)))) \<subseteq>
           set (snd (app_world app)) \<union> allowed_requests"
  using assms
proof (cases rule: router_cases [where lib = lib and env = "traced env" and request = request and app = app])
  case (execute r)
  with assms have "valid_utf8 (command r)" by (auto simp: documented_axum_def)
  with execute http_requests_allowed [of "Execute (command r)"] show ?thesis by simp
next
  case (detail key)
  with http_requests_allowed [of "Key_detail key"] show ?thesis by simp
next
  case health
  with http_requests_allowed [of Health] show ?thesis by simp
qed simp

text \<open>C19: only the documented routes reach the child: a request that changes anything is a health check, a
  command posted to one of its two routes with a body of at most 64 KiB, or a key page of one
  path segment; every other request is answered without touching the shared state.\<close>

theorem only_api_routes_change_state:
  assumes "documented_axum axum" and "snd (router axum lib env request app) \<noteq> app"
  shows "request_path request = ''/api/health'' \<and> serves_method axum ''GET'' (request_method request) \<or>
         request_path request \<in> {''/api/execute'', ''/api/command''} \<and>
           serves_method axum ''POST'' (request_method request) \<and> length (request_body request) \<le> 64 * 1024 \<or>
         (\<exists>segment. request_path request = KEY_PATH @ segment \<and> segment \<noteq> [] \<and> CHR ''/'' \<notin> set segment \<and>
           serves_method axum ''GET'' (request_method request))"
  using assms(1)
proof (cases rule: router_cases [where lib = lib and env = env and request = request and app = app])
  case (execute r)
  with assms(1) have "length (request_body request) \<le> MAX_BODY_BYTES" by (auto simp: documented_axum_def)
  with execute show ?thesis by (simp add: limits)
next
  case (detail key)
  with assms(1) show ?thesis by (auto simp: documented_axum_def)
qed (use assms(2) in simp_all)

section \<open>How long an answer is\<close>

lemma length_index_html: "length INDEX_HTML \<le> MAX_RESPONSE_BODY_BYTES"
  unfolding INDEX_HTML_def INDEX_MARKUP_def INDEX_SCRIPT_def by (simp add: limits ELLIPSIS_def EM_DASH_def)

lemma run_handler_bounded:
  "length (body (fst (run_handler axum lib env pattern h request app))) \<le> MAX_RESPONSE_BODY_BYTES \<or>
   snd (run_handler axum lib env pattern h request app) = app \<and>
     (extract_json axum MAX_BODY_BYTES request = Err (fst (run_handler axum lib env pattern h request app)) \<or>
      extract_path axum pattern request = Err (fst (run_handler axum lib env pattern h request app)))"
  by (cases h) (simp_all add: run_handler_def index_def length_index_html handle_call_bounded del: handle_call.simps split: result.split)

text \<open>C26: whatever the request, the child, the framework and the serializer do, every body the launcher
  writes, the static page included, is at most 64 KiB; the only other answers are those the
  framework gives in its own words before a handler runs: no such route, another method, or a
  body or path segment that it cannot extract, and they leave the state as it was.\<close>

theorem http_body_bounded:
  "length (body (fst (router axum lib env request app))) \<le> 64 * 1024 \<or>
   snd (router axum lib env request app) = app \<and>
     (fst (router axum lib env request app) = no_route axum request \<or>
      fst (router axum lib env request app) = wrong_method axum request \<or>
      extract_json axum MAX_BODY_BYTES request = Err (fst (router axum lib env request app)) \<or>
      (\<exists>pattern. extract_path axum pattern request = Err (fst (router axum lib env request app))))"
proof (cases "find (\<lambda>(pattern, _). matches_path axum pattern (request_path request)) ROUTES")
  case None
  then show ?thesis by (simp add: router_def)
next
  case (Some route)
  obtain pattern served h where "route = (pattern, served, h)" by (cases route)
  with Some run_handler_bounded [of axum lib env pattern h request app] show ?thesis
    by (cases "serves_method axum served (request_method request)") (auto simp: router_def limits)
qed

section \<open>A framework that keeps to its documentation\<close>

text \<open>Segments are taken as they are, and a body is a command between its two quotes.\<close>

definition unquoted :: "bytes \<Rightarrow> rstring" where
  "unquoted json = takeWhile (\<lambda>c. c \<noteq> CHR 0x22) (drop (length ''{\"command\":\"'') json)"

definition example_axum :: axum where
  "example_axum =
     \<lparr>serves_method = (=),
      matches_path = (\<lambda>pattern path.
        if pattern = KEY_PATH @ ''{key}''
        then starts_with path KEY_PATH \<and> length KEY_PATH < length path \<and> CHR ''/'' \<notin> set (drop (length KEY_PATH) path)
        else path = pattern),
      extract_path = (\<lambda>_ request. Ok (drop (length KEY_PATH) (request_path request))),
      extract_json = (\<lambda>limit request.
        if limit < length (request_body request) then Err \<lparr>status = PAYLOAD_TOO_LARGE, body = ''length limit exceeded''\<rparr>
        else if content_type request = None \<or> \<not> valid_utf8 (unquoted (request_body request))
          then Err \<lparr>status = BAD_REQUEST, body = ''Failed to parse the request body as JSON''\<rparr>
        else Ok \<lparr>command = unquoted (request_body request)\<rparr>),
      no_route = (\<lambda>_. \<lparr>status = NOT_FOUND, body = []\<rparr>),
      wrong_method = (\<lambda>_. \<lparr>status = BAD_REQUEST, body = []\<rparr>)\<rparr>"

lemma starts_with_KEY_PATH: "starts_with path KEY_PATH \<longleftrightarrow> (\<exists>segment. path = KEY_PATH @ segment)"
  by simp (metis append_eq_conv_conj append_take_drop_id)

lemma documented_example_axum: "documented_axum example_axum"
  by (auto simp: documented_axum_def example_axum_def starts_with_KEY_PATH simp del: starts_with.simps split: if_split_asm)

definition post_command :: "rstring \<Rightarrow> Request" where
  "post_command c =
     \<lparr>request_method = ''POST'', request_path = ''/api/execute'', content_type = Some ''application/json'',
      request_body = ''{\"command\":\"'' @ c @ ''\"}''\<rparr>"

theorem http_requests_guarded_witness:
  "set (snd (app_world (snd (router example_axum example_lib (traced scripted_env) (post_command ''PING'')
     (example_app ([], [])))))) \<subseteq> allowed_requests"
  using http_requests_guarded [OF documented_example_axum, of example_lib scripted_env "post_command ''PING''" "example_app ([], [])"]
  by (simp add: example_app_def)

text \<open>The request of a health check.\<close>

definition get_health :: Request where
  "get_health = \<lparr>request_method = ''GET'', request_path = ''/api/health'', content_type = None, request_body = []\<rparr>"

lemma health_asks_child: "app_world (snd (health example_lib scripted_env (example_app [Simple ''PONG'']))) = []"
  using scripted_reply [OF pong_fits, of "[''PING'']"]
  by (simp add: health_def with_permit_def execute_def example_app_def limits)

theorem only_api_routes_change_state_witness:
  "serves_method example_axum ''GET'' (request_method get_health)"
proof -
  have "router example_axum example_lib scripted_env get_health (example_app [Simple ''PONG'']) =
      health example_lib scripted_env (example_app [Simple ''PONG''])"
    unfolding router_def routes_eval [OF documented_example_axum]
    by (simp add: get_health_def run_handler_def example_axum_def)
  then have "snd (router example_axum example_lib scripted_env get_health (example_app [Simple ''PONG''])) \<noteq>
      example_app [Simple ''PONG'']"
    using health_asks_child by (auto simp: example_app_def)
  from only_api_routes_change_state [OF documented_example_axum this] show ?thesis
    by (auto simp: get_health_def)
qed

end
