(* ===== verification/Timing.thy ===== *)
theory Timing
  imports Launcher_Prelude
begin

text \<open>
  Time as the supervisor and the launcher use it: \<open>Duration\<close> with its order and addition, operations
  that complete after some time or never, and \<open>timeout\<close>.
\<close>

datatype Duration = Duration (millis: nat)

definition from_millis :: "nat \<Rightarrow> Duration" where
  "from_millis n = Duration n"

definition from_secs :: "nat \<Rightarrow> Duration" where
  "from_secs n = Duration (1000 * n)"

instantiation Duration :: linorder
begin

definition less_eq_Duration :: "Duration \<Rightarrow> Duration \<Rightarrow> bool" where
  "d \<le> e \<longleftrightarrow> millis d \<le> millis e"

definition less_Duration :: "Duration \<Rightarrow> Duration \<Rightarrow> bool" where
  "d < e \<longleftrightarrow> millis d < millis e"

instance
  by standard (auto simp: less_eq_Duration_def less_Duration_def Duration.expand)

end

instantiation Duration :: comm_monoid_add
begin

definition zero_Duration :: Duration where
  "0 = Duration 0"

definition plus_Duration :: "Duration \<Rightarrow> Duration \<Rightarrow> Duration" where
  "d + e = Duration (millis d + millis e)"

instance
  by standard (simp_all add: zero_Duration_def plus_Duration_def)

end

lemma millis_simps [simp]:
  "millis (from_millis n) = n" "millis (from_secs n) = 1000 * n" "millis 0 = 0" "millis (d + e) = millis d + millis e"
  by (simp_all add: from_millis_def from_secs_def zero_Duration_def plus_Duration_def)

lemma millis_max [simp]: "millis (max d e) = max (millis d) (millis e)"
  by (simp add: max_def less_eq_Duration_def)

section \<open>Operations that take time\<close>

datatype 'a future = After Duration 'a | Never

text \<open>\<open>timeout(limit, op).await\<close>: the value, when it comes in time, and how long the caller has waited.\<close>

fun timeout :: "Duration \<Rightarrow> 'a future \<Rightarrow> 'a option \<times> Duration" where
  "timeout limit (After t a) = (if t \<le> limit then (Some a, t) else (None, limit))"
| "timeout limit Never = (None, limit)"

fun in_time :: "Duration \<Rightarrow> 'a future \<Rightarrow> bool" where
  "in_time limit (After t a) = (t \<le> limit)"
| "in_time limit Never = False"

lemma timeout_waits: "timeout limit f = (r, t) \<Longrightarrow> t \<le> limit"
  by (cases f) (auto split: if_split_asm)

lemma timeout_None: "fst (timeout limit f) = None \<longleftrightarrow> \<not> in_time limit f"
  by (cases f) simp_all

lemma timeout_cases:
  obtains a t where "timeout limit f = (Some a, t)" "t \<le> limit" "in_time limit f"
    | "timeout limit f = (None, limit)" "\<not> in_time limit f"
  by (cases f) (auto split: if_split_asm)

end
