(* ===== verification/Http_Listener.thy ===== *)
theory Http_Listener
  imports Timing Proxy_System
begin

text \<open>
  The listener of the HTTP API (\<open>http.rs\<close>, \<open>LimitedListener\<close> and \<open>LimitedIo\<close>): a connection holds a permit, and
  its lifetime is limited whatever its two ends do.  A \<open>TcpStream\<close> is the parameter \<open>tcp\<close>: what a
  call returns in the present state of the stream, and the state after it.  Time is the time since
  the start.
\<close>

definition HTTP_CONNECTION_LIFETIME :: Duration where
  [limits]: "HTTP_CONNECTION_LIFETIME = from_secs 30"

section \<open>Input and output with a deadline\<close>

datatype 'a poll = Ready 'a | Pending

datatype io_call = Read nat | Write bytes | Flush | Shutdown

datatype io_value = Received bytes | Written nat | Done

type_synonym io_result = "(io_value, rstring) result poll"

type_synonym 's tcp = "io_call \<Rightarrow> 's \<Rightarrow> io_result \<times> 's"

record 's LimitedIo =
  stream :: 's
  deadline :: Duration

definition LIFETIME_EXCEEDED :: rstring where
  "LIFETIME_EXCEEDED = ''HTTP connection lifetime exceeded''"

definition poll_expired :: "'s LimitedIo \<Rightarrow> Duration \<Rightarrow> (unit, rstring) result" where
  "poll_expired io now = (if deadline io \<le> now then Err LIFETIME_EXCEEDED else Ok ())"

definition poll_stream :: "'s tcp \<Rightarrow> io_call \<Rightarrow> 's LimitedIo \<Rightarrow> io_result \<times> 's LimitedIo" where
  "poll_stream tcp call io = (case tcp call (stream io) of (r, s) \<Rightarrow> (r, io\<lparr>stream := s\<rparr>))"

definition poll_read :: "'s tcp \<Rightarrow> Duration \<Rightarrow> nat \<Rightarrow> 's LimitedIo \<Rightarrow> io_result \<times> 's LimitedIo" where
  "poll_read tcp now n io =
     (case poll_expired io now of
        Err e \<Rightarrow> (Ready (Err e), io)
      | Ok _ \<Rightarrow> poll_stream tcp (Read n) io)"

definition poll_write :: "'s tcp \<Rightarrow> Duration \<Rightarrow> bytes \<Rightarrow> 's LimitedIo \<Rightarrow> io_result \<times> 's LimitedIo" where
  "poll_write tcp now bs io =
     (case poll_expired io now of
        Err e \<Rightarrow> (Ready (Err e), io)
      | Ok _ \<Rightarrow> poll_stream tcp (Write bs) io)"

definition poll_flush :: "'s tcp \<Rightarrow> Duration \<Rightarrow> 's LimitedIo \<Rightarrow> io_result \<times> 's LimitedIo" where
  "poll_flush tcp now io =
     (case poll_expired io now of
        Err e \<Rightarrow> (Ready (Err e), io)
      | Ok _ \<Rightarrow> poll_stream tcp Flush io)"

definition poll_shutdown :: "'s tcp \<Rightarrow> 's LimitedIo \<Rightarrow> io_result \<times> 's LimitedIo" where
  "poll_shutdown tcp io = poll_stream tcp Shutdown io"

fun poll_io :: "'s tcp \<Rightarrow> Duration \<Rightarrow> io_call \<Rightarrow> 's LimitedIo \<Rightarrow> io_result \<times> 's LimitedIo" where
  "poll_io tcp now (Read n) io = poll_read tcp now n io"
| "poll_io tcp now (Write bs) io = poll_write tcp now bs io"
| "poll_io tcp now Flush io = poll_flush tcp now io"
| "poll_io tcp now Shutdown io = poll_shutdown tcp io"

text \<open>The calls of a whole connection, each with its time.\<close>

fun poll_all :: "'s tcp \<Rightarrow> (Duration \<times> io_call) list \<Rightarrow> 's LimitedIo \<Rightarrow> io_result list \<times> 's LimitedIo" where
  "poll_all tcp [] io = ([], io)"
| "poll_all tcp ((now, call) # calls) io =
     (case poll_io tcp now call io of
        (r, io) \<Rightarrow> (case poll_all tcp calls io of (rs, io) \<Rightarrow> (r # rs, io)))"

section \<open>Accepting\<close>

text \<open>\<open>incoming\<close> lists how long each attempt to accept takes and what it yields; when it is exhausted
  nobody connects any more.\<close>

record 's LimitedListener =
  incoming :: "(Duration \<times> ('s, rstring) result) list"
  free_connections :: nat
  connection_lifetime :: Duration

definition with_listener_limits ::
    "(Duration \<times> ('s, rstring) result) list \<Rightarrow> nat \<Rightarrow> Duration \<Rightarrow> 's LimitedListener" where
  "with_listener_limits listener max_connections lifetime =
     \<lparr>incoming = listener, free_connections = max_connections, connection_lifetime = lifetime\<rparr>"

definition new_listener :: "(Duration \<times> ('s, rstring) result) list \<Rightarrow> 's LimitedListener" where
  "new_listener listener = with_listener_limits listener MAX_HTTP_CONNECTIONS HTTP_CONNECTION_LIFETIME"

definition ACCEPT_RETRY_INTERVAL :: Duration where
  [limits]: "ACCEPT_RETRY_INTERVAL = from_millis 100"

fun accept_loop ::
    "Duration \<Rightarrow> Duration \<Rightarrow> (Duration \<times> ('s, rstring) result) list \<Rightarrow>
     ('s LimitedIo \<times> (Duration \<times> ('s, rstring) result) list \<times> Duration) option" where
  "accept_loop lifetime now [] = None"
| "accept_loop lifetime now ((wait, Ok s) # listener) =
     Some (\<lparr>stream = s, deadline = now + wait + lifetime\<rparr>, listener, now + wait)"
| "accept_loop lifetime now ((wait, Err e) # listener) =
     accept_loop lifetime (now + wait + ACCEPT_RETRY_INTERVAL) listener"

text \<open>\<open>None\<close>: the listener still waits, for a permit or for a client.  A connection that ends gives its permit back.\<close>

definition accept_http :: "'s LimitedListener \<Rightarrow> Duration \<Rightarrow> ('s LimitedIo \<times> 's LimitedListener \<times> Duration) option" where
  "accept_http l now =
     (if free_connections l = 0 then None
      else map_option (\<lambda>(io, listener, t).
             (io, l\<lparr>incoming := listener, free_connections := free_connections l - 1\<rparr>, t))
           (accept_loop (connection_lifetime l) now (incoming l)))"

definition drop_io :: "'s LimitedListener \<Rightarrow> 's LimitedListener" where
  "drop_io l = l\<lparr>free_connections := free_connections l + 1\<rparr>"

section \<open>The lifetime of a connection\<close>

text \<open>The reference: the calls made on the bare stream.\<close>

fun admitted :: "Duration \<Rightarrow> Duration \<times> io_call \<Rightarrow> bool" where
  "admitted d (now, call) \<longleftrightarrow> now < d \<or> call = Shutdown"

fun bare_calls :: "'s tcp \<Rightarrow> io_call list \<Rightarrow> 's \<Rightarrow> 's" where
  "bare_calls tcp [] s = s"
| "bare_calls tcp (call # calls) s = bare_calls tcp calls (snd (tcp call s))"

lemma poll_io_admitted:
  "poll_io tcp now call io =
     (if admitted (deadline io) (now, call) then poll_stream tcp call io else (Ready (Err LIFETIME_EXCEEDED), io))"
  by (cases call) (auto simp: poll_read_def poll_write_def poll_flush_def poll_shutdown_def poll_expired_def)

lemma poll_stream_io:
  "snd (poll_stream tcp call io) = io\<lparr>stream := snd (tcp call (stream io))\<rparr>"
  by (simp add: poll_stream_def split: prod.split)

lemma poll_all_Cons: "snd (poll_all tcp ((now, call) # calls) io) = snd (poll_all tcp calls (snd (poll_io tcp now call io)))"
  by (simp split: prod.split)

lemma poll_all_stream:
  "snd (poll_all tcp calls io) =
     io\<lparr>stream := bare_calls tcp (map snd (filter (admitted (deadline io)) calls)) (stream io)\<rparr>"
proof (induction calls arbitrary: io)
  case (Cons c calls)
  obtain now call where c: "c = (now, call)" by (cases c)
  show ?case
  proof (cases "admitted (deadline io) c")
    case True
    then show ?thesis
      unfolding c poll_all_Cons Cons.IH
      by (simp add: poll_io_admitted poll_stream_io del: admitted.simps)
  next
    case False
    then show ?thesis
      unfolding c poll_all_Cons Cons.IH
      by (simp add: poll_io_admitted del: admitted.simps)
  qed
qed simp

lemma poll_all_late:
  "list_all (\<lambda>c. \<not> admitted (deadline io) c) calls \<Longrightarrow>
   poll_all tcp calls io = (replicate (length calls) (Ready (Err LIFETIME_EXCEEDED)), io)"
  by (induction calls) (auto simp del: admitted.simps simp: poll_io_admitted)

lemma accept_loop_deadline:
  "accept_loop lifetime now listener = Some (io, rest, t) \<Longrightarrow> deadline io = t + lifetime \<and> now \<le> t"
proof (induction lifetime now listener rule: accept_loop.induct)
  case (3 lifetime now wait e listener)
  then have "deadline io = t + lifetime" "now + wait + ACCEPT_RETRY_INTERVAL \<le> t" by simp_all
  then show ?case by (simp add: less_eq_Duration_def)
qed (auto simp: less_eq_Duration_def)

lemma accept_http_cases:
  assumes "accept_http l now = Some (io, l', t)"
  shows "deadline io = t + connection_lifetime l" "free_connections l = Suc (free_connections l')"
    "connection_lifetime l' = connection_lifetime l" "drop_io l' = l\<lparr>incoming := incoming l'\<rparr>"
  using assms by (auto simp: accept_http_def drop_io_def split: if_split_asm dest: accept_loop_deadline)

text \<open>C33: no HTTP connection outlives its thirty seconds: on its stream exactly the calls made before the
  deadline, and the closing of it, take place; and once the deadline has passed every other call
  fails with the same error.  Accepting takes one permit, and failed attempts are retried without
  one being lost.\<close>

theorem http_connection_lifetime:
  assumes "accept_http l now = Some (io, l', t)" and "connection_lifetime l = HTTP_CONNECTION_LIFETIME"
  shows "stream (snd (poll_all tcp calls io)) =
      bare_calls tcp (map snd (filter (admitted (t + HTTP_CONNECTION_LIFETIME)) calls)) (stream io) \<and>
    (list_all (\<lambda>(d, call). t + HTTP_CONNECTION_LIFETIME \<le> d \<and> call \<noteq> Shutdown) late \<longrightarrow>
      poll_all tcp late io = (replicate (length late) (Ready (Err LIFETIME_EXCEEDED)), io)) \<and>
    drop_io l' = l\<lparr>incoming := incoming l'\<rparr>"
proof -
  note a = accept_http_cases [OF assms(1)]
  have "list_all (\<lambda>(d, call). t + HTTP_CONNECTION_LIFETIME \<le> d \<and> call \<noteq> Shutdown) late \<Longrightarrow>
      list_all (\<lambda>c. \<not> admitted (deadline io) c) late"
    by (erule list.pred_mono_strong) (auto simp: a assms(2))
  then show ?thesis
    by (simp add: poll_all_stream poll_all_late a assms(2))
qed

text \<open>A stream that counts the calls made on it.\<close>

definition counting_tcp :: "nat tcp" where
  "counting_tcp call n = (Ready (Ok Done), Suc n)"

definition flaky_listener :: "nat LimitedListener" where
  "flaky_listener = new_listener [(from_secs 1, Err ''too many open files''), (from_secs 2, Ok 0)]"

lemma flaky_accept:
  "accept_http flaky_listener 0 =
     Some (\<lparr>stream = 0, deadline = from_millis 33100\<rparr>, flaky_listener\<lparr>incoming := [], free_connections := 31\<rparr>, from_millis 3100)"
  by (simp add: accept_http_def flaky_listener_def new_listener_def with_listener_limits_def limits from_secs_def
      from_millis_def plus_Duration_def zero_Duration_def)

theorem http_connection_lifetime_witness:
  "stream (snd (poll_all counting_tcp [(from_secs 4, Flush), (from_secs 40, Flush), (from_secs 41, Shutdown)]
     \<lparr>stream = 0, deadline = from_millis 33100\<rparr>)) = 2"
  using http_connection_lifetime [OF flaky_accept, of counting_tcp
      "[(from_secs 4, Flush), (from_secs 40, Flush), (from_secs 41, Shutdown)]" "[]"]
  by (simp add: flaky_listener_def new_listener_def with_listener_limits_def counting_tcp_def less_Duration_def limits)

end
