(* ===== verification/Keys_Tests.thy ===== *)
theory Keys_Tests
  imports Small_Replies
begin

text \<open>
  The repository's own tests of the key pages (module \<open>tests\<close> of \<open>keys.rs\<close>) against the mock child, each
  as a predicate on the model, and that it holds, whatever the serializers are.
\<close>

section \<open>The tests\<close>

definition mock_before :: "MockState \<Rightarrow> mock_world" where
  "mock_before st = \<lparr>mock_session = \<lparr>mock_state = st, selected = 0, negotiated = 2\<rparr>, unread = [], delivered = []\<rparr>"

text \<open>\<open>detail[name]\<close> of a JSON value.\<close>

fun field :: "json \<Rightarrow> rstring \<Rightarrow> json" where
  "field (JObject es) name = (case map_of es name of Some j \<Rightarrow> j | None \<Rightarrow> JNull)"
| "field _ name = JNull"

fun string_length :: "json \<Rightarrow> nat option" where
  "string_length (JString s) = Some (length s)"
| "string_length _ = None"

fun array_length :: "json \<Rightarrow> nat option" where
  "array_length (JArray js) = Some (length js)"
| "array_length _ = None"

fun mentions :: "rstring \<Rightarrow> json \<Rightarrow> bool" where
  "mentions part (JString s) = contains part s"
| "mentions part _ = False"

type_synonym json_lib = "(json \<Rightarrow> (rstring, rstring) result) \<times> (RespValue \<Rightarrow> rstring)"

text \<open>\<open>detail(..).await.unwrap().unwrap()\<close>, and the commands the mock has received.\<close>

definition detail_shows :: "json_lib \<Rightarrow> MockState \<Rightarrow> rstring \<Rightarrow> (json \<Rightarrow> rstring list \<Rightarrow> bool) \<Rightarrow> bool" where
  "detail_shows lib st key check \<longleftrightarrow>
     (case detail (fst lib) (snd lib) mock_env ''127.0.0.1:6380'' key (mock_before st) of
        (Ok (Some found), w) \<Rightarrow> check found (received_commands (mock_state (mock_session w)))
      | _ \<Rightarrow> False)"

definition missing_keys_report_no_detail :: "json_lib \<Rightarrow> bool" where
  "missing_keys_report_no_detail lib \<longleftrightarrow>
     fst (detail (fst lib) (snd lib) mock_env ''127.0.0.1:6380'' ''absent'' (mock_before empty_mock)) = Ok None"

definition strings_are_previewed_with_getrange_not_get :: "json_lib \<Rightarrow> bool" where
  "strings_are_previewed_with_getrange_not_get lib \<longleftrightarrow>
     (let value = replicate (nat STRING_PREVIEW_BYTES + 500) (CHR ''s'') in
      detail_shows lib (seed_string ''big-string'' value empty_mock) ''big-string'' (\<lambda>detail commands.
        field detail ''length'' = JInt (int (length value)) \<and>
        field detail ''returned'' = JInt STRING_PREVIEW_BYTES \<and>
        field detail ''truncated'' = JBool True \<and>
        string_length (field detail ''value'') = Some (nat STRING_PREVIEW_BYTES) \<and>
        ''GETRANGE'' \<in> set commands \<and> ''GET'' \<notin> set commands))"

definition lists_are_bounded_to_one_page_with_a_real_total :: "json_lib \<Rightarrow> bool" where
  "lists_are_bounded_to_one_page_with_a_real_total lib \<longleftrightarrow>
     detail_shows lib (seed_list ''big-list'' (map (\<lambda>index. ''item-'' @ show_nat index) [0..<250]) empty_mock) ''big-list''
       (\<lambda>detail commands.
        field detail ''length'' = JInt 250 \<and>
        field detail ''returned'' = JInt PAGE_LIMIT \<and>
        field detail ''limit'' = JInt PAGE_LIMIT \<and>
        field detail ''truncated'' = JBool True \<and>
        array_length (field detail ''value'') = Some 100 \<and>
        field detail ''cursor'' = JNull)"

definition sorted_sets_are_bounded_to_one_page_of_member_score_pairs :: "json_lib \<Rightarrow> bool" where
  "sorted_sets_are_bounded_to_one_page_of_member_score_pairs lib \<longleftrightarrow>
     detail_shows lib (seed_zset ''big-zset'' (map (\<lambda>index. (''member-'' @ show_nat index, show_nat index)) [0..<150]) empty_mock)
       ''big-zset''
       (\<lambda>detail commands.
        field detail ''length'' = JInt 150 \<and>
        field detail ''returned'' = JInt PAGE_LIMIT \<and>
        field detail ''truncated'' = JBool True \<and>
        array_length (field detail ''value'') = Some 200)"

text \<open>The format \<open>{index:03}\<close>.\<close>

definition padded :: "nat \<Rightarrow> rstring" where
  "padded index = replicate (3 - length (show_nat index)) (CHR ''0'') @ show_nat index"

definition sets_report_metadata_without_scanning_values :: "json_lib \<Rightarrow> bool" where
  "sets_report_metadata_without_scanning_values lib \<longleftrightarrow>
     detail_shows lib (seed_set ''big-set'' (map (\<lambda>index. ''member-'' @ padded index) [0..<150]) empty_mock) ''big-set''
       (\<lambda>detail commands.
        field detail ''length'' = JInt 150 \<and>
        field detail ''returned'' = JInt 0 \<and>
        field detail ''value'' = JNull \<and>
        field detail ''value_omitted'' = JBool True \<and>
        mentions ''SSCAN'' (field detail ''detail'') \<and>
        commands = [''TYPE'', ''TTL'', ''SCARD''])"

definition hashes_report_metadata_without_scanning_values :: "json_lib \<Rightarrow> bool" where
  "hashes_report_metadata_without_scanning_values lib \<longleftrightarrow>
     detail_shows lib
       (seed_hash ''big-hash'' (map (\<lambda>index. (''field-'' @ padded index, ''value-'' @ show_nat index)) [0..<150]) empty_mock)
       ''big-hash''
       (\<lambda>detail commands.
        field detail ''length'' = JInt 150 \<and>
        field detail ''returned'' = JInt 0 \<and>
        field detail ''value'' = JNull \<and>
        field detail ''value_omitted'' = JBool True \<and>
        mentions ''HSCAN'' (field detail ''detail'') \<and>
        commands = [''TYPE'', ''TTL'', ''HLEN''])"

definition streams_are_read_with_a_bounded_count :: "json_lib \<Rightarrow> bool" where
  "streams_are_read_with_a_bounded_count lib \<longleftrightarrow>
     detail_shows lib
       (seed_stream ''big-stream''
         (map (\<lambda>index. (show_nat index @ ''-0'', [''field'', ''value-'' @ show_nat index])) [0..<250]) empty_mock)
       ''big-stream''
       (\<lambda>detail commands.
        field detail ''length'' = JInt 250 \<and>
        field detail ''returned'' = JInt PAGE_LIMIT \<and>
        field detail ''truncated'' = JBool True \<and>
        array_length (field detail ''value'') = Some 100)"

definition small_collections_are_reported_as_complete :: "json_lib \<Rightarrow> bool" where
  "small_collections_are_reported_as_complete lib \<longleftrightarrow>
     detail_shows lib (seed_list ''small-list'' [''a'', ''b''] empty_mock) ''small-list''
       (\<lambda>detail commands.
        field detail ''length'' = JInt 2 \<and>
        field detail ''returned'' = JInt 2 \<and>
        field detail ''truncated'' = JBool False)"

section \<open>Their results\<close>

lemma map_of_object_insert: "map_of (object_insert k v es) = (map_of es)(k \<mapsto> v)"
  by (induction k v es rule: object_insert.induct) (auto simp: fun_eq_iff)

lemma detail_fields:
  "field (detail_object key kind ttl page) ''length'' = JInt (page_total page)"
  "field (detail_object key kind ttl page) ''returned'' = JInt (returned page)"
  "field (detail_object key kind ttl page) ''limit'' = JInt (page_limit page)"
  "field (detail_object key kind ttl page) ''truncated'' = JBool (truncated page)"
  "field (detail_object key kind ttl page) ''cursor'' = next_cursor page"
  "field (detail_object key kind ttl page) ''value'' = page_value page"
  "field (detail_object key kind ttl page) ''value_omitted'' = JBool (value_omitted page)"
  "field (detail_object key kind ttl page) ''detail'' = page_detail page"
  by (simp_all add: detail_object_def json_object_def map_of_object_insert)

lemma detail_showsI:
  assumes "data st key = Some v" and "sendable_key key \<and> \<not> eq_ignore_ascii_case key ''COUNT''" and "page_fits (fst lib) v j"
    and "commands st = []"
    and "check (detail_object key (type_name v) (-1) (stored_page v j)) ([''TYPE'', ''TTL''] @ page_commands v)"
  shows "detail_shows lib st key check"
proof -
  from assms(1,4) have w: "stored (mock_before st) key = Some v" "received (mock_before st) = []"
    by (simp_all add: mock_before_def stored_def received_def)
  from mock_detail [OF w(1) _ _ assms(3), of "snd lib" "''127.0.0.1:6380''"] assms(2) w(2) obtain w' where
    "detail (fst lib) (snd lib) mock_env ''127.0.0.1:6380'' key (mock_before st) =
       (Ok (Some (detail_object key (type_name v) (-1) (stored_page v j))), w')"
    "received w' = [''TYPE'', ''TTL''] @ page_commands v" by auto
  with assms(5) show ?thesis by (simp add: detail_shows_def received_def received_commands_def)
qed

lemma page_fitsI:
  assumes "shown v = Some reply" and "int (extent v) \<le> I64_MAX" and "bounded_reply h n w reply" and "h \<le> 10" and "n \<le> 4000"
    and "w \<le> 1000000" and "converts k reply j" and "k \<le> KEY_DETAIL_JSON_VALUE_BYTES"
  shows "page_fits t v j"
  using assms bounded_reply_fits [OF assms(3), of KEY_DETAIL_RESPONSE_BYTES] converts_within [OF assms(7,8)]
  by (simp add: page_fits_def limits)

text \<open>The page of every kind of key in the tests.\<close>

definition text_char :: "u8 \<Rightarrow> bool" where
  "text_char c \<longleftrightarrow> 32 \<le> code c \<and> code c < 128 \<and> code c \<noteq> 34 \<and> code c \<noteq> 92"

lemma plainI:
  assumes "list_all text_char s"
  shows "plain s"
proof -
  have "escaped_length c = 1 \<and> code c < 128" if "c \<in> set s" for c
    using assms that by (auto simp: list_all_iff text_char_def escaped_length_def)
  then show ?thesis using valid_utf8_ascii_string [of s] by (simp add: plain_def list_all_iff)
qed

lemma plain_digits [simp]: "list_all text_char (show_nat n)"
  unfolding list_all_iff
proof
  fix c
  assume "c \<in> set (show_nat n)"
  from show_nat_digits [OF this] show "text_char c" by (auto simp: is_digit_iff text_char_def)
qed

lemma short_digits [simp]: "i < 1000 \<Longrightarrow> 3 \<le> n \<Longrightarrow> length (show_nat i) \<le> n"
  using length_show_nat [of i 3] by simp

text \<open>Items of a page: plain text of at most 60 bytes.\<close>

definition item :: "rstring \<Rightarrow> bool" where
  "item s \<longleftrightarrow> list_all text_char s \<and> length s \<le> 60"

lemma item_numbered:
  assumes "i < 1000"
  shows "item (show_nat i)" "item (''item-'' @ show_nat i)" "item (''member-'' @ show_nat i)" "item (''value-'' @ show_nat i)"
    "item (show_nat i @ ''-0'')"
  using short_digits [OF assms, of 3] plain_digits [of i] by (simp_all add: item_def text_char_def del: plain_digits)

lemmas item_shapes [simp] = item_numbered [simplified]

lemma item_literal [simp]: "item ''a''" "item ''b''" "item ''field''"
  by (simp_all add: item_def text_char_def)

lemma items_page:
  assumes "list_all item xs" and "length xs \<le> 200"
  shows "bounded_reply 1 401 15015 (Array (Some (map bulk xs)))" "converts 12602 (Array (Some (map bulk xs))) (JArray (map JString xs))"
proof -
  show "bounded_reply 1 401 15015 (Array (Some (map bulk xs)))"
    by (rule bounded_reply_mono [OF bounded_array [where m = 200 and h = 0 and n = 1 and w = 75]])
      (use assms bounded_text [of _ 60] in \<open>auto simp: list_all_iff item_def\<close>)
  have "list_all2 (converts 62) (map bulk xs) (map JString xs)"
    using assms(1) by (induction xs) (auto simp: item_def intro: converts_text plainI)
  then show "converts 12602 (Array (Some (map bulk xs))) (JArray (map JString xs))"
    using assms(2) by (rule_tac converts_array) auto
qed

lemma items_fit:
  assumes "shown v = Some (Array (Some (map bulk xs)))" and "list_all item xs" and "length xs \<le> 200" and "extent v \<le> 1000"
  shows "page_fits t v (JArray (map JString xs))"
  by (rule page_fitsI [OF assms(1) _ items_page(1) [OF assms(2,3)] _ _ _ items_page(2) [OF assms(2,3)]])
    (use assms(4) in \<open>simp_all add: limits\<close>)

lemma list_fits:
  assumes "list_all item xs" and "length xs \<le> 1000"
  shows "page_fits t (List xs) (JArray (map JString (take 100 xs)))"
  using assms by (intro items_fit) (auto simp: list_all_iff dest: in_set_takeD)

lemma string_test_holds: "strings_are_previewed_with_getrange_not_get lib"
proof -
  let ?preview = "replicate (nat STRING_PREVIEW_BYTES + 500) (CHR ''s'')"
  have "converts 5000 (bulk (take 4096 ?preview)) (JString (take 4096 ?preview))"
    by (intro converts_text plainI) (auto simp: take_replicate text_char_def list_all_iff)
  moreover have "bounded_reply 0 1 5015 (bulk (take 4096 ?preview))"
    using bounded_text [of "take 4096 ?preview" 5000] by simp
  ultimately have "page_fits (fst lib) (Str ?preview) (JString (take 4096 ?preview))"
    by (intro page_fitsI [where k = 5000 and w = 5015 and n = 1 and h = 0]) (simp_all add: limits)
  then show ?thesis
    unfolding strings_are_previewed_with_getrange_not_get_def Let_def
    by (intro detail_showsI [where v = "Str ?preview"])
      (simp_all add: seed_string_def seed_def empty_mock_def sendable_key_def eq_ignore_ascii_case_def to_ascii_uppercase_def
        ascii_upper_other detail_fields bounded_page_def limits, simp_all?)
qed

lemmas seed_eval = seed_list_def seed_zset_def seed_set_def seed_hash_def seed_stream_def seed_def empty_mock_def sendable_key_def
  eq_ignore_ascii_case_def to_ascii_uppercase_def ascii_upper_other detail_fields bounded_page_def omitted_page_def limits

text \<open>A test whose key is sent as it is.\<close>

lemma list_test_holds: "lists_are_bounded_to_one_page_with_a_real_total lib"
  unfolding lists_are_bounded_to_one_page_with_a_real_total_def
  by (rule detail_showsI [OF _ _ list_fits]) (simp_all add: seed_eval list_all_iff, simp_all?)

lemma small_test_holds: "small_collections_are_reported_as_complete lib"
  unfolding small_collections_are_reported_as_complete_def
  by (rule detail_showsI [OF _ _ list_fits]) (simp_all add: seed_eval, simp_all?)

lemma map_bulk_pairs:
  "map bulk (concat (map (\<lambda>(m, score). [m, score]) es)) = concat (map (\<lambda>(m, score). [bulk m, bulk score]) es)"
  by (induction es) auto

lemma zset_fits:
  assumes "list_all (\<lambda>(m, score). item m \<and> item score) es" and "length es \<le> 1000"
  shows "page_fits t (ZSet es) (JArray (map JString (concat (map (\<lambda>(m, score). [m, score]) (take 100 es)))))"
proof (rule items_fit)
  show "list_all item (concat (map (\<lambda>(m, score). [m, score]) (take 100 es)))"
    using assms(1) by (fastforce simp: list_all_iff dest: in_set_takeD)
  show "length (concat (map (\<lambda>(m, score). [m, score]) (take 100 es))) \<le> 200"
    using length_pairs [of "\<lambda>a. a" "\<lambda>a. a" "take 100 es"] by simp
qed (use assms(2) in \<open>simp_all only: shown.simps map_bulk_pairs extent.simps\<close>)

lemma length_unzipped: "length (concat (map (\<lambda>(a, b). [a, b]) es)) = 2 * length es"
  by (induction es) auto

lemma zset_test_holds: "sorted_sets_are_bounded_to_one_page_of_member_score_pairs lib"
  unfolding sorted_sets_are_bounded_to_one_page_of_member_score_pairs_def
  by (rule detail_showsI [OF _ _ zset_fits])
    (simp_all add: seed_eval list_all_iff length_unzipped, simp_all?)

text \<open>A page of a stream.\<close>

definition entry_json :: "rstring \<times> rstring list \<Rightarrow> json" where
  "entry_json e = JArray [JString (fst e), JArray (map JString (snd e))]"

lemma entry_fits:
  assumes "item (fst e)" and "list_all item (snd e)" and "length (snd e) \<le> 2"
  shows "bounded_reply 2 13 505 (stream_entry e)" "converts 300 (stream_entry e) (entry_json e)"
proof -
  have fields: "bounded_reply 1 5 245 (Array (Some (map bulk (snd e))))"
    by (rule bounded_reply_mono [OF bounded_array [where m = 2 and h = 0 and n = 1 and w = 75]])
      (use assms bounded_text [of _ 60] in \<open>auto simp: list_all_iff item_def\<close>)
  have name: "bounded_reply 1 5 245 (bulk (fst e))"
    by (rule bounded_reply_mono [OF bounded_text [of _ 60]]) (use assms(1) in \<open>simp_all add: item_def\<close>)
  show "bounded_reply 2 13 505 (stream_entry e)"
    unfolding stream_entry_def using fields name
    by (intro bounded_reply_mono [OF bounded_array [where m = 2 and h = 1 and n = 5 and w = 245]]) simp_all
  have "list_all2 (converts 62) (map bulk (snd e)) (map JString (snd e))"
    using assms(2) by (induction "snd e" arbitrary: e) (auto simp: list_all2_conv_all_nth item_def list_all_iff intro!: converts_text plainI)
  then have "converts 140 (Array (Some (map bulk (snd e)))) (JArray (map JString (snd e)))"
    by (rule converts_array) (use assms(3) in simp)
  moreover have "converts 140 (bulk (fst e)) (JString (fst e))"
    using assms(1) by (auto simp: item_def intro: converts_text plainI)
  ultimately show "converts 300 (stream_entry e) (entry_json e)"
    unfolding stream_entry_def entry_json_def by (intro converts_array [where k = 140]) simp_all
qed

lemma entries_page:
  assumes "list_all (\<lambda>e. item (fst e) \<and> list_all item (snd e) \<and> length (snd e) \<le> 2) es" and "length es \<le> 100"
  shows "bounded_reply 3 1401 50515 (Array (Some (map stream_entry es)))"
    "converts 30102 (Array (Some (map stream_entry es))) (JArray (map entry_json es))"
proof -
  have "list_all2 (converts 300) (map stream_entry es) (map entry_json es)"
    using assms(1) by (simp add: list_all2_conv_all_nth list_all_length entry_fits(2))
  then show "converts 30102 (Array (Some (map stream_entry es))) (JArray (map entry_json es))"
    by (rule converts_array) (use assms(2) in simp)
  show "bounded_reply 3 1401 50515 (Array (Some (map stream_entry es)))"
    by (rule bounded_reply_mono [OF bounded_array [where m = 100 and h = 2 and n = 13 and w = 505]])
      (use assms entry_fits(1) in \<open>auto simp: list_all_iff\<close>)
qed

lemma stream_fits:
  assumes "list_all (\<lambda>e. item (fst e) \<and> list_all item (snd e) \<and> length (snd e) \<le> 2) es" and "length es \<le> 1000"
  shows "page_fits t (Stream es) (JArray (map entry_json (take 100 es)))"
proof -
  have "list_all (\<lambda>e. item (fst e) \<and> list_all item (snd e) \<and> length (snd e) \<le> 2) (take 100 es)"
    using assms(1) by (auto simp: list_all_iff dest: in_set_takeD)
  moreover have "length (take 100 es) \<le> 100" by simp
  ultimately show ?thesis
    using entries_page [of "take 100 es"] assms(2)
    by (intro page_fitsI [where k = 30102 and w = 50515 and n = 1401 and h = 3]) (simp_all add: limits)
qed

lemma stream_test_holds: "streams_are_read_with_a_bounded_count lib"
  unfolding streams_are_read_with_a_bounded_count_def
  by (rule detail_showsI [OF _ _ stream_fits])
    (simp_all add: seed_eval list_all_iff, simp_all?)

text \<open>Sets and hashes: the padded names are different.\<close>

lemma padded_digits:
  assumes "i < 1000"
  shows "padded i = [digit_char (i div 100), digit_char (i div 10 mod 10), digit_char (i mod 10)]"
proof -
  consider "i < 10" | "10 \<le> i" "i < 100" | "100 \<le> i" by linarith
  then show ?thesis
  proof cases
    case 1
    then show ?thesis by (simp add: padded_def show_nat.simps [of i] numeral_2_eq_2)
  next
    case 2
    then have "i div 10 < 10" by simp
    with 2 show ?thesis by (simp add: padded_def show_nat.simps [of i] show_nat.simps [of "i div 10"])
  next
    case 3
    with assms have "i div 10 div 10 < 10" "\<not> i div 10 < 10" by simp_all
    with 3 show ?thesis
      by (simp add: padded_def show_nat.simps [of i] show_nat.simps [of "i div 10"] show_nat.simps [of "i div 100"]
          div_mult2_eq [symmetric])
  qed
qed

lemma digit_char_inject: "a < 10 \<Longrightarrow> b < 10 \<Longrightarrow> digit_char a = digit_char b \<longleftrightarrow> a = b"
  using digit_val_digit_char by (metis option.inject)

lemma padded_inject:
  assumes "padded i = padded k" and "i < 1000" and "k < 1000"
  shows "i = k"
proof -
  have "i div 100 = k div 100" "i div 10 mod 10 = k div 10 mod 10" "i mod 10 = k mod 10"
    using assms by (simp_all add: padded_digits digit_char_inject)
  moreover have "j = 100 * (j div 100) + 10 * (j div 10 mod 10) + j mod 10" for j :: nat
    using div_mult2_eq [of j 10 10, simplified] div_mult_mod_eq [of "j div 10" 10] div_mult_mod_eq [of j 10] by linarith
  ultimately show ?thesis by metis
qed

lemma distinct_padded: "n \<le> 1000 \<Longrightarrow> distinct (map (\<lambda>i. prefix @ padded i) [0..<n])"
  by (auto simp: distinct_map inj_on_def dest: padded_inject)

lemma omitted_fits: "extent v \<le> 1000 \<Longrightarrow> shown v = None \<Longrightarrow> page_fits t v j"
  by (simp add: page_fits_def limits)

lemma members_of: "length (sort (remdups (map (\<lambda>i. prefix @ padded i) [0..<150]))) = 150"
  using distinct_padded [of 150 prefix] by (simp add: distinct_remdups_id)

lemma set_test_holds: "sets_report_metadata_without_scanning_values lib"
  unfolding sets_report_metadata_without_scanning_values_def
  by (rule detail_showsI [OF _ _ omitted_fits, where v = "SetOf (sort (remdups (map (\<lambda>i. ''member-'' @ padded i) [0..<150])))"])
    (simp_all add: seed_eval members_of [of "''member-''", simplified] SET_OMITTED_def, simp_all?)

lemma length_object_insert: "k \<notin> fst ` set es \<Longrightarrow> length (object_insert k v es) = Suc (length es)"
  by (induction k v es rule: object_insert.induct) auto

lemma keys_object_insert: "fst ` set (object_insert k v es) = insert k (fst ` set es)"
  by (induction k v es rule: object_insert.induct) auto

lemma length_inserted:
  "distinct (map fst xs) \<Longrightarrow> fst ` set xs \<inter> fst ` set es = {} \<Longrightarrow>
     length (fold (\<lambda>(k, v). object_insert k v) xs es) = length xs + length es"
proof (induction xs arbitrary: es)
  case (Cons x xs)
  then have "fst ` set xs \<inter> fst ` set (object_insert (fst x) (snd x) es) = {}"
    by (auto simp: keys_object_insert)
  with Cons show ?case by (auto simp: length_object_insert split_def)
qed simp

lemma fields_of:
  "length (fold (\<lambda>(k, v). object_insert k v) (map (\<lambda>i. (''field-'' @ padded i, f i)) [0..<150]) []) = 150"
  using distinct_padded [of 150 "''field-''"] by (subst length_inserted) (simp_all add: o_def)

lemma hash_test_holds: "hashes_report_metadata_without_scanning_values lib"
  unfolding hashes_report_metadata_without_scanning_values_def
  by (rule detail_showsI [OF _ _ omitted_fits, where
        v = "Hash (fold (\<lambda>(k, v). object_insert k v) (map (\<lambda>i. (''field-'' @ padded i, ''value-'' @ show_nat i)) [0..<150]) [])"])
    (simp_all add: seed_eval fields_of [of "\<lambda>i. ''value-'' @ show_nat i", simplified] HASH_OMITTED_def, simp_all?)

lemma missing_test_holds: "missing_keys_report_no_detail lib"
proof -
  let ?w = "mock_before empty_mock"
  have "fits_budget KEY_DETAIL_RESPONSE_BYTES (Simple ''none'')"
    by (simp add: fits_budget_def all_values.simps [of admissible] leaf_shape text_line_def limits)
  moreover have "dispatch_read (mock_state (mock_session ?w)) ''TYPE'' [''absent''] = Some (Simple ''none'')"
    by (simp add: dispatch_read_def on_key_def mock_before_def empty_mock_def)
  ultimately obtain w' where "key_execute mock_env ''127.0.0.1:6380'' [''TYPE'', ''absent''] ?w = (Ok (Simple ''none''), w')"
    using mock_read [of "''TYPE''" "[''absent'']" ?w "Simple ''none''" "''127.0.0.1:6380''"] by (auto simp: read_names_def limits)
  then show ?thesis by (simp add: missing_keys_report_no_detail_def detail_def as_string_def)
qed

end
