(* ===== verification/Http_Tests.thy ===== *)
theory Http_Tests
  imports Http_Router Http_Listener Keys_Tests
begin

text \<open>
  The repository's own tests of the HTTP service (module \<open>tests\<close> of \<open>http.rs\<close>), each as a predicate on
  the model.  The service runs in front of the mock child; the web framework and the JSON library
  are the parameter \<open>web\<close>.  Left out is the test that runs sixteen requests at once.
\<close>

section \<open>The client of the tests\<close>

record web =
  framework :: axum
  library :: serializers
  from_json :: "bytes \<Rightarrow> json option"

text \<open>\<open>call\<close>: the request, and what the test checks of status and body, and of the state after it.\<close>

definition call_shows ::
    "web \<Rightarrow> Http_Router.Request \<Rightarrow> mock_world app \<Rightarrow> (StatusCode \<Rightarrow> json \<Rightarrow> mock_world app \<Rightarrow> bool) \<Rightarrow> bool" where
  "call_shows web request app check \<longleftrightarrow>
     (case router (framework web) (library web) mock_env request app of
        (response, app) \<Rightarrow>
          (case from_json web (body response) of
             Some j \<Rightarrow> check (status response) j app
           | None \<Rightarrow> False))"

definition execute_request :: "rstring \<Rightarrow> Http_Router.Request" where
  "execute_request cmd =
     \<lparr>request_method = ''POST'', request_path = ''/api/execute'', content_type = Some ''application/json'',
      request_body = ''{\"command\":'' @ quoted cmd @ ''}''\<rparr>"

definition get_request :: "rstring \<Rightarrow> Http_Router.Request" where
  "get_request path = \<lparr>request_method = ''GET'', request_path = path, content_type = None, request_body = []\<rparr>"

definition test_state :: "MockState \<Rightarrow> rstring \<Rightarrow> mock_world app" where
  "test_state mock name =
     \<lparr>resp_addr = ''127.0.0.1:6380'', version = name, free_permits = 4, app_world = mock_before mock\<rparr>"

definition upstream_of :: "mock_world app \<Rightarrow> MockState" where
  "upstream_of app = mock_state (mock_session (app_world app))"

text \<open>One request after the other, each checked the same way.\<close>

fun each_call :: "web \<Rightarrow> Http_Router.Request list \<Rightarrow> mock_world app \<Rightarrow> (StatusCode \<Rightarrow> json \<Rightarrow> bool) \<Rightarrow> (mock_world app \<Rightarrow> bool) \<Rightarrow> bool" where
  "each_call web [] app check finally_holds = finally_holds app"
| "each_call web (request # requests) app check finally_holds =
     call_shows web request app (\<lambda>status body app. check status body \<and> each_call web requests app check finally_holds)"

section \<open>The tests\<close>

definition forbidden_over_http :: "rstring list" where
  "forbidden_over_http =
     [''SHUTDOWN'',
      ''PLUGIN LIST'',
      ''AUDIT START'',
      ''MIGRATE.START redis://example.invalid'',
      ''migrate start redis://example.invalid'',
      ''LRANGE list 0 -1'',
      ''XRANGE stream - +'',
      ''COPY source destination DB 16'',
      ''XTRIM stream MAXLEN ='',
      ''XTRIM stream MAXLEN 100 LIMIT 10'',
      ''XADD stream MAXLEN = 100 LIMIT 10 * field value'',
      ''XADD stream 18446744073709551615-18446744073709551615 field value'',
      ''SETBIT bitmap 4294967288 1'',
      ''SCAN 0 COUNT 100'',
      ''SSCAN set 0 COUNT 100'',
      ''HSCAN hash 0 COUNT 100'',
      ''ZSCAN zset 0 COUNT 100'',
      ''XREAD COUNT 10 STREAMS stream 0-0'',
      ''XREAD STREAMS COUNT 10 stream 0-0'',
      ''XREADGROUP GROUP group consumer COUNT 10 STREAMS stream >'']"

definition rejects_non_allowlisted_and_unbounded_commands_over_http :: "web \<Rightarrow> bool" where
  "rejects_non_allowlisted_and_unbounded_commands_over_http web \<longleftrightarrow>
     each_call web (map execute_request forbidden_over_http) (test_state empty_mock ''test'')
       (\<lambda>status body. status = FORBIDDEN \<and> field body ''success'' = JBool False \<and>
          mentions ''playground'' (field body ''error''))
       (\<lambda>app. received_commands (upstream_of app) = [] \<and> \<not> was_shutdown (upstream_of app))"

definition executes_ordinary_commands_over_http :: "web \<Rightarrow> bool" where
  "executes_ordinary_commands_over_http web \<longleftrightarrow>
     (let mock = seed_stream ''stream'' (map (\<lambda>i. (show_nat i @ ''-0'', [''field'', ''value-'' @ show_nat i])) [0..<150])
            (seed_list ''list'' (map (\<lambda>i. ''item-'' @ show_nat i) [0..<150]) empty_mock) in
      call_shows web (execute_request ''PING'') (test_state mock ''test'') (\<lambda>status body app.
        status = OK \<and> field body ''data'' = JString ''PONG'' \<and>
      call_shows web (execute_request ''ECHO hello'') app (\<lambda>status body app.
        status = OK \<and> field body ''data'' = JString ''hello'' \<and>
      call_shows web (execute_request ''SET http-key http-value'') app (\<lambda>status body app.
        status = OK \<and> field body ''data'' = JString ''OK'' \<and>
      call_shows web (execute_request ''GET http-key'') app (\<lambda>status body app.
        status = OK \<and> field body ''data'' = JString ''http-value'' \<and>
      call_shows web (execute_request ''LRANGE list 0 99'') app (\<lambda>status body app.
        status = OK \<and> array_length (field body ''data'') = Some 100 \<and>
      call_shows web (execute_request ''XRANGE stream - + COUNT 100'') app (\<lambda>status body app.
        status = OK \<and> array_length (field body ''data'') = Some 100 \<and>
        received_commands (upstream_of app) = [''PING'', ''ECHO'', ''SET'', ''GET'', ''LRANGE'', ''XRANGE''])))))))"

definition rejects_select_over_stateless_http_without_forwarding :: "web \<Rightarrow> bool" where
  "rejects_select_over_stateless_http_without_forwarding web \<longleftrightarrow>
     call_shows web (execute_request ''select 5'') (test_state empty_mock ''test'') (\<lambda>status body app.
       status = CONFLICT \<and> field body ''success'' = JBool False \<and>
       mentions ''stateless HTTP'' (field body ''error'') \<and>
       mentions ''persistent public RESP'' (field body ''error'') \<and>
       received_commands (upstream_of app) = [])"

definition hash_key_detail_omits_values_without_scanning :: "web \<Rightarrow> bool" where
  "hash_key_detail_omits_values_without_scanning web \<longleftrightarrow>
     (let mock = seed_hash ''big-hash''
            (map (\<lambda>index. (''field-'' @ padded index, ''value-'' @ show_nat index)) [0..<150]) empty_mock in
      call_shows web (get_request ''/api/keys/detail/big-hash'') (test_state mock ''test'') (\<lambda>status body app.
        status = OK \<and>
        field (field body ''data'') ''length'' = JInt 150 \<and>
        field (field body ''data'') ''returned'' = JInt 0 \<and>
        field (field body ''data'') ''truncated'' = JBool True \<and>
        field (field body ''data'') ''value'' = JNull \<and>
        field (field body ''data'') ''value_omitted'' = JBool True \<and>
        mentions ''HSCAN'' (field (field body ''data'') ''detail'') \<and>
        received_commands (upstream_of app) = [''TYPE'', ''TTL'', ''HLEN'']))"

definition missing_keys_return_not_found :: "web \<Rightarrow> bool" where
  "missing_keys_return_not_found web \<longleftrightarrow>
     call_shows web (get_request ''/api/keys/detail/absent'') (test_state empty_mock ''test'') (\<lambda>status body app.
       status = NOT_FOUND \<and> field body ''success'' = JBool False)"

definition reports_health_from_the_real_resp_server :: "web \<Rightarrow> bool" where
  "reports_health_from_the_real_resp_server web \<longleftrightarrow>
     call_shows web (get_request ''/api/health'') (test_state empty_mock ''9.9.9'') (\<lambda>status body app.
       status = OK \<and>
       field (field body ''data'') ''resp'' = JString ''PONG'' \<and>
       field (field body ''data'') ''version'' = JString ''9.9.9'')"

text \<open>The held permit is the only one; dropping it gives it back to the pool.\<close>

definition all_http_backend_paths_fail_fast_when_the_shared_pool_is_saturated :: "web \<Rightarrow> bool" where
  "all_http_backend_paths_fail_fast_when_the_shared_pool_is_saturated web \<longleftrightarrow>
     (let mock = seed_string ''key'' ''value'' empty_mock in
      each_call web
        [execute_request ''PING'', get_request ''/api/keys/detail/key'', get_request ''/api/health'']
        ((test_state mock ''test'')\<lparr>free_permits := 1 - 1\<rparr>)
        (\<lambda>status body. status = TOO_MANY_REQUESTS \<and> field body ''success'' = JBool False \<and>
           mentions ''busy'' (field body ''error''))
        (\<lambda>app. received_commands (upstream_of app) = [] \<and>
           call_shows web (get_request ''/api/health'') (app\<lparr>free_permits := free_permits app + 1\<rparr>) (\<lambda>status body app.
             status = OK \<and> field (field body ''data'') ''resp'' = JString ''PONG'')))"

definition oversized_http_results_are_replaced_with_a_bounded_error_body :: "web \<Rightarrow> bool" where
  "oversized_http_results_are_replaced_with_a_bounded_error_body web \<longleftrightarrow>
     (let mock = seed_string ''large'' (replicate (MAX_RESPONSE_BODY_BYTES + 1) (CHR ''x'')) empty_mock;
          response = fst (router (framework web) (library web) mock_env (execute_request ''GET large'') (test_state mock ''test''))
      in status response = PAYLOAD_TOO_LARGE \<and> length (body response) \<le> MAX_RESPONSE_BODY_BYTES)"

definition binary_bulk_near_the_http_limit_uses_a_compact_base64_object :: "web \<Rightarrow> bool" where
  "binary_bulk_near_the_http_limit_uses_a_compact_base64_object web \<longleftrightarrow>
     (let binary = replicate (45 * 1024) (CHR 0xFF);
          mock = seed_bytes ''near-limit-binary'' binary empty_mock in
      call_shows web (execute_request ''GET near-limit-binary'') (test_state mock ''test'') (\<lambda>status body app.
        status = OK \<and>
        field (field body ''data'') ''encoding'' = JString ''base64'' \<and>
        string_length (field (field body ''data'') ''data'') = Some ((length binary + 2) div 3 * 4) \<and>
        array_length (field body ''data'') = None))"

definition oversized_binary_bulk_is_rejected_during_http_conversion :: "web \<Rightarrow> bool" where
  "oversized_binary_bulk_is_rejected_during_http_conversion web \<longleftrightarrow>
     (let mock = seed_bytes ''over-limit-binary'' (replicate (49 * 1024) (CHR 0xFF)) empty_mock;
          request = execute_request ''GET over-limit-binary'';
          app = test_state mock ''test''
      in length (body (fst (router (framework web) (library web) mock_env request app))) \<le> MAX_RESPONSE_BODY_BYTES \<and>
         call_shows web request app (\<lambda>status body app.
           status = PAYLOAD_TOO_LARGE \<and> field body ''success'' = JBool False \<and>
           mentions ''JSON conversion exceeds'' (field body ''error'')))"

text \<open>The listener: two clients connect at once; the second waits until the first connection is dropped.\<close>

definition accepted_http_connections_are_limited_for_their_full_lifetime :: bool where
  "accepted_http_connections_are_limited_for_their_full_lifetime \<longleftrightarrow>
     (case accept_http (with_listener_limits [(0, Ok ''first''), (0, Ok ''second'')] 1 (from_secs 1)) 0 of
        None \<Rightarrow> False
      | Some (first_io, listener, now) \<Rightarrow>
          accept_http listener (now + from_millis 50) = None \<and>
          accept_http (drop_io listener) (now + from_millis 50) \<noteq> None)"

definition http_connection_deadline_closes_slow_connections :: "'s tcp \<Rightarrow> 's \<Rightarrow> bool" where
  "http_connection_deadline_closes_slow_connections tcp s \<longleftrightarrow>
     (case accept_http (with_listener_limits [(0, Ok s)] 1 (from_millis 30)) 0 of
        None \<Rightarrow> False
      | Some (server, _, now) \<Rightarrow>
          fst (poll_write tcp (now + from_millis 50) (''HTTP/1.1 200 OK'' @ crlf @ crlf) server) =
            Ready (Err LIFETIME_EXCEEDED))"

end
