(* ===== verification/Http_Session.thy ===== *)
theory Http_Session
  imports Http_Router End_To_End
begin

text \<open>
  The HTTP service in front of the child of the test suite: a run of commands posted one after the
  other is answered with what the child itself answers.  Over HTTP every command has a connection of
  its own, so that the abstract view is a child whose data lasts and whose session does not.
\<close>

section \<open>The abstract view\<close>

definition fresh_child :: "MockState \<Rightarrow> session" where
  "fresh_child st = \<lparr>mock_state = st, selected = 0, negotiated = 2\<rparr>"

inductive stateless_run :: "rstring list list \<Rightarrow> RespValue list \<Rightarrow> MockState \<Rightarrow> MockState \<Rightarrow> bool" where
  nothing: "stateless_run [] [] st st"
| command: "answers args v (fresh_child st) s \<Longrightarrow> stateless_run cmds vs (mock_state s) st' \<Longrightarrow>
    stateless_run (args # cmds) (v # vs) st st'"

inductive_cases stateless_run_ConsE: "stateless_run (args # cmds) vs st st'"
inductive_cases stateless_run_NilE: "stateless_run [] vs st st'"

section \<open>The service\<close>

fun route_all :: "axum \<Rightarrow> serializers \<Rightarrow> 'w env \<Rightarrow> Http_Router.Request list \<Rightarrow> 'w app \<Rightarrow> Response list \<times> 'w app" where
  "route_all axum lib env [] app = ([], app)"
| "route_all axum lib env (request # requests) app =
     (let (r, app) = router axum lib env request app; (rs, app) = route_all axum lib env requests app in (r # rs, app))"

text \<open>A request that posts the arguments as a command the policy allows and that can be encoded.\<close>

definition posts :: "axum \<Rightarrow> Http_Router.Request \<Rightarrow> rstring list \<Rightarrow> bool" where
  "posts axum request args \<longleftrightarrow>
     request_path request \<in> {''/api/execute'', ''/api/command''} \<and> serves_method axum ''POST'' (request_method request) \<and>
     (\<exists>c. extract_json axum MAX_BODY_BYTES request = Ok \<lparr>command = c\<rparr> \<and> parse c = Ok args) \<and>
     list_all valid_utf8 args \<and> acceptable args \<and> \<not> eq_ignore_ascii_case (hd args) ''SELECT'' \<and>
     is_allowed (classify_arguments args)"

text \<open>
  What a client is shown of an answer of the child: its JSON with 200; when it does not convert, an
  error of the child included, the reason with 422, or with 413 where the reason is the size.  A
  reason too long for a body is replaced.
\<close>

definition shown_answer :: "serializers \<Rightarrow> (json \<Rightarrow> rstring) \<Rightarrow> RespValue \<Rightarrow> Response" where
  "shown_answer lib text_of v =
     (case to_json_with_budget (to_text lib) v MAX_JSON_VALUE_BYTES of
        Ok j \<Rightarrow> \<lparr>status = OK, body = api_text text_of (api_ok j)\<rparr>
      | Err e \<Rightarrow>
          if length (api_text text_of (api_error e)) \<le> MAX_RESPONSE_BODY_BYTES then
            \<lparr>status = (if contains ''JSON conversion exceeds'' e then PAYLOAD_TOO_LARGE else UNPROCESSABLE_ENTITY),
             body = api_text text_of (api_error e)\<rparr>
          else \<lparr>status = PAYLOAD_TOO_LARGE, body = OVERSIZED_BODY\<rparr>)"

section \<open>Lemmas\<close>

lemma fresh_session_child: "fresh_session s = fresh_child (mock_state s)"
  by (cases s) (simp add: fresh_session_def fresh_child_def)

lemma executed_afresh:
  assumes "acceptable args" and "list_all valid_utf8 args" and "answers args v (fresh_child (mock_state (mock_session w))) s"
  shows "\<exists>w'. execute mock_env addr args w = (Ok v, w') \<and> mock_session w' = s"
proof -
  have "map from_utf8_lossy args = args"
    using assms(2) by (induction args) (simp_all add: from_utf8_lossy_valid)
  with assms(3) have "serve_arguments args (fresh_session (mock_session w)) = (Some (wire v), s)" "fits_budget MAX_RESPONSE_BYTES v"
    by (simp_all add: answers_def fresh_session_child)
  from mock_execute [OF assms(1,2) this(2,1), of addr] show ?thesis by (simp add: execute_def)
qed

lemma posted:
  assumes "documented_axum axum" and "posts axum request args"
  obtains c where "router axum lib env request app = execute_command lib env c app" and "parse c = Ok args"
proof -
  from assms(2) obtain c where "extract_json axum MAX_BODY_BYTES request = Ok \<lparr>command = c\<rparr>" "parse c = Ok args"
    by (auto simp: posts_def)
  moreover from assms(2) have "request_path request \<in> {''/api/execute'', ''/api/command''}"
    "serves_method axum ''POST'' (request_method request)" by (simp_all add: posts_def)
  ultimately show thesis
    using that by (auto simp: router_def routes_eval [OF assms(1)] run_handler_def)
qed

lemma api_response_oversized:
  assumes "faithful_library lib text_of" and "MAX_RESPONSE_BODY_BYTES < length (api_text text_of r)"
  shows "api_response (pieces lib) s r = \<lparr>status = PAYLOAD_TOO_LARGE, body = OVERSIZED_BODY\<rparr>"
proof (cases "serialize_api_response (pieces lib) r")
  case (Ok encoded)
  with serialized_length [OF Ok] assms show ?thesis by (auto simp: faithful_library_def)
qed (simp add: api_response_def)

lemma converted_reply_shown:
  assumes "faithful_library lib text_of" and "doubles_within text_of v"
  shows "converted_reply lib v = shown_answer lib text_of v"
proof (cases "to_json_with_budget (to_text lib) v MAX_JSON_VALUE_BYTES")
  case (Ok j)
  with converted_in_full(2) [OF assms Ok] show ?thesis by (simp add: shown_answer_def)
next
  case (Err e)
  then show ?thesis
    using api_response_fits [OF assms(1), of "api_error e"] api_response_oversized [OF assms(1), of "api_error e"]
    by (simp add: converted_reply_def shown_answer_def not_le)
qed

lemma routed_answer:
  assumes "documented_axum axum" and "faithful_library lib text_of" and "posts axum request args" and "0 < free_permits app"
    and "answers args v (fresh_child (mock_state (mock_session (app_world app)))) s" and "doubles_within text_of v"
  shows "\<exists>w. router axum lib mock_env request app = (shown_answer lib text_of v, app\<lparr>app_world := w\<rparr>) \<and> mock_session w = s"
proof -
  obtain c where c: "router axum lib mock_env request app = execute_command lib mock_env c app" "parse c = Ok args"
    by (rule posted [OF assms(1,3), where lib = lib and env = mock_env and app = app])
  from assms(3) have args: "acceptable args" "list_all valid_utf8 args" "\<not> eq_ignore_ascii_case (hd args) ''SELECT''"
    "is_allowed (classify_arguments args)" by (simp_all add: posts_def)
  obtain w where w: "execute mock_env (resp_addr app) args (app_world app) = (Ok v, w)" "mock_session w = s"
    using executed_afresh [OF args(1,2) assms(5)] by blast
  from converted_reply_shown [OF assms(2,6)] c args(3,4) w assms(4) show ?thesis
    by (intro exI [of _ w]) (simp add: execute_command_def with_permit_def Let_def)
qed

section \<open>The service implements the view\<close>

text \<open>C23: over HTTP a client sees the child of the test suite: a run of commands of acceptable size that the
  policy allows, none of them \<open>SELECT\<close>, each posted in a request of its own, is answered with what
  the child itself answers to them in fresh sessions over the same data.  An answer that converts is
  shown as JSON with 200, any other, an error of the child included, as the reason with 422, or with
  413 where the reason says the JSON is too large or is too long for a body (\<open>shown_answer\<close>); the data
  is left as those commands leave it, and no permit is lost.  The child's answers are within the
  1 MiB reply budget, and the library writes what it documents and prints no floating-point number
  longer than the child sent it.\<close>

theorem http_simulates_child:
  assumes "documented_axum axum" and "faithful_library lib text_of" and "list_all2 (posts axum) requests argss"
    and "stateless_run argss vs (mock_state (mock_session (app_world app))) st'" and "list_all (doubles_within text_of) vs"
    and "0 < free_permits app"
  shows "\<exists>app'. route_all axum lib mock_env requests app = (map (shown_answer lib text_of) vs, app') \<and>
    mock_state (mock_session (app_world app')) = st' \<and> free_permits app' = free_permits app"
  using assms(3-6)
proof (induction requests argss arbitrary: vs app rule: list_all2_induct)
  case Nil
  from Nil.prems(1) have "vs = [] \<and> st' = mock_state (mock_session (app_world app))" by (auto elim: stateless_run_NilE)
  with Nil.prems(2) show ?case by simp
next
  case (Cons request requests args argss)
  from Cons.prems(1) obtain v vs' s where v: "vs = v # vs'" "answers args v (fresh_child (mock_state (mock_session (app_world app)))) s"
    "stateless_run argss vs' (mock_state s) st'" by (auto elim: stateless_run_ConsE)
  from v(1) Cons.prems(2) have doubles: "doubles_within text_of v" "list_all (doubles_within text_of) vs'" by simp_all
  from routed_answer [OF assms(1,2) Cons.hyps(1) Cons.prems(3) v(2) doubles(1)] obtain w where
    w: "router axum lib mock_env request app = (shown_answer lib text_of v, app\<lparr>app_world := w\<rparr>)" "mock_session w = s" by blast
  from Cons.IH [of vs' "app\<lparr>app_world := w\<rparr>"] v(3) doubles(2) w(2) Cons.prems(3) obtain app' where
    "route_all axum lib mock_env requests (app\<lparr>app_world := w\<rparr>) = (map (shown_answer lib text_of) vs', app')"
    "mock_state (mock_session (app_world app')) = st'" "free_permits app' = free_permits app" by auto
  with w(1) v(1) show ?case by simp
qed

text \<open>A service in front of an empty child.\<close>

definition empty_child_app :: "mock_world app" where
  "empty_child_app = example_app \<lparr>mock_session = fresh_child empty_mock, unread = [], delivered = []\<rparr>"

lemma posts_ping: "posts example_axum (post_command ''PING'') [''PING'']"
proof -
  have "is_allowed (classify_arguments [''PING''])"
    using ping_allowed entry_points_agree [of "[''PING'']"] by simp
  then show ?thesis
    by (simp add: posts_def post_command_def example_axum_def unquoted_def ping_parses acceptable_def eq_ignore_ascii_case_def
        to_ascii_uppercase_def ascii_upper_other limits)
qed

theorem http_simulates_child_witness:
  "map status (fst (route_all example_axum example_lib mock_env [post_command ''PING'', post_command ''PING''] empty_child_app)) = [OK, OK]"
proof -
  let ?st = "mock_state (mock_session (app_world empty_child_app))"
  have shown: "status (shown_answer example_lib json_text (Simple ''PONG'')) = OK"
    by (simp add: shown_answer_def to_json_with_budget_def new_json_budget_def consume_def consume_json_string_def
        escaped_length_def saturating_add_def limits)
  have doubles: "list_all (doubles_within json_text) [Simple ''PONG'', Simple ''PONG'']"
    by (simp add: all_values.simps [of _ "Simple x" for x])
  have posts: "list_all2 (posts example_axum) [post_command ''PING'', post_command ''PING''] [[''PING''], [''PING'']]"
    using posts_ping by simp
  have permits: "0 < free_permits empty_child_app" by (simp add: empty_child_app_def example_app_def)
  obtain st' where run: "stateless_run [[''PING''], [''PING'']] [Simple ''PONG'', Simple ''PONG''] ?st st'"
    by (rule that, rule command [OF ping_answers], rule command [OF ping_answers], rule nothing)
  from http_simulates_child [OF documented_example_axum faithful_example_lib posts run doubles permits]
  show ?thesis by (auto simp: shown simp del: route_all.simps)
qed

end
