(* ===== verification/Json_Types.thy ===== *)
theory Json_Types
  imports Resp_Json_Props Resp_Sound Frame_Codec
begin

text \<open>
  The types of \<open>serde_json\<close> that the data type \<open>json\<close> leaves open, and that the conversion of
  \<open>resp.rs\<close> stays inside them: a \<open>String\<close> is UTF-8, an integer is an \<open>i64\<close>, a number is finite, and
  an object is a map, with one value per key and the keys in order.
\<close>

fun well_typed :: "json \<Rightarrow> bool" where
  "well_typed JNull = True"
| "well_typed (JBool x) = True"
| "well_typed (JInt i) = in_i64 i"
| "well_typed (JFloat x) = f64_is_finite x"
| "well_typed (JString s) = valid_utf8 s"
| "well_typed (JArray js) = list_all well_typed js"
| "well_typed (JObject es) = (sorted_wrt (<) (map fst es) \<and> list_all (\<lambda>(k, j). valid_utf8 k \<and> well_typed j) es)"

text \<open>The serializer returns a \<open>String\<close>, too.\<close>

definition writes_strings :: "(json \<Rightarrow> (rstring, rstring) result) \<Rightarrow> bool" where
  "writes_strings to_text \<longleftrightarrow> (\<forall>j t. to_text j = Ok t \<longrightarrow> valid_utf8 t)"

section \<open>Objects and texts\<close>

lemma fst_object_insert: "set (map fst (object_insert k v es)) = insert k (set (map fst es))"
  by (induction k v es rule: object_insert.induct) auto

lemma sorted_object_insert: "sorted_wrt (<) (map fst es) \<Longrightarrow> sorted_wrt (<) (map fst (object_insert k v es))"
  by (induction k v es rule: object_insert.induct) (auto simp: fst_object_insert [simplified set_map])

lemma set_object_insert: "set (object_insert k v es) \<subseteq> insert (k, v) (set es)"
  by (induction k v es rule: object_insert.induct) auto

lemma well_typed_insert:
  assumes "well_typed (JObject es)" and "valid_utf8 k" and "well_typed j"
  shows "well_typed (JObject (object_insert k j es))"
  using assms sorted_object_insert [of es k j] set_object_insert [of k j es] by (fastforce simp: list_all_iff)

lemma utf8_scan_inner:
  assumes "utf8_scan b bs = (True, w)" and "i < w - 1"
  shows "128 \<le> code (bs ! i)"
proof -
  have scan: "second_ok b (byte_at bs 0)" "2 < w \<Longrightarrow> is_cont (byte_at bs 1)" "3 < w \<Longrightarrow> is_cont (byte_at bs 2)" "w \<le> 4"
    if "w \<noteq> 1"
    using assms(1) that char_width_cases [of b] by (auto simp: utf8_scan_def Let_def split: if_split_asm)
  have second: "second_ok a c \<Longrightarrow> 128 \<le> code c" for a c
    by (auto simp: second_ok_def is_cont_def split: if_split_asm)
  have at: "128 \<le> code (byte_at bs i) \<Longrightarrow> 128 \<le> code (bs ! i)" for i
    by (auto simp: byte_at_def split: if_split_asm)
  from assms(2) scan(4) consider "i = 0" | "i = 1" "2 < w" | "i = 2" "3 < w" by linarith
  then show ?thesis
    using scan assms(2) by cases (auto intro!: at dest: second simp: is_cont_def)
qed

lemma valid_utf8_skip:
  assumes "valid_utf8 s" and "n < length s" and "code (s ! n) < 128"
  shows "valid_utf8 (drop (Suc n) s)"
  using assms
proof (induction s arbitrary: n rule: utf8_chunks.induct)
  case (2 b bs)
  obtain ok w where scan: "utf8_scan b bs = (ok, w)" by fastforce
  with "2.prems"(1) have ok: ok and rest: "valid_utf8 (drop w (b # bs))"
    by (simp_all add: valid_utf8_def utf8_chunks.simps)
  have w: "0 < w" using utf8_scan_pos [of b bs] scan by simp
  show ?case
  proof (cases "n < w")
    case True
    have "n = 0"
    proof (rule ccontr)
      assume "n \<noteq> 0"
      with True have "n - 1 < w - 1" by linarith
      with utf8_scan_inner [of b bs w "n - 1"] scan ok \<open>n \<noteq> 0\<close> "2.prems"(3) show False by simp
    qed
    with "2.prems"(1,3) show ?thesis by simp
  next
    case False
    then have "valid_utf8 (drop (Suc (n - w)) (drop w (b # bs)))"
      using "2.IH" [OF scan [symmetric] refl, of "n - w"] rest "2.prems" by simp
    moreover have "Suc (n - w) + w = Suc n" using False by simp
    ultimately show ?thesis by (simp only: drop_drop)
  qed
qed simp

lemma valid_verbatim_text: "valid_utf8 s \<Longrightarrow> valid_utf8 (verbatim_text s)"
  using valid_utf8_skip [of s 3] by (simp add: verbatim_text_def get_def eval_nat_numeral split: if_splits)

lemma valid_base64: "valid_utf8 (base64_encode bs)"
proof -
  have "list_all (\<lambda>c. code c < 128) (CHR ''='' # ALPHABET)" by (simp add: ALPHABET_def)
  then have "\<forall>c \<in> set (base64_encode bs). code c < 128"
    using base64_chars [of _ bs] unfolding base64_char_def list_all_iff by blast
  moreover have "\<forall>c \<in> set s. code c < 128 \<Longrightarrow> valid_utf8 s" for s by (induction s) simp_all
  ultimately show ?thesis by blast
qed

lemma well_typed_bulk: "bulk_to_json data b = Ok (j, b') \<Longrightarrow> well_typed j"
  by (auto simp: bulk_to_json_def valid_base64 split: option.split_asm)


section \<open>The conversion\<close>

lemma well_typed_array:
  assumes "and_then (consume b 2) (\<lambda>b. and_then (values_to_json to_text 0 vs b) (\<lambda>(js, b). Ok (JArray js, b))) = Ok (j, b')"
    and "\<And>b js b'. values_to_json to_text 0 vs b = Ok (js, b') \<Longrightarrow> list_all well_typed js"
  shows "well_typed j"
  using assms by auto

lemma well_typed_key:
  "key_text to_text j = Ok k \<Longrightarrow> well_typed j \<Longrightarrow> writes_strings to_text \<Longrightarrow> valid_utf8 k"
  by (cases j) (auto simp: key_text_def writes_strings_def)

lemma conversion_well_typed:
  assumes writes: "writes_strings to_text"
  shows "to_json_budgeted to_text v b = Ok (j, b') \<Longrightarrow> decodable v \<Longrightarrow> well_typed j"
    and "values_to_json to_text index vs b = Ok (js, b') \<Longrightarrow> list_all decodable vs \<Longrightarrow> list_all well_typed js"
    and "entries_to_json to_text index es object b = Ok (object', b') \<Longrightarrow> list_all decodable (flat es) \<Longrightarrow>
      well_typed (JObject object) \<Longrightarrow> well_typed (JObject object')"
proof (induction v and vs and es arbitrary: b j b' and index b js b' and index object b object' b' rule: value_induct)
  case (5 data)
  then show ?case using well_typed_bulk by simp
next
  case (7 vs)
  then have "list_all decodable vs" by (simp add: all_values.simps [of _ "Array (Some vs)"])
  with 7 show ?case by (auto intro: well_typed_array)
next
  case (13 data)
  then show ?case by (auto simp: valid_verbatim_text split: option.splits)
next
  case (14 es)
  then have "list_all decodable (flat es)" by (simp add: all_values.simps [of _ "Map es"])
  with 14 show ?case by auto
next
  case (15 vs)
  then have "list_all decodable vs" by (simp add: all_values.simps [of _ "Set vs"])
  with 15 show ?case by (auto intro: well_typed_array)
next
  case (16 vs)
  then have "list_all decodable vs" by (simp add: all_values.simps [of _ "Push vs"])
  with 16 show ?case by (auto intro: well_typed_array)
next
  case (20 k v es)
  from "20.prems"(1) obtain b1 kj b2 key b4 vj b5 where steps:
    "to_json_budgeted to_text k b1 = Ok (kj, b2)" "key_text to_text kj = Ok key"
    "to_json_budgeted to_text v b4 = Ok (vj, b5)"
    "entries_to_json to_text (index + 1) es (object_insert key vj object) b5 = Ok (object', b')"
    by auto
  from "20.IH"(1) [OF steps(1)] "20.prems"(2) writes have "valid_utf8 key"
    by (intro well_typed_key [OF steps(2)]) simp_all
  then show ?case
    using "20.IH"(2) [OF steps(3)] "20.IH"(3) [OF steps(4)] "20.prems" well_typed_insert by simp
qed (auto simp: all_values.simps text_line_def split: if_split_asm option.splits)

text \<open>C18: the JSON of a reply read from the child is a well-typed value of the JSON library: UTF-8 strings,
  64-bit integers, finite numbers, and objects with ordered, distinct keys.\<close>

theorem json_of_reply_well_typed:
  assumes "read_reply n s = Ok (v, s')" and "n < USIZE_MAX" and "writes_strings to_text"
    and "to_json_with_budget to_text v limit = Ok j"
  shows "well_typed j"
proof -
  from assms(1) obtain b' where "read_value 0 s (new_budget n) = Ok (v, s', b')" by (auto simp: read_reply_def)
  then have "paid 0 s (new_budget n) [v] s' b'" using read_value_paid assms(2) by simp
  then have "decodable v" by (simp add: paid_def)
  with conversion_well_typed(1) [OF assms(3)] assms(4) show ?thesis
    by (auto simp: to_json_with_budget_def)
qed

theorem json_of_reply_well_typed_witness:
  "well_typed (JObject [(''k'', JArray [JInt 7, JNull])])"
proof -
  let ?v = "Map [(Simple ''k'', Array (Some [Integer 7, Null]))]"
  let ?text = "\<lambda>j. Ok (from_utf8_lossy (json_text j))"
  have "fits_budget 64 ?v"
    by (simp add: fits_budget_def all_values.simps [of admissible] leaf_shape
        height.simps [of "Map x" for x] height.simps [of "Array x" for x] nodes.simps [of "Map x" for x]
        nodes.simps [of "Array x" for x] elements.simps [of "Map x" for x] elements.simps [of "Array x" for x] text_line_def
        in_i64_def show_int_def show_nat.simps limits)
  from read_reply_wire [OF this, where s = "\<lparr>pending = [], ending = Silent\<rparr>" and rest = "[]"]
  have "read_reply 64 \<lparr>pending = wire ?v, ending = Silent\<rparr> = Ok (?v, \<lparr>pending = [], ending = Silent\<rparr>)" by simp
  moreover have "to_json_with_budget ?text ?v 24 = Ok (JObject [(''k'', JArray [JInt 7, JNull])])"
    by (simp add: to_json_with_budget_def new_json_budget_def consume_def consume_json_string_def
        escaped_length_def saturating_add_def key_text_def show_int_def show_nat.simps limits)
  moreover have "writes_strings ?text" by (simp add: writes_strings_def valid_from_utf8_lossy)
  moreover have "64 < USIZE_MAX" by (simp add: limits)
  ultimately show ?thesis using json_of_reply_well_typed by blast
qed

end
