(* ===== verification/Http_Tests_Hold.thy ===== *)
theory Http_Tests_Hold
  imports Http_Tests Http_Session Proxy_Tests_Hold Json_Types
begin

text \<open>
  The tests of \<open>Http_Tests\<close> hold for every web framework and JSON library that behave as documented.  As for
  the proxy, a run of a test is a chain of requests: each rule takes a state of the service through
  one request and leaves the rest of the chain to be shown for the state after it.
\<close>

section \<open>What the libraries document\<close>

text \<open>A value that the JSON library reads back as it was written; floating-point numbers are left out.\<close>

fun exact_json :: "json \<Rightarrow> bool" where
  "exact_json JNull = True"
| "exact_json (JBool x) = True"
| "exact_json (JInt i) = in_i64 i"
| "exact_json (JFloat x) = False"
| "exact_json (JString s) = valid_utf8 s"
| "exact_json (JArray js) = list_all exact_json js"
| "exact_json (JObject es) = (sorted_wrt (<) (map fst es) \<and> list_all (\<lambda>(k, j). valid_utf8 k \<and> exact_json j) es)"

definition api_json :: "ApiResponse \<Rightarrow> json" where
  "api_json r = json_object
     ([(''success'', JBool (success r))] @
      (case response_data r of None \<Rightarrow> [] | Some j \<Rightarrow> [(''data'', j)]) @
      (case response_error r of None \<Rightarrow> [] | Some e \<Rightarrow> [(''error'', JString e)]))"

definition url_char :: "u8 \<Rightarrow> bool" where
  "url_char c \<longleftrightarrow> c = CHR ''-'' \<or> 97 \<le> code c \<and> code c \<le> 122"

lemma slash_no_url_char: "\<not> url_char (CHR ''/'')"
  by (simp add: url_char_def)

text \<open>
  The extractors give what the client has put into the request, a method serves itself, and the JSON
  library reads a reply back.
\<close>

definition documented_web :: "web \<Rightarrow> (json \<Rightarrow> rstring) \<Rightarrow> bool" where
  "documented_web web text_of \<longleftrightarrow>
     documented_axum (framework web) \<and> faithful_library (library web) text_of \<and>
     (\<forall>m. serves_method (framework web) m m) \<and>
     (\<forall>c limit. valid_utf8 c \<longrightarrow> length (request_body (execute_request c)) \<le> limit \<longrightarrow>
        extract_json (framework web) limit (execute_request c) = Ok \<lparr>command = c\<rparr>) \<and>
     (\<forall>key. key \<noteq> [] \<longrightarrow> list_all url_char key \<longrightarrow>
        extract_path (framework web) (KEY_PATH @ ''{key}'') (get_request (KEY_PATH @ key)) = Ok key) \<and>
     (\<forall>r. exact_json (api_json r) \<longrightarrow> from_json web (api_text text_of r) = Some (api_json r))"

section \<open>Objects\<close>

lemma exact_insert:
  assumes "exact_json (JObject es)" and "valid_utf8 k" and "exact_json j"
  shows "exact_json (JObject (object_insert k j es))"
  using assms sorted_object_insert [of es k j] set_object_insert [of k j es] by (fastforce simp: list_all_iff)

lemma exact_json_object:
  assumes "list_all (\<lambda>(k, j). valid_utf8 k \<and> exact_json j) kvs"
  shows "exact_json (json_object kvs)"
proof -
  have "exact_json (JObject es) \<Longrightarrow> exact_json (JObject (fold (\<lambda>(k, v). object_insert k v) kvs es))" for es
    using assms
  proof (induction kvs arbitrary: es)
    case (Cons x kvs)
    obtain k j where x: "x = (k, j)" by (cases x)
    with Cons.prems exact_insert [of es k j] have "exact_json (JObject (object_insert k j es))" by simp
    with Cons.IH Cons.prems(2) x show ?case by simp
  qed simp
  from this [of "[]"] show ?thesis by (simp add: json_object_def)
qed

lemma field_object: "field (json_object kvs) k = (case map_of (rev kvs) k of Some j \<Rightarrow> j | None \<Rightarrow> JNull)"
proof -
  have "map_of (fold (\<lambda>(k, v). object_insert k v) kvs es) = map_of (rev kvs @ es)" for es
    by (induction kvs arbitrary: es) (auto simp: map_of_object_insert fun_eq_iff map_add_def split: option.split)
  from this [of "[]"] show ?thesis by (simp add: json_object_def)
qed

lemma api_json_fields [simp]:
  "field (api_json (api_ok j)) ''data'' = j" "field (api_json (api_ok j)) ''success'' = JBool True"
  "field (api_json (api_error e)) ''error'' = JString e" "field (api_json (api_error e)) ''success'' = JBool False"
  by (simp_all add: api_json_def api_ok_def api_error_def field_object)

lemma exact_api [simp]:
  "exact_json j \<Longrightarrow> exact_json (api_json (api_ok j))" "valid_utf8 e \<Longrightarrow> exact_json (api_json (api_error e))"
  by (simp_all add: api_json_def api_ok_def api_error_def exact_json_object)

section \<open>Texts\<close>

lemma length_quoted_le: "length (quoted s) \<le> 2 + 6 * length s"
proof -
  have "sum_list (map escaped_length s) \<le> length s * 6"
    by (intro sum_list_below) (auto simp: escaped_length_def)
  then show ?thesis by (simp add: length_quoted)
qed

lemma length_error_text:
  assumes "length e \<le> 8000"
  shows "length (api_text text_of (api_error e)) \<le> MAX_RESPONSE_BODY_BYTES"
  using length_quoted_le [of e] assms by (simp add: api_text_def api_error_def limits)

lemma length_object_text:
  assumes "compact t text_of" and "list_all (\<lambda>(k, j). length (quoted k) + length (text_of j) + 2 \<le> n) kvs"
  shows "length (text_of (json_object kvs)) \<le> 2 + length kvs * n"
proof -
  have "object_weight text_of (fold (\<lambda>(k, v). object_insert k v) kvs es) \<le> object_weight text_of es + length kvs * n" for es
    using assms(2)
  proof (induction kvs arbitrary: es)
    case (Cons x kvs)
    obtain k j where x: "x = (k, j)" by (cases x)
    have "object_weight text_of (object_insert k j es) \<le> object_weight text_of es + n"
      using object_weight_insert [of text_of k j es] Cons.prems x by (simp add: member_def)
    with Cons.IH [of "object_insert k j es"] Cons.prems x show ?case by simp
  qed simp
  from this [of "[]"] show ?thesis
    using length_object [OF assms(1), of "fold (\<lambda>(k, v). object_insert k v) kvs []"]
    by (simp add: json_object_def object_weight_def split: if_split_asm)
qed

section \<open>One request of a test\<close>

lemma documentedD:
  assumes "documented_web web text_of"
  shows "documented_axum (framework web)" "faithful_library (library web) text_of" "serves_method (framework web) m m"
    "valid_utf8 c \<Longrightarrow> length c \<le> 10000 \<Longrightarrow>
       extract_json (framework web) MAX_BODY_BYTES (execute_request c) = Ok \<lparr>command = c\<rparr>"
    "key \<noteq> [] \<Longrightarrow> list_all url_char key \<Longrightarrow>
       extract_path (framework web) (KEY_PATH @ ''{key}'') (get_request (KEY_PATH @ key)) = Ok key"
    "exact_json (api_json r) \<Longrightarrow> from_json web (api_text text_of r) = Some (api_json r)"
proof -
  show "extract_json (framework web) MAX_BODY_BYTES (execute_request c) = Ok \<lparr>command = c\<rparr>"
    if "valid_utf8 c" "length c \<le> 10000"
  proof -
    have "length (request_body (execute_request c)) \<le> MAX_BODY_BYTES"
      using that(2) length_quoted_le [of c] by (simp add: execute_request_def limits)
    with assms that(1) show ?thesis by (simp add: documented_web_def)
  qed
qed (use assms in \<open>simp_all add: documented_web_def\<close>)

lemma routed:
  assumes "documented_web web text_of"
  shows "valid_utf8 c \<Longrightarrow> length c \<le> 10000 \<Longrightarrow>
      router (framework web) (library web) env (execute_request c) app = execute_command (library web) env c app"
    and "router (framework web) (library web) env (get_request ''/api/health'') app = health (library web) env app"
    and "key \<noteq> [] \<Longrightarrow> list_all url_char key \<Longrightarrow>
      router (framework web) (library web) env (get_request (KEY_PATH @ key)) app = key_detail (library web) env key app"
proof -
  note doc = documentedD [OF assms] and eval = router_def routes_eval [OF documentedD(1) [OF assms]] run_handler_def
  show "router (framework web) (library web) env (execute_request c) app = execute_command (library web) env c app"
    if "valid_utf8 c" "length c \<le> 10000"
    using doc(3,4) that by (simp add: eval execute_request_def)
  show "router (framework web) (library web) env (get_request ''/api/health'') app = health (library web) env app"
    using doc(3) by (simp add: eval get_request_def)
  show "router (framework web) (library web) env (get_request (KEY_PATH @ key)) app = key_detail (library web) env key app"
    if "key \<noteq> []" "list_all url_char key"
  proof -
    have "CHR ''/'' \<notin> set key"
      using that(2) slash_no_url_char unfolding list_all_iff by blast
    with doc(1) that(1) have "matches_path (framework web) (KEY_PATH @ ''{key}'') (KEY_PATH @ key)"
      unfolding documented_axum_def by blast
    moreover have "KEY_PATH @ key \<notin> {''/'', ''/api/health'', ''/api/execute'', ''/api/command''}"
      by (simp add: KEY_PATH_def)
    ultimately show ?thesis
      using doc(3) doc(5) [OF that] by (simp add: eval get_request_def)
  qed
qed

lemma call_showsI:
  assumes "documented_web web text_of" and "router (framework web) (library web) mock_env request app =
      (api_response (pieces (library web)) s r, app')"
    and "length (api_text text_of r) \<le> MAX_RESPONSE_BODY_BYTES" and "exact_json (api_json r)" and "check s (api_json r) app'"
  shows "call_shows web request app check"
  using documentedD(6) [OF assms(1,4)] api_response_fits [OF documentedD(2) [OF assms(1)] assms(3)] assms(2,5)
  by (simp add: call_shows_def)

section \<open>Commands\<close>

text \<open>A line of plain words is tokenised into them.\<close>

definition word_char :: "u8 \<Rightarrow> bool" where
  "word_char c \<longleftrightarrow> 33 \<le> code c \<and> code c < 127 \<and> code c \<noteq> 34 \<and> code c \<noteq> 39 \<and> code c \<noteq> 92"

definition word :: "rstring \<Rightarrow> bool" where
  "word w \<longleftrightarrow> w \<noteq> [] \<and> list_all word_char w"

fun unwords :: "rstring list \<Rightarrow> rstring" where
  "unwords [] = []"
| "unwords [w] = w"
| "unwords (w # v # ws) = w @ CHR '' '' # unwords (v # ws)"

abbreviation single :: "rstring \<Rightarrow> rstring list" where "single \<equiv> map (\<lambda>c. [c])"

lemma str_chars_single: "(\<And>c. c \<in> set s \<Longrightarrow> code c < 128) \<Longrightarrow> str_chars s = single s"
  by (induction s) simp_all

lemma word_char_facts:
  assumes "word_char c"
  shows "code c < 128" "\<not> is_whitespace [c]" "plain_char [c]" "code c \<noteq> 32"
  using assms by (auto simp: word_char_def is_whitespace_def plain_char_def)

lemma split_word:
  assumes "word w"
  shows "split_ws (single w @ [CHR '' ''] # cs) = w # split_ws cs" "split_ws (single w) = [w]"
proof -
  have ws: "is_whitespace [CHR '' '']" by (simp add: is_whitespace_def)
  have all: "\<forall>x \<in> set (single w). \<not> is_whitespace x" using assms word_char_facts(2) by (auto simp: word_def list_all_iff)
  obtain c v where w: "w = c # v" "\<not> is_whitespace [c]"
    using assms word_char_facts(2) by (cases w) (auto simp: word_def)
  have "split_ws ([CHR '' ''] # cs) = split_ws cs" using ws by (subst (1 2) split_ws.simps) simp
  moreover have "takeWhile non_ws (single w @ [CHR '' ''] # cs) = single w" "dropWhile non_ws (single w @ [CHR '' ''] # cs) = [CHR '' ''] # cs"
    using all ws by (induction w) simp_all
  ultimately show "split_ws (single w @ [CHR '' ''] # cs) = w # split_ws cs"
    using w by (subst split_ws.simps) (simp add: Let_def)
  have run: "takeWhile non_ws (single u) = single u" "dropWhile non_ws (single u) = []" if "\<forall>c \<in> set u. \<not> is_whitespace [c]" for u
    using that by (induction u) simp_all
  have "\<forall>c \<in> set v. \<not> is_whitespace [c]" using all w(1) by simp
  then show "split_ws (single w) = [w]"
    using w(2) unfolding w(1) by (subst split_ws.simps) (simp add: Let_def run split_ws.simps [of "[]"])
qed

lemma unwords_ascii: "list_all word ws \<Longrightarrow> c \<in> set (unwords ws) \<Longrightarrow> word_char c \<or> c = CHR '' ''"
  by (induction ws rule: unwords.induct) (auto simp: word_def list_all_iff)

lemma split_unwords: "list_all word ws \<Longrightarrow> split_ws (single (unwords ws)) = ws"
  by (induction ws rule: unwords.induct) (simp_all add: split_word split_ws.simps [of "[]"])

lemma parse_unwords:
  assumes "cmd = unwords ws" and "list_all word ws" and "ws \<noteq> [] \<and> length ws \<le> MAX_ARGUMENTS" and "length cmd \<le> MAX_COMMAND_LENGTH"
  shows "parse cmd = Ok ws"
proof -
  have chars: "word_char c \<or> c = CHR '' ''" if "c \<in> set cmd" for c using unwords_ascii assms(1,2) that by blast
  have "code c < 128" if "c \<in> set cmd" for c using chars [OF that] word_char_facts(1) by auto
  then have s: "str_chars cmd = single cmd" by (rule str_chars_single)
  have "list_all plain_char (str_chars cmd)"
    using chars word_char_facts(3) by (force simp: s list_all_iff plain_char_def)
  moreover have "split_whitespace cmd = ws"
    unfolding split_whitespace_def s unfolding assms(1) by (rule split_unwords [OF assms(2)])
  ultimately show ?thesis using parse_plain [OF _ assms(4), of ws] assms(3) by simp
qed
text \<open>The arguments of the refused commands: those of the test of the proxy but for one in lower case.\<close>

definition forbidden_arguments :: "rstring list list" where
  "forbidden_arguments =
     take 4 refused_in_the_tests @ [''migrate'', ''start'', ''redis://example.invalid''] # drop 5 refused_in_the_tests"

lemma forbidden_lines: "forbidden_over_http = map unwords forbidden_arguments"
  by (simp add: forbidden_over_http_def forbidden_arguments_def refused_in_the_tests_def)

lemma forbidden_words: "list_all (\<lambda>ws. list_all word ws \<and> ws \<noteq> [] \<and> length ws \<le> 20) forbidden_arguments"
  by (simp add: forbidden_arguments_def refused_in_the_tests_def word_def word_char_def)

lemma forbidden_short: "list_all (\<lambda>cmd. valid_utf8 cmd \<and> length cmd \<le> 1000) forbidden_over_http"
  by (simp add: forbidden_over_http_def)

lemma forbidden_parse: "list_all2 (\<lambda>cmd args. parse cmd = Ok args) forbidden_over_http forbidden_arguments"
proof -
  have "parse (unwords ws) = Ok ws" if "ws \<in> set forbidden_arguments" for ws
    using that forbidden_words forbidden_short unfolding forbidden_lines
    by (intro parse_unwords) (fastforce simp: list_all_iff limits)+
  then show ?thesis unfolding forbidden_lines by (simp add: list_all2_conv_all_nth)
qed

lemma forbidden_readable: "list_all readable_refusal forbidden_arguments"
proof -
  have "readable_refusal [''migrate'', ''start'', ''redis://example.invalid'']"
    by (rule unlisted_refusal, simp, simp add: acceptable_def limits, simp add: named_eval, simp add: allowlist_eval,
        simp add: text_line_def, simp)
  then show ?thesis
    using refused_in_the_tests_readable unfolding forbidden_arguments_def list_all_iff
    by (auto dest: in_set_takeD in_set_dropD)
qed

lemma forbidden_not_select: "list_all (\<lambda>args. \<not> eq_ignore_ascii_case (hd args) ''SELECT'') forbidden_arguments"
  by (simp add: forbidden_arguments_def refused_in_the_tests_def eq_ignore_ascii_case_def to_ascii_uppercase_def ascii_upper_other)

section \<open>Chains of requests\<close>

text \<open>A service that has a permit, and the state of its child.\<close>

definition online :: "mock_world app \<Rightarrow> MockState \<Rightarrow> bool" where
  "online app st \<longleftrightarrow> 0 < free_permits app \<and> upstream_of app = st"

lemma online_start: "online (test_state st name) st"
  by (simp add: online_def upstream_of_def test_state_def mock_before_def)

lemma online_execute:
  assumes "online app st" and "acceptable args" and "list_all valid_utf8 args" and "answers args v (start_session st) s"
  shows "\<exists>w. execute mock_env addr args (app_world app) = (Ok v, w) \<and> mock_session w = s"
  using executed_afresh [OF assms(2,3), of v "app_world app" s addr] assms(1,4)
  by (simp add: online_def upstream_of_def start_session_def fresh_child_def)

lemma routed_execute:
  assumes "documented_web web text_of" and "valid_utf8 cmd \<and> length cmd \<le> 10000"
    and "execute_command (library web) mock_env cmd app = r"
  shows "router (framework web) (library web) mock_env (execute_request cmd) app = r"
  using routed(1) [OF assms(1), of cmd mock_env app] assms(2,3) by simp

lemma then_executed:
  assumes "documented_web web text_of" and "online app st" and "parse cmd = Ok args" and "valid_utf8 cmd \<and> length cmd \<le> 10000"
    and "acceptable args \<and> list_all valid_utf8 args" and "\<not> eq_ignore_ascii_case (hd args) ''SELECT''"
    and "is_allowed (classify_bytes_arguments args)" and "answers args v (start_session st) s"
    and "double_free v" and "to_json_with_budget (to_text (library web)) v MAX_JSON_VALUE_BYTES = Ok j" and "exact_json j"
    and "\<And>app'. online app' (mock_state s) \<Longrightarrow> check OK (api_json (api_ok j)) app'"
  shows "call_shows web (execute_request cmd) app check"
proof -
  from online_execute [OF assms(2) _ _ assms(8)] assms(5) obtain w where
    w: "execute mock_env (resp_addr app) args (app_world app) = (Ok v, w)" "mock_session w = s" by blast
  have "is_allowed (classify_arguments args)"
    using assms(5,7) by (simp add: entry_points_agree list_all_iff)
  then have "execute_command (library web) mock_env cmd app = (api_response (pieces (library web)) OK (api_ok j), app\<lparr>app_world := w\<rparr>)"
    using assms(2,3,6,10) w(1)
    by (simp add: execute_command_def Let_def with_permit_def online_def converted_reply_def)
  from routed_execute [OF assms(1,4) this] show ?thesis
  proof (rule call_showsI [OF assms(1)])
    show "length (api_text text_of (api_ok j)) \<le> MAX_RESPONSE_BODY_BYTES"
      by (rule converted_in_full(1) [OF documentedD(2) [OF assms(1)] double_free_within [OF assms(9)] assms(10)])
    show "check OK (api_json (api_ok j)) (app\<lparr>app_world := w\<rparr>)"
      using assms(2) w(2) by (intro assms(12)) (simp add: online_def upstream_of_def)
  qed (use assms(11) in simp)
qed

text \<open>A command that the policy refuses.\<close>

lemma call_error:
  assumes "documented_web web text_of"
    and "router (framework web) (library web) mock_env request app = (api_response (pieces (library web)) s (api_error e), app')"
    and "valid_utf8 e \<and> length e \<le> 8000" and "check s (api_json (api_error e)) app'"
  shows "call_shows web request app check"
  by (rule call_showsI [OF assms(1,2)]) (use assms(3,4) length_error_text in simp_all)

lemma call_refused:
  assumes "documented_web web text_of" and "parse cmd = Ok args" and "valid_utf8 cmd \<and> length cmd \<le> 10000"
    and "readable_refusal args" and "\<not> eq_ignore_ascii_case (hd args) ''SELECT''"
    and "\<And>e. contains ''playground'' e \<Longrightarrow> check FORBIDDEN (api_json (api_error e)) app"
  shows "call_shows web (execute_request cmd) app check"
proof -
  from assms(4) obtain name reason where refused: "classify_bytes_arguments args = Reject name reason" "list_all valid_utf8 args"
    and e: "text_line (message (Reject name reason))" "length (message (Reject name reason)) \<le> 8000"
    by (auto simp: readable_refusal_def simp del: message.simps)
  let ?e = "message (Reject name reason)"
  have "classify_arguments args = Reject name reason"
    using refused by (simp add: entry_points_agree list_all_iff)
  then have "execute_command (library web) mock_env cmd app =
      (api_response (pieces (library web)) FORBIDDEN (api_error ?e), app)"
    using assms(2,5) by (simp add: execute_command_def Let_def del: message.simps)
  from routed_execute [OF assms(1,3) this] show ?thesis
    by (rule call_error [OF assms(1)])
      (use e assms(6) [OF policy_message_contains] in \<open>simp_all add: text_line_def del: message.simps\<close>)
qed

lemma each_refused:
  assumes "documented_web web text_of" and "list_all2 (\<lambda>cmd args. parse cmd = Ok args) cmds argss"
    and "list_all readable_refusal argss" and "list_all (\<lambda>args. \<not> eq_ignore_ascii_case (hd args) ''SELECT'') argss"
    and "list_all (\<lambda>cmd. valid_utf8 cmd \<and> length cmd \<le> 1000) cmds" and "finally_holds app"
  shows "each_call web (map execute_request cmds) app
    (\<lambda>status body. status = FORBIDDEN \<and> field body ''success'' = JBool False \<and> mentions ''playground'' (field body ''error''))
    finally_holds"
  using assms(2-5)
proof (induction cmds argss rule: list_all2_induct)
  case Nil
  with assms(6) show ?case by simp
next
  case (Cons cmd cmds args argss)
  then show ?case by (simp, intro call_refused [OF assms(1) Cons.hyps(1)]) simp_all
qed

section \<open>The results of the tests\<close>

lemma rejects_test_holds:
  "documented_web web text_of \<Longrightarrow> rejects_non_allowlisted_and_unbounded_commands_over_http web"
  unfolding rejects_non_allowlisted_and_unbounded_commands_over_http_def
  by (erule each_refused [OF _ forbidden_parse forbidden_readable forbidden_not_select forbidden_short])
    (simp add: test_state_def upstream_of_def mock_before_def empty_mock_def received_commands_def was_shutdown_def)

lemma select_http_test_holds:
  assumes "documented_web web text_of"
  shows "rejects_select_over_stateless_http_without_forwarding web"
proof -
  have "parse ''select 5'' = Ok [''select'', ''5'']"
    by (rule parse_unwords) (simp_all add: word_def word_char_def limits)
  then have "execute_command (library web) mock_env ''select 5'' (test_state empty_mock ''test'') =
      (api_response (pieces (library web)) CONFLICT (api_error SELECT_REFUSAL), test_state empty_mock ''test'')"
    by (simp add: execute_command_def eq_ignore_ascii_case_def normalize_eval)
  then have answer: "router (framework web) (library web) mock_env (execute_request ''select 5'') (test_state empty_mock ''test'') =
      (api_response (pieces (library web)) CONFLICT (api_error SELECT_REFUSAL), test_state empty_mock ''test'')"
    by (intro routed_execute [OF assms]) simp_all
  have "contains ''stateless HTTP'' SELECT_REFUSAL" "contains ''persistent public RESP'' SELECT_REFUSAL"
    "valid_utf8 SELECT_REFUSAL \<and> length SELECT_REFUSAL \<le> 8000"
    by (simp_all add: SELECT_REFUSAL_def)
  then show ?thesis
    unfolding rejects_select_over_stateless_http_without_forwarding_def
    by (intro call_error [OF assms answer])
      (simp_all add: test_state_def upstream_of_def mock_before_def empty_mock_def received_commands_def)
qed

section \<open>Health and key pages\<close>

lemma length_ok_text: "length (text_of j) \<le> 60000 \<Longrightarrow> length (api_text text_of (api_ok j)) \<le> MAX_RESPONSE_BODY_BYTES"
  by (simp add: api_text_def api_ok_def limits)

lemma ok_object_text:
  assumes "documented_web web text_of" and "list_all (\<lambda>(k, j). length (quoted k) + length (text_of j) + 2 \<le> 3000) kvs" and "length kvs \<le> 15"
  shows "length (api_text text_of (api_ok (json_object kvs))) \<le> MAX_RESPONSE_BODY_BYTES"
proof -
  have "compact (to_text (library web)) text_of"
    using documentedD(2) [OF assms(1)] by (simp add: faithful_library_def)
  from length_object_text [OF this assms(2)] assms(3) show ?thesis by (intro length_ok_text) simp
qed

lemma texts:
  assumes "documented_web web text_of"
  shows "length (text_of JNull) = 4" "length (text_of (JBool b)) \<le> 5" "length (text_of (JInt i)) = length (show_int i)"
    "length (text_of (JString s)) \<le> 2 + 6 * length s"
proof -
  from documentedD(2) [OF assms] have c: "compact (to_text (library web)) text_of" by (simp add: faithful_library_def)
  show "length (text_of JNull) = 4" "length (text_of (JInt i)) = length (show_int i)"
    "length (text_of (JString s)) \<le> 2 + 6 * length s"
    using text_lengths [OF c] length_quoted_le [of s] by simp_all
  show "length (text_of (JBool b)) \<le> 5" using text_lengths [OF c] by (cases b) simp_all
qed

text \<open>An entry with a short name and text.\<close>

lemma object_entry:
  assumes "documented_web web text_of" and "length k \<le> 20"
  shows "length s \<le> 400 \<Longrightarrow> length (quoted k) + length (text_of (JString s)) \<le> 2998"
    "length (quoted k) + length (text_of (JBool b)) \<le> 2998" "length (quoted k) + length (text_of JNull) \<le> 2998"
    "length (show_int i) \<le> 400 \<Longrightarrow> length (quoted k) + length (text_of (JInt i)) \<le> 2998"
  using texts(1) [OF assms(1)] texts(2) [OF assms(1), of b] texts(3) [OF assms(1), of i] texts(4) [OF assms(1), of s] length_quoted_le [of k] assms(2) by linarith+

definition health_json :: "rstring \<Rightarrow> json" where
  "health_json name = json_object [(''status'', JString ''ok''), (''version'', JString name), (''resp'', JString ''PONG'')]"

lemma then_health:
  assumes "documented_web web text_of" and "online app st" and "valid_utf8 (version app) \<and> length (version app) \<le> 100"
    and "\<And>app'. online app' (mock_state (log_command [''PING''] (start_session st))) \<Longrightarrow>
      check OK (api_json (api_ok (health_json (version app)))) app'"
  shows "call_shows web (get_request ''/api/health'') app check"
proof -
  from online_execute [OF assms(2) _ _ ping_answers] obtain w where
    w: "execute mock_env (resp_addr app) [''PING''] (app_world app) = (Ok (Simple ''PONG''), w)"
      "mock_session w = log_command [''PING''] (start_session st)" by (force simp: acceptable_def limits)
  then have "health (library web) mock_env app =
      (api_response (pieces (library web)) OK (api_ok (health_json (version app))), app\<lparr>app_world := w\<rparr>)"
    using assms(2) by (simp add: health_def with_permit_def online_def health_json_def)
  with routed(2) [OF assms(1), of mock_env app]
  have "router (framework web) (library web) mock_env (get_request ''/api/health'') app =
      (api_response (pieces (library web)) OK (api_ok (health_json (version app))), app\<lparr>app_world := w\<rparr>)" by simp
  then show ?thesis
  proof (rule call_showsI [OF assms(1)])
    show "length (api_text text_of (api_ok (health_json (version app)))) \<le> MAX_RESPONSE_BODY_BYTES"
      unfolding health_json_def
      by (rule ok_object_text [OF assms(1)]) (use assms(3) in \<open>simp_all add: object_entry [OF assms(1)]\<close>)
    show "exact_json (api_json (api_ok (health_json (version app))))"
      using assms(3) by (simp add: health_json_def exact_json_object)
    show "check OK (api_json (api_ok (health_json (version app)))) (app\<lparr>app_world := w\<rparr>)"
      using assms(2) w(2) by (intro assms(4)) (simp add: online_def upstream_of_def)
  qed
qed

lemma health_fields: "field (health_json name) ''resp'' = JString ''PONG''" "field (health_json name) ''version'' = JString name"
  by (simp_all add: health_json_def field_object)

lemma health_test_holds: "documented_web web text_of \<Longrightarrow> reports_health_from_the_real_resp_server web"
  unfolding reports_health_from_the_real_resp_server_def
  by (erule then_health [OF _ online_start]) (simp_all add: test_state_def health_fields)

lemma missing_http_test_holds:
  assumes "documented_web web text_of"
  shows "missing_keys_return_not_found web"
proof -
  let ?L = "library web" and ?app = "test_state empty_mock ''test''"
  obtain w where "detail (to_text ?L) (show_debug ?L) mock_env ''127.0.0.1:6380'' ''absent'' (mock_before empty_mock) = (Ok None, w)"
    using missing_test_holds [of "(to_text ?L, show_debug ?L)"]
    by (cases "detail (to_text ?L) (show_debug ?L) mock_env ''127.0.0.1:6380'' ''absent'' (mock_before empty_mock)")
      (simp add: missing_keys_report_no_detail_def)
  then have page: "key_detail ?L mock_env ''absent'' ?app =
      (api_response (pieces ?L) NOT_FOUND (api_error ''Key not found''), ?app\<lparr>app_world := w\<rparr>)"
    by (simp add: key_detail_def with_permit_def test_state_def)
  have "router (framework web) ?L mock_env (get_request (KEY_PATH @ ''absent'')) ?app =
      (api_response (pieces ?L) NOT_FOUND (api_error ''Key not found''), ?app\<lparr>app_world := w\<rparr>)"
    by (subst routed(3) [OF assms]) (simp_all add: page url_char_def)
  from call_error [OF assms this] show ?thesis
    by (simp add: missing_keys_return_not_found_def KEY_PATH_def)
qed

lemma busy_text: "contains ''busy'' ''Ferrite playground backend is busy; retry after an in-flight operation completes''"
  by simp

lemma call_busy:
  assumes "documented_web web text_of" and "free_permits app = 0"
    and "request \<in> {execute_request ''PING'', get_request ''/api/keys/detail/key'', get_request ''/api/health''}"
    and "\<And>e. contains ''busy'' e \<Longrightarrow> check TOO_MANY_REQUESTS (api_json (api_error e)) app"
  shows "call_shows web request app check"
proof -
  let ?r = "(api_response (pieces (library web)) TOO_MANY_REQUESTS
    (api_error ''Ferrite playground backend is busy; retry after an in-flight operation completes''), app)"
  have ping: "is_allowed (classify_arguments [''PING''])"
    using allowed_examples(1) by (simp add: entry_points_agree)
  have "execute_command (library web) mock_env ''PING'' app = ?r"
    using assms(2) ping
    by (simp add: execute_command_def ping_parses Let_def with_permit_def backend_busy_response_def eq_ignore_ascii_case_def upper_eval)
  then have "router (framework web) (library web) mock_env (execute_request ''PING'') app = ?r"
    by (intro routed_execute [OF assms(1)]) simp_all
  moreover have "router (framework web) (library web) mock_env (get_request ''/api/health'') app = ?r"
    unfolding routed(2) [OF assms(1)] using assms(2) by (simp add: health_def with_permit_def backend_busy_response_def)
  moreover have "router (framework web) (library web) mock_env (get_request (KEY_PATH @ ''key'')) app = ?r"
    by (subst routed(3) [OF assms(1)])
      (use assms(2) in \<open>simp_all add: key_detail_def with_permit_def backend_busy_response_def url_char_def\<close>)
  ultimately have "router (framework web) (library web) mock_env request app = ?r"
    using assms(3) by (auto simp: KEY_PATH_def)
  then show ?thesis
    by (rule call_error [OF assms(1)]) (simp, rule assms(4) [OF busy_text])
qed

lemma saturated_test_holds:
  assumes "documented_web web text_of"
  shows "all_http_backend_paths_fail_fast_when_the_shared_pool_is_saturated web"
  unfolding all_http_backend_paths_fail_fast_when_the_shared_pool_is_saturated_def Let_def each_call.simps
  apply (rule call_busy [OF assms], simp add: test_state_def, simp, intro conjI, simp, simp, simp)
  apply (rule call_busy [OF assms], simp add: test_state_def, simp, intro conjI, simp, simp, simp)
  apply (rule call_busy [OF assms], simp add: test_state_def, simp, intro conjI, simp, simp, simp)
   apply (simp add: test_state_def upstream_of_def mock_before_def empty_mock_def seed_string_def seed_def received_commands_def)
  by (rule then_health [OF assms, where st = "seed_string ''key'' ''value'' empty_mock"])
    (simp_all add: online_def upstream_of_def test_state_def mock_before_def health_fields)

section \<open>The page of a hash\<close>

lemma hash_http_test_holds:
  assumes "documented_web web text_of"
  shows "hash_key_detail_omits_values_without_scanning web"
proof -
  define v where "v = Hash (fold (\<lambda>(k, v). object_insert k v)
    (map (\<lambda>index. (''field-'' @ padded index, ''value-'' @ show_nat index)) [0..<150]) [])"
  let ?L = "library web" and ?st = "seed ''big-hash'' v empty_mock"
  let ?app = "test_state ?st ''test''" and ?j = "detail_object ''big-hash'' ''hash'' (-1) (stored_page v JNull)"
  have extent: "extent v = 150" unfolding v_def extent.simps by (rule fields_of)
  have "stored (mock_before ?st) ''big-hash'' = Some v" by (simp add: stored_def mock_before_def seed_def)
  moreover have "page_fits (to_text ?L) v JNull" by (rule omitted_fits) (simp_all add: extent, simp add: v_def)
  moreover have "sendable_key ''big-hash''" "\<not> eq_ignore_ascii_case ''big-hash'' ''COUNT''"
    by (simp_all add: sendable_key_def eq_ignore_ascii_case_def to_ascii_uppercase_def ascii_upper_other limits)
  moreover have "type_name v = ''hash''" by (simp add: v_def)
  ultimately obtain w where w: "detail (to_text ?L) (show_debug ?L) mock_env ''127.0.0.1:6380'' ''big-hash'' (mock_before ?st) = (Ok (Some ?j), w)"
    "received w = received (mock_before ?st) @ [''TYPE'', ''TTL''] @ page_commands v"
    using mock_detail [of "mock_before ?st" "''big-hash''" v "to_text ?L" JNull "show_debug ?L" "''127.0.0.1:6380''"] by auto
  then have page: "key_detail ?L mock_env ''big-hash'' ?app = (api_response (pieces ?L) OK (api_ok ?j), ?app\<lparr>app_world := w\<rparr>)"
    by (simp add: key_detail_def with_permit_def test_state_def)
  have answer: "router (framework web) ?L mock_env (get_request (KEY_PATH @ ''big-hash'')) ?app =
      (api_response (pieces ?L) OK (api_ok ?j), ?app\<lparr>app_world := w\<rparr>)"
    by (subst routed(3) [OF assms]) (simp_all add: page url_char_def)
  have j: "stored_page v JNull = omitted_page 150 HASH_OMITTED"
    using extent by (simp add: v_def del: extent.simps) (simp add: v_def fields_of)
  have "call_shows web (get_request (KEY_PATH @ ''big-hash'')) ?app (\<lambda>status body app.
      status = OK \<and>
      field (field body ''data'') ''length'' = JInt 150 \<and> field (field body ''data'') ''returned'' = JInt 0 \<and>
      field (field body ''data'') ''truncated'' = JBool True \<and> field (field body ''data'') ''value'' = JNull \<and>
      field (field body ''data'') ''value_omitted'' = JBool True \<and> mentions ''HSCAN'' (field (field body ''data'') ''detail'') \<and>
      received_commands (upstream_of app) = [''TYPE'', ''TTL'', ''HLEN''])"
  proof (rule call_showsI [OF assms answer])
    show "length (api_text text_of (api_ok ?j)) \<le> MAX_RESPONSE_BODY_BYTES"
      unfolding detail_object_def j
      by (rule ok_object_text [OF assms])
        (simp_all add: omitted_page_def HASH_OMITTED_def object_entry [OF assms] show_int_def show_nat.simps limits)
    show "exact_json (api_json (api_ok ?j))"
      unfolding detail_object_def j
      by (intro exact_api exact_json_object) (simp add: omitted_page_def HASH_OMITTED_def in_i64_def limits)
    show "OK = OK \<and> field (field (api_json (api_ok ?j)) ''data'') ''length'' = JInt 150 \<and>
        field (field (api_json (api_ok ?j)) ''data'') ''returned'' = JInt 0 \<and>
        field (field (api_json (api_ok ?j)) ''data'') ''truncated'' = JBool True \<and>
        field (field (api_json (api_ok ?j)) ''data'') ''value'' = JNull \<and>
        field (field (api_json (api_ok ?j)) ''data'') ''value_omitted'' = JBool True \<and>
        mentions ''HSCAN'' (field (field (api_json (api_ok ?j)) ''data'') ''detail'') \<and>
        received_commands (upstream_of (?app\<lparr>app_world := w\<rparr>)) = [''TYPE'', ''TTL'', ''HLEN'']"
      using w(2) unfolding j
      by (simp add: detail_fields omitted_page_def HASH_OMITTED_def upstream_of_def received_commands_def received_def
          mock_before_def seed_def empty_mock_def v_def)
  qed
  then show ?thesis
    by (simp add: hash_key_detail_omits_values_without_scanning_def seed_hash_def v_def KEY_PATH_def)
qed

section \<open>The listener\<close>

lemma listener_test_holds: accepted_http_connections_are_limited_for_their_full_lifetime
  by (simp add: accepted_http_connections_are_limited_for_their_full_lifetime_def accept_http_def drop_io_def with_listener_limits_def)

lemma lifetime_test_holds: "http_connection_deadline_closes_slow_connections tcp s"
  by (simp add: http_connection_deadline_closes_slow_connections_def accept_http_def with_listener_limits_def poll_write_def
      poll_expired_def from_millis_def less_eq_Duration_def plus_Duration_def zero_Duration_def)

section \<open>Large values\<close>

lemma text_json:
  assumes "list_all text_char s" and "length s \<le> 1000"
  shows "to_json_with_budget t (bulk s) MAX_JSON_VALUE_BYTES = Ok (JString s)"
  by (rule converts_within [OF converts_text [OF plainI, of _ 1002]]) (use assms in \<open>simp_all add: limits\<close>)

lemma simple_json:
  "to_json_with_budget t (Simple ''PONG'') MAX_JSON_VALUE_BYTES = Ok (JString ''PONG'')"
  "to_json_with_budget t (Simple ''OK'') MAX_JSON_VALUE_BYTES = Ok (JString ''OK'')"
  by (simp_all add: to_json_with_budget_def new_json_budget_def consume_def consume_json_string_def
      escaped_length_def saturating_add_def limits)

lemma not_utf8: "\<not> valid_utf8 (replicate (Suc n) (CHR 0xFF))"
  by (simp add: valid_utf8_def utf8_chunks.simps utf8_scan_def char_width_def)

definition base64_object :: "bytes \<Rightarrow> json" where
  "base64_object bs = json_object [(''encoding'', JString ''base64''), (''data'', JString (base64_encode bs))]"

lemma binary_json:
  assumes "0 < n" and "(n + 2) div 3 * 4 \<le> 64000"
  shows "to_json_with_budget t (bulk (replicate n (CHR 0xFF))) MAX_JSON_VALUE_BYTES = Ok (base64_object (replicate n (CHR 0xFF)))"
proof -
  from assms(1) obtain m where "n = Suc m" by (cases n) simp_all
  with not_utf8 [of m] have "\<not> valid_utf8 (replicate n (CHR 0xFF))" by simp
  with assms show ?thesis
    by (simp add: to_json_with_budget_def bulk_def bulk_to_json_def from_utf8_def base64_encoded_length_def
        new_json_budget_def consume_def saturating_add_def BASE64_PREFIX_def BASE64_SUFFIX_def base64_object_def json_object_def limits
        del: replicate.simps replicate_Suc)
qed

lemma binary_refused:
  assumes "64600 \<le> (n + 2) div 3 * 4" and "n \<le> 100000"
  shows "to_json_with_budget t (bulk (replicate n (CHR 0xFF))) MAX_JSON_VALUE_BYTES = Err (json_refusal (new_json_budget MAX_JSON_VALUE_BYTES))"
proof -
  from assms(1) obtain m where "n = Suc m" by (cases n) simp_all
  with not_utf8 [of m] have "\<not> valid_utf8 (replicate n (CHR 0xFF))" by simp
  with assms show ?thesis
    by (simp add: to_json_with_budget_def bulk_def bulk_to_json_def from_utf8_def base64_encoded_length_def
        new_json_budget_def consume_def saturating_add_def BASE64_PREFIX_def BASE64_SUFFIX_def json_refusal_def limits
        del: replicate.simps replicate_Suc)
qed

lemma text_refused:
  assumes "64600 \<le> n" and "n \<le> 100000"
  shows "to_json_with_budget t (bulk (replicate n (CHR ''x''))) MAX_JSON_VALUE_BYTES = Err (json_refusal (new_json_budget MAX_JSON_VALUE_BYTES))"
proof -
  have "valid_utf8 (replicate n (CHR ''x''))" by (rule valid_utf8_ascii_string) simp
  moreover have "json_string_length 2 (replicate n (CHR ''x'')) = 2 + n"
    using assms(2) by (subst json_string_length_sum) (simp_all add: escaped_length_def sum_list_replicate limits)
  ultimately show ?thesis
    using assms
    by (simp add: to_json_with_budget_def bulk_def bulk_to_json_def from_utf8_def consume_json_string_def
        new_json_budget_def consume_def saturating_add_def json_refusal_def limits del: replicate.simps replicate_Suc)
qed

lemma http_parses:
  "parse ''ECHO hello'' = Ok [''ECHO'', ''hello'']" "parse ''SET http-key http-value'' = Ok [''SET'', ''http-key'', ''http-value'']"
  "parse ''GET http-key'' = Ok [''GET'', ''http-key'']" "parse ''LRANGE list 0 99'' = Ok [''LRANGE'', ''list'', ''0'', ''99'']"
  "parse ''XRANGE stream - + COUNT 100'' = Ok [''XRANGE'', ''stream'', ''-'', ''+'', ''COUNT'', ''100'']"
  "parse ''GET large'' = Ok [''GET'', ''large'']" "parse ''GET near-limit-binary'' = Ok [''GET'', ''near-limit-binary'']"
  "parse ''GET over-limit-binary'' = Ok [''GET'', ''over-limit-binary'']"
  by (rule parse_unwords, simp, simp add: word_def word_char_def, simp add: limits, simp add: limits)+

lemma double_free_text [simp]: "double_free (bulk s)" "double_free (Simple s)"
  by (simp_all add: bulk_def all_values.simps [of _ "Bulk x" for x] all_values.simps [of _ "Simple x" for x])

lemma double_free_shapes [simp]:
  "double_free (Array (Some (map bulk xs)))" "double_free (Array (Some (map stream_entry es)))"
  by (simp_all add: all_values.simps [of _ "Array x" for x] stream_entry_def list_all_iff)

lemma item_text: "item s \<Longrightarrow> valid_utf8 s"
  using plainI [of s] by (simp add: item_def plain_def)

lemma busy_items:
  "list_all item (take 100 (map (\<lambda>i. ''item-'' @ show_nat i) [0..<150]))"
  "list_all (\<lambda>e. item (fst e) \<and> list_all item (snd e) \<and> length (snd e) \<le> 2)
     (take 100 (map (\<lambda>i. (show_nat i @ ''-0'', [''field'', ''value-'' @ show_nat i])) [0..<150]))"
  by (auto simp: list_all_iff dest!: in_set_takeD)

lemma busy_json:
  "to_json_with_budget t busy_list_page MAX_JSON_VALUE_BYTES =
     Ok (JArray (map JString (take 100 (map (\<lambda>i. ''item-'' @ show_nat i) [0..<150]))))"
  "to_json_with_budget t busy_stream_page MAX_JSON_VALUE_BYTES =
     Ok (JArray (map entry_json (take 100 (map (\<lambda>i. (show_nat i @ ''-0'', [''field'', ''value-'' @ show_nat i])) [0..<150]))))"
  unfolding busy_list_page_def busy_stream_page_def
  by (rule converts_within [OF items_page(2) [OF busy_items(1)]], simp, simp add: limits, simp add: limits,
      rule converts_within [OF entries_page(2) [OF busy_items(2)]], simp, simp add: limits, simp add: limits)

lemma busy_exact:
  "exact_json (JArray (map JString (take 100 (map (\<lambda>i. ''item-'' @ show_nat i) [0..<150]))))"
  "exact_json (JArray (map entry_json (take 100 (map (\<lambda>i. (show_nat i @ ''-0'', [''field'', ''value-'' @ show_nat i])) [0..<150]))))"
  using busy_items by (auto simp: list_all_iff entry_json_def item_text)

lemma busy_answers:
  assumes "data (mock_state s) = (data busy_mock)(''http-key'' \<mapsto> v)"
  shows "answers [''LRANGE'', ''list'', ''0'', ''99''] busy_list_page s (log_command [''LRANGE'', ''list'', ''0'', ''99''] s)"
    "answers [''XRANGE'', ''stream'', ''-'', ''+'', ''COUNT'', ''100''] busy_stream_page s
       (log_command [''XRANGE'', ''stream'', ''-'', ''+'', ''COUNT'', ''100''] s)"
proof -
  have "dispatch_read (mock_state s) ''LRANGE'' [''list'', ''0'', ''99''] = Some busy_list_page"
    "dispatch_read (mock_state s) ''XRANGE'' [''stream'', ''-'', ''+'', ''COUNT'', ''100''] = Some busy_stream_page"
    unfolding busy_list_page_def busy_stream_page_def
    by (rule page_dispatch, simp add: assms busy_data)+
  then show "answers [''LRANGE'', ''list'', ''0'', ''99''] busy_list_page s (log_command [''LRANGE'', ''list'', ''0'', ''99''] s)"
    "answers [''XRANGE'', ''stream'', ''-'', ''+'', ''COUNT'', ''100''] busy_stream_page s
       (log_command [''XRANGE'', ''stream'', ''-'', ''+'', ''COUNT'', ''100''] s)"
    by (intro read_answers busy_pages_fit; simp add: read_names_def)+
qed

lemma double_free_pages: "double_free busy_list_page" "double_free busy_stream_page"
  by (simp_all only: busy_list_page_def busy_stream_page_def double_free_shapes)

lemma executes_test_holds:
  assumes doc: "documented_web web text_of"
  shows "executes_ordinary_commands_over_http web"
  unfolding executes_ordinary_commands_over_http_def busy_mock_def [symmetric] Let_def
  apply (rule then_executed [OF doc online_start ping_parses _ _ _ allowed_examples(1) ping_answers _ simple_json(1)],
      simp, simp add: short_acceptable, simp add: eq_ignore_ascii_case_def upper_eval, simp, simp, intro conjI, simp, simp)
  apply (erule then_executed [OF doc _ http_parses(1) _ _ _ allowed_examples(2) echo_answers _ text_json],
      simp, simp add: short_acceptable, simp add: eq_ignore_ascii_case_def upper_eval, simp, simp add: text_fits, simp,
      simp add: text_char_def, simp, simp, intro conjI, simp, simp)
  apply (erule then_executed [OF doc _ http_parses(2) _ _ _ allowed_examples(3) set_answers _ simple_json(2)],
      simp, simp add: short_acceptable, simp add: eq_ignore_ascii_case_def upper_eval, simp, simp, simp, simp, intro conjI, simp, simp)
  apply (erule then_executed [OF doc _ http_parses(3) _ _ _ allowed_examples(4) get_answers [OF _ _ text_fits get_dispatch(1) [of _ _ "''http-value''"]] _ text_json],
      simp, simp add: short_acceptable, simp add: eq_ignore_ascii_case_def upper_eval, simp, simp, simp, simp, simp,
      simp add: text_char_def, simp, simp, intro conjI, simp, simp)
  apply (erule then_executed [OF doc _ http_parses(4) _ _ _ allowed_examples(6) busy_answers(1) double_free_pages(1) busy_json(1) busy_exact(1)],
      simp, simp add: short_acceptable, simp add: eq_ignore_ascii_case_def upper_eval, simp, intro conjI, simp, simp)
  apply (erule then_executed [OF doc _ http_parses(5) _ _ _ allowed_examples(7) busy_answers(2) double_free_pages(2) busy_json(2) busy_exact(2)],
      simp, simp add: short_acceptable, simp add: eq_ignore_ascii_case_def upper_eval, simp, intro conjI, simp, simp)
  by (simp add: online_def received_commands_def busy_data upper_eval)

text \<open>The tests of large values.\<close>

definition holding :: "rstring \<Rightarrow> Stored \<Rightarrow> MockState" where
  "holding key v = seed key v empty_mock"

lemma get_holding:
  assumes "v = Str x \<or> v = Bytes x" and "valid_utf8 key" and "key \<noteq> ''__mock_malformed__''" and "length x \<le> 100000"
  shows "answers [''GET'', key] (bulk x) (start_session (holding key v)) (log_command [''GET'', key] (start_session (holding key v)))"
proof (rule get_answers [OF assms(2,3)])
  show "fits_budget MAX_RESPONSE_BYTES (bulk x)"
    by (rule bounded_reply_fits [OF bounded_text [OF assms(4)]]) (simp_all add: limits)
  show "dispatch_read (mock_state (start_session (holding key v))) ''GET'' [key] = Some (bulk x)"
    using assms(1) get_dispatch(1,2) [of "holding key v" key x] by (auto simp: holding_def seed_def)
qed

lemma refusal_text: "contains ''JSON conversion exceeds'' (json_refusal b)"
  unfolding contains_iff json_refusal_def
  by (intro exI [of _ "[]"] exI [of _ "'' the playground output budget of '' @ show_nat (json_limit b) @ '' bytes''"]) simp

text \<open>A value that is too large for the conversion.\<close>

lemma unconverted:
  assumes "documented_web web text_of" and "parse (''GET '' @ key) = Ok [''GET'', key]" and "valid_utf8 key \<and> length key \<le> 100"
    and "key \<noteq> ''__mock_malformed__''" and "v = Str x \<or> v = Bytes x" and "length x \<le> 100000"
    and "to_json_with_budget (to_text (library web)) (bulk x) MAX_JSON_VALUE_BYTES = Err (json_refusal b)"
  shows "\<exists>w. router (framework web) (library web) mock_env (execute_request (''GET '' @ key)) (test_state (holding key v) ''test'') =
    (api_response (pieces (library web)) PAYLOAD_TOO_LARGE (api_error (json_refusal b)),
     (test_state (holding key v) ''test'')\<lparr>app_world := w\<rparr>)"
proof -
  let ?app = "test_state (holding key v) ''test''"
  from online_execute [OF online_start _ _ get_holding [OF assms(5) _ assms(4,6)]] assms(3) obtain w where
    w: "execute mock_env (resp_addr ?app) [''GET'', key] (app_world ?app) = (Ok (bulk x), w)"
    by (auto simp: short_acceptable)
  have "is_allowed (classify_arguments [''GET'', key])"
    using allowed_examples(4) [of key] assms(3) by (simp add: entry_points_agree)
  then have "execute_command (library web) mock_env (''GET '' @ key) ?app =
      (api_response (pieces (library web)) PAYLOAD_TOO_LARGE (api_error (json_refusal b)), ?app\<lparr>app_world := w\<rparr>)"
    using assms(2,7) w refusal_text [of b]
    by (simp add: execute_command_def Let_def with_permit_def test_state_def converted_reply_def eq_ignore_ascii_case_def upper_eval)
  moreover have "valid_utf8 (''GET '' @ key) \<and> length (''GET '' @ key) \<le> 10000" using assms(3) by simp
  ultimately show ?thesis using routed_execute [OF assms(1)] by blast
qed

lemma oversized_http_test_holds:
  assumes "documented_web web text_of"
  shows "oversized_http_results_are_replaced_with_a_bounded_error_body web"
proof -
  let ?x = "replicate (MAX_RESPONSE_BODY_BYTES + 1) (CHR ''x'')"
  from unconverted [OF assms, of "''large''" "Str ?x" ?x] http_parses(6)
    text_refused [of "MAX_RESPONSE_BODY_BYTES + 1" "to_text (library web)"] obtain w where
    "router (framework web) (library web) mock_env (execute_request ''GET large'') (test_state (holding ''large'' (Str ?x)) ''test'') =
      (api_response (pieces (library web)) PAYLOAD_TOO_LARGE (api_error (json_refusal (new_json_budget MAX_JSON_VALUE_BYTES))),
       (test_state (holding ''large'' (Str ?x)) ''test'')\<lparr>app_world := w\<rparr>)"
    by (auto simp: limits simp del: replicate.simps replicate_Suc)
  moreover have "status (api_response writes PAYLOAD_TOO_LARGE r) = PAYLOAD_TOO_LARGE" for writes r
    by (simp add: api_response_def split: result.split)
  ultimately show ?thesis
    by (simp add: oversized_http_results_are_replaced_with_a_bounded_error_body_def seed_string_def holding_def
        api_response_bounded Let_def del: replicate.simps replicate_Suc)
qed

lemma over_limit_test_holds:
  assumes "documented_web web text_of"
  shows "oversized_binary_bulk_is_rejected_during_http_conversion web"
proof -
  let ?x = "replicate (49 * 1024) (CHR 0xFF)" and ?e = "json_refusal (new_json_budget MAX_JSON_VALUE_BYTES)"
  let ?app = "test_state (holding ''over-limit-binary'' (Bytes ?x)) ''test''"
  from unconverted [OF assms, of "''over-limit-binary''" "Bytes ?x" ?x] http_parses(8)
    binary_refused [of "49 * 1024" "to_text (library web)"] obtain w where
    answer: "router (framework web) (library web) mock_env (execute_request ''GET over-limit-binary'') ?app =
      (api_response (pieces (library web)) PAYLOAD_TOO_LARGE (api_error ?e), ?app\<lparr>app_world := w\<rparr>)"
    by (auto simp del: replicate.simps replicate_Suc)
  have e: "valid_utf8 ?e \<and> length ?e \<le> 8000"
    by (simp add: json_refusal_def new_json_budget_def show_nat.simps limits)
  have "call_shows web (execute_request ''GET over-limit-binary'') ?app (\<lambda>status body app.
      status = PAYLOAD_TOO_LARGE \<and> field body ''success'' = JBool False \<and> mentions ''JSON conversion exceeds'' (field body ''error''))"
    by (rule call_error [OF assms answer e]) (simp add: refusal_text)
  with answer show ?thesis
    by (simp add: oversized_binary_bulk_is_rejected_during_http_conversion_def seed_bytes_def holding_def [symmetric]
        api_response_bounded Let_def del: replicate.simps replicate_Suc)
qed

lemma base64_fields:
  "field (base64_object bs) ''encoding'' = JString ''base64''" "field (base64_object bs) ''data'' = JString (base64_encode bs)"
  "exact_json (base64_object bs)" "array_length (base64_object bs) = None"
  by (simp_all add: base64_object_def field_object exact_json_object valid_base64) (simp add: json_object_def)

lemma near_limit_test_holds:
  assumes "documented_web web text_of"
  shows "binary_bulk_near_the_http_limit_uses_a_compact_base64_object web"
proof -
  let ?x = "replicate (45 * 1024) (CHR 0xFF)" and ?key = "''near-limit-binary''"
  have "call_shows web (execute_request ''GET near-limit-binary'') (test_state (holding ?key (Bytes ?x)) ''test'') (\<lambda>status body app.
      status = OK \<and> field (field body ''data'') ''encoding'' = JString ''base64'' \<and>
      string_length (field (field body ''data'') ''data'') = Some ((length ?x + 2) div 3 * 4) \<and>
      array_length (field body ''data'') = None)"
  proof (rule then_executed [OF assms online_start http_parses(7) _ _ _ allowed_examples(4) get_holding double_free_text(1)
        binary_json base64_fields(3)])
    show "OK = OK \<and> field (field (api_json (api_ok (base64_object ?x))) ''data'') ''encoding'' = JString ''base64'' \<and>
        string_length (field (field (api_json (api_ok (base64_object ?x))) ''data'') ''data'') = Some ((length ?x + 2) div 3 * 4) \<and>
        array_length (field (api_json (api_ok (base64_object ?x))) ''data'') = None"
      by (simp add: base64_fields base64_length del: replicate.simps replicate_Suc)
  qed (simp_all add: short_acceptable eq_ignore_ascii_case_def upper_eval del: replicate.simps replicate_Suc)
  then show ?thesis
    by (simp add: binary_bulk_near_the_http_limit_uses_a_compact_base64_object_def seed_bytes_def holding_def [symmetric]
        Let_def del: replicate.simps replicate_Suc)
qed

end
