(* ===== verification/Timed_Read.thy ===== *)
theory Timed_Read
  imports Timing Io_Stream
begin

text \<open>
  Reading against the clock.  A \<open>timed_stream\<close> says when each byte arrives and when the stream ends; what
  has arrived by a moment is a \<open>stream\<close> of \<open>Io_Stream\<close> that is silent after its last byte.  A read
  completes at the first moment at which what has arrived is enough for it, and \<open>tokio\<close>'s \<open>timeout\<close>
  abandons it at its deadline.

  The locale \<open>patient_read\<close> is the contract of a read that only looks at the bytes it takes: it is
  not changed by what arrives after it has completed.
\<close>

section \<open>Arrival\<close>

record timed_stream =
  arrivals :: "(Duration \<times> u8) list"
  ends_at :: Duration
  final :: stream_end

text \<open>A byte is not seen before the bytes sent ahead of it.\<close>

definition arrived_by :: "Duration \<Rightarrow> timed_stream \<Rightarrow> stream" where
  "arrived_by t ts =
     (let here = takeWhile (\<lambda>a. fst a \<le> t) (arrivals ts) in
      \<lparr>pending = map snd here,
       ending = (if length here = length (arrivals ts) \<and> ends_at ts \<le> t then final ts else Silent)\<rparr>)"

definition skip :: "nat \<Rightarrow> timed_stream \<Rightarrow> timed_stream" where
  "skip n ts = ts\<lparr>arrivals := drop n (arrivals ts)\<rparr>"

text \<open>More may have arrived on \<open>s'\<close> than on \<open>s\<close>.\<close>

definition extends :: "stream \<Rightarrow> stream \<Rightarrow> bool" where
  "extends s s' \<longleftrightarrow>
     (\<exists>more_bytes. pending s' = pending s @ more_bytes \<and>
        (ending s = Silent \<or> more_bytes = [] \<and> ending s' = ending s))"

lemma extends_refl [simp]: "extends s s"
  by (simp add: extends_def)

lemma extends_ended: "extends s s' \<Longrightarrow> ending s \<noteq> Silent \<Longrightarrow> s' = s"
  by (cases s; cases s') (auto simp: extends_def)

lemma extends_drop:
  "extends s s' \<Longrightarrow> n \<le> length (pending s) \<Longrightarrow>
     extends (s\<lparr>pending := drop n (pending s)\<rparr>) (s'\<lparr>pending := drop n (pending s')\<rparr>)"
  by (auto simp: extends_def)

lemma takeWhile_earlier:
  assumes "t \<le> t'"
  shows "\<exists>ys. takeWhile (\<lambda>a. fst a \<le> t') as = takeWhile (\<lambda>a. fst a \<le> (t :: Duration)) as @ ys"
proof (induction as)
  case (Cons a as)
  with assms show ?case by (auto dest: order_trans)
qed simp

lemma length_takeWhile_full: "length (takeWhile P xs) = length xs \<longleftrightarrow> (\<forall>x \<in> set xs. P x)"
  by (induction xs) auto

lemma arrived_by_extends:
  assumes "t \<le> t'"
  shows "extends (arrived_by t ts) (arrived_by t' ts)"
proof -
  obtain ys where ys: "takeWhile (\<lambda>a. fst a \<le> t') (arrivals ts) = takeWhile (\<lambda>a. fst a \<le> t) (arrivals ts) @ ys"
    using takeWhile_earlier [OF assms] by blast
  have "ys = []" if "length (takeWhile (\<lambda>a. fst a \<le> t) (arrivals ts)) = length (arrivals ts)"
    using that ys length_takeWhile_le [of "\<lambda>a. fst a \<le> t'" "arrivals ts"] by simp
  with ys assms show ?thesis by (auto simp: arrived_by_def extends_def Let_def)
qed

lemma takeWhile_drop:
  "n \<le> length (takeWhile P xs) \<Longrightarrow> takeWhile P (drop n xs) = drop n (takeWhile P xs)"
proof (induction n arbitrary: xs)
  case (Suc n)
  then show ?case by (cases xs) (auto split: if_split_asm)
qed simp

lemma arrived_by_skip:
  assumes "n \<le> length (pending (arrived_by t ts))"
  shows "arrived_by t (skip n ts) = (arrived_by t ts)\<lparr>pending := drop n (pending (arrived_by t ts))\<rparr>"
proof -
  from assms have n: "n \<le> length (takeWhile (\<lambda>a. fst a \<le> t) (arrivals ts))" by (simp add: arrived_by_def Let_def)
  then have "n \<le> length (arrivals ts)"
    using length_takeWhile_le [of "\<lambda>a. fst a \<le> t" "arrivals ts"] by linarith
  with n show ?thesis by (auto simp: arrived_by_def skip_def Let_def takeWhile_drop drop_map)
qed

section \<open>Completion\<close>

definition moments :: "Duration \<Rightarrow> timed_stream \<Rightarrow> Duration list" where
  "moments now ts = now # filter (\<lambda>t. now \<le> t) (map fst (arrivals ts) @ [ends_at ts])"

definition completes_at ::
    "(stream \<Rightarrow> ('a \<times> stream, fault) result) \<Rightarrow> Duration \<Rightarrow> timed_stream \<Rightarrow> Duration option" where
  "completes_at op now ts =
     (let ts' = filter (\<lambda>t. op (arrived_by t ts) \<noteq> Err Hang) (moments now ts)
      in if ts' = [] then None else Some (Min (set ts')))"

definition timed_read ::
    "(stream \<Rightarrow> ('a \<times> stream, fault) result) \<Rightarrow> Duration \<Rightarrow> timed_stream \<Rightarrow>
     (('a \<times> timed_stream, fault) result \<times> Duration) option" where
  "timed_read op now ts =
     map_option (\<lambda>t.
       (and_then (op (arrived_by t ts)) (\<lambda>(a, s).
          Ok (a, skip (length (pending (arrived_by t ts)) - length (pending s)) ts)), t))
       (completes_at op now ts)"

text \<open>\<open>timeout(limit, op).await\<close> with the error the code makes of an elapsed deadline.\<close>

definition cut_off :: "Duration \<Rightarrow> fault \<Rightarrow> Duration \<Rightarrow> (('a, fault) result \<times> Duration) option \<Rightarrow> ('a, fault) result \<times> Duration" where
  "cut_off limit e now r =
     (case r of
        Some (r, t) \<Rightarrow> if t \<le> now + limit then (r, t) else (Err e, now + limit)
      | None \<Rightarrow> (Err e, now + limit))"

text \<open>Between two moments at which something arrives nothing changes.\<close>

lemma arrived_by_moment:
  assumes "now \<le> d"
  shows "\<exists>t \<in> set (moments now ts). t \<le> d \<and> arrived_by t ts = arrived_by d ts"
proof -
  let ?T = "{t \<in> set (moments now ts). t \<le> d}"
  let ?t = "Max ?T"
  have T: "finite ?T" "now \<in> ?T" using assms by (auto simp: moments_def)
  then have t: "?t \<in> ?T" using Max_in [of ?T] by blast
  have same: "e \<le> ?t \<longleftrightarrow> e \<le> d" if "e \<in> insert (ends_at ts) (fst ` set (arrivals ts))" for e
  proof
    assume "e \<le> d"
    show "e \<le> ?t"
    proof (cases "now \<le> e")
      case True
      with that \<open>e \<le> d\<close> have "e \<in> ?T" by (auto simp: moments_def)
      then show ?thesis using T(1) by simp
    next
      case False
      then have "e \<le> now" by simp
      also have "now \<le> ?t" using T by simp
      finally show ?thesis .
    qed
  qed (use t in auto)
  then have "takeWhile (\<lambda>a. fst a \<le> ?t) (arrivals ts) = takeWhile (\<lambda>a. fst a \<le> d) (arrivals ts)"
    by (intro takeWhile_cong) auto
  with same t show ?thesis by (intro bexI [of _ ?t]) (auto simp: arrived_by_def)
qed

lemma completes_at_Some:
  assumes "completes_at op now ts = Some t"
  shows "now \<le> t" and "op (arrived_by t ts) \<noteq> Err Hang"
proof -
  let ?S = "filter (\<lambda>t. op (arrived_by t ts) \<noteq> Err Hang) (moments now ts)"
  from assms have "?S \<noteq> []" "t = Min (set ?S)"
    unfolding completes_at_def Let_def by (simp_all only: option.inject option.distinct not_False_eq_True split: if_split_asm)
  then have "t \<in> set ?S" using Min_in [of "set ?S"] by (simp only: List.finite_set set_empty simp_thms)
  then have t: "t \<in> set (moments now ts)" and waited: "op (arrived_by t ts) \<noteq> Err Hang"
    unfolding set_filter by blast+
  from t show "now \<le> t" by (auto simp: moments_def split: if_split_asm)
  from waited show "op (arrived_by t ts) \<noteq> Err Hang" .
qed

lemma completes_at_late:
  assumes "now \<le> d" and "op (arrived_by d ts) \<noteq> Err Hang"
  shows "\<exists>t \<le> d. completes_at op now ts = Some t"
proof -
  let ?S = "filter (\<lambda>t. op (arrived_by t ts) \<noteq> Err Hang) (moments now ts)"
  from arrived_by_moment [OF assms(1), of ts] obtain t where
    "t \<in> set (moments now ts)" "t \<le> d" "arrived_by t ts = arrived_by d ts" by blast
  with assms(2) have t: "t \<in> set ?S" by simp
  then have "Min (set ?S) \<le> d" using \<open>t \<le> d\<close> by (meson List.finite_set Min_le order_trans)
  moreover have "?S \<noteq> []" using t by (metis length_pos_if_in_set list.size(3) not_less_zero)
  then have "completes_at op now ts = Some (Min (set ?S))" by (simp only: completes_at_def Let_def if_False)
  ultimately show ?thesis by blast
qed

lemma completes_at_eq:
  assumes "now \<le> d" and "op (arrived_by d ts) \<noteq> Err Hang" and "\<And>t. now \<le> t \<Longrightarrow> t < d \<Longrightarrow> op (arrived_by t ts) = Err Hang"
  shows "completes_at op now ts = Some d"
proof -
  from completes_at_late [where op = op, OF assms(1,2)] obtain t where t: "t \<le> d" "completes_at op now ts = Some t" by blast
  from completes_at_Some [OF t(2)] assms(3) [of t] have "\<not> t < d" by blast
  with t show ?thesis by (simp add: less_le)
qed

section \<open>Patient reads\<close>

locale patient_read =
  fixes op :: "stream \<Rightarrow> ('a \<times> stream, fault) result"
  assumes takes: "op s = Ok (a, r) \<Longrightarrow>
      length (pending r) \<le> length (pending s) \<and>
      r = s\<lparr>pending := drop (length (pending s) - length (pending r)) (pending s)\<rparr>"
    and keeps: "op s = Ok (a, r) \<Longrightarrow> extends s s' \<Longrightarrow>
      op s' = Ok (a, s'\<lparr>pending := drop (length (pending s) - length (pending r)) (pending s')\<rparr>)"
    and fails: "op s = Err (Fail e) \<Longrightarrow> extends s s' \<Longrightarrow> op s' = Err (Fail e)"
begin

text \<open>What the read yields can be told from what has arrived at any later moment.\<close>

lemma timed_read_Ok:
  assumes "timed_read op now ts = Some (Ok (a, ts'), t)" and "t \<le> d"
  shows "now \<le> t \<and> op (arrived_by d ts) = Ok (a, arrived_by d ts')"
proof -
  from assms(1) obtain s where c: "completes_at op now ts = Some t" and s: "op (arrived_by t ts) = Ok (a, s)"
    and ts': "ts' = skip (length (pending (arrived_by t ts)) - length (pending s)) ts"
    by (auto simp: timed_read_def)
  let ?n = "length (pending (arrived_by t ts)) - length (pending s)"
  have e: "extends (arrived_by t ts) (arrived_by d ts)" using arrived_by_extends [OF assms(2)] .
  then have "?n \<le> length (pending (arrived_by d ts))" by (auto simp: extends_def)
  from keeps [OF s e] arrived_by_skip [OF this] completes_at_Some(1) [OF c] show ?thesis by (simp add: ts')
qed

lemma timed_read_Err:
  assumes "timed_read op now ts = Some (Err f, t)" and "t \<le> d"
  shows "now \<le> t \<and> f \<noteq> Hang \<and> op (arrived_by d ts) = Err f"
proof -
  from assms(1) have c: "completes_at op now ts = Some t" and f: "op (arrived_by t ts) = Err f"
    by (auto simp: timed_read_def)
  from completes_at_Some [OF c] f have "now \<le> t" "f \<noteq> Hang" by auto
  moreover from this f have "op (arrived_by d ts) = Err f"
    using fails [OF _ arrived_by_extends [OF assms(2)]] by (cases f) auto
  ultimately show ?thesis by simp
qed

text \<open>A read that its deadline has cut off still waits for bytes at the deadline.\<close>

lemma timed_read_late:
  assumes "cut_off limit e start (timed_read op now ts) = (r, t)" and "now \<le> start + limit"
    and "\<And>r' t'. timed_read op now ts = Some (r', t') \<Longrightarrow> \<not> t' \<le> start + limit"
  shows "r = Err e \<and> t = start + limit \<and> op (arrived_by t ts) = Err Hang"
proof -
  have "op (arrived_by (start + limit) ts) = Err Hang"
  proof (rule ccontr)
    assume "op (arrived_by (start + limit) ts) \<noteq> Err Hang"
    from completes_at_late [where op = op, OF assms(2) this] obtain t' where
      "t' \<le> start + limit" "completes_at op now ts = Some t'" by blast
    with assms(3) show False by (simp add: timed_read_def)
  qed
  moreover from assms(1,3) have "r = Err e \<and> t = start + limit"
    by (auto simp: cut_off_def split: option.split_asm prod.split_asm if_split_asm)
  ultimately show ?thesis by simp
qed

lemma cut_off_read:
  assumes "cut_off limit (Fail e) start (timed_read op now ts) = (r, t)" and "now \<le> start + limit"
  obtains a ts' where "r = Ok (a, ts')" "now \<le> t" "t \<le> start + limit"
      "\<And>d. t \<le> d \<Longrightarrow> op (arrived_by d ts) = Ok (a, arrived_by d ts')"
    | f where "r = Err f" "now \<le> t" "t \<le> start + limit" "with_timeout e (op (arrived_by t ts)) = Err f"
proof (cases "\<exists>r' t'. timed_read op now ts = Some (r', t') \<and> t' \<le> start + limit")
  case True
  with assms(1) have r: "timed_read op now ts = Some (r, t)" "t \<le> start + limit" by (auto simp: cut_off_def)
  show thesis
  proof (cases r)
    case (Ok p)
    then obtain a ts' where "r = Ok (a, ts')" by (cases p) auto
    with timed_read_Ok r that(1) show thesis by (metis order_refl)
  next
    case (Err f)
    with timed_read_Err [of now ts f t t] r have "now \<le> t" "f \<noteq> Hang" "op (arrived_by t ts) = Err f" by auto
    with that(2) [OF Err] r(2) show thesis by (cases f) (simp_all add: with_timeout_def)
  qed
next
  case False
  with timed_read_late [OF assms] have "r = Err (Fail e)" "t = start + limit" "op (arrived_by t ts) = Err Hang" by auto
  with that(2) assms(2) show thesis by (simp add: with_timeout_def)
qed

text \<open>At its deadline a read that was cut off, or completed before, shows the same result.\<close>

lemma cut_off_seen:
  assumes "cut_off limit (Fail e) start (timed_read op now ts) = (r, t)" and "now \<le> start + limit"
  shows "now \<le> t \<and> t \<le> start + limit \<and> with_timeout e (op (arrived_by (start + limit) ts)) =
    (case r of Ok (a, ts') \<Rightarrow> Ok (a, arrived_by (start + limit) ts') | Err f \<Rightarrow> Err f)"
proof (cases "\<exists>r' t'. timed_read op now ts = Some (r', t') \<and> t' \<le> start + limit")
  case True
  with assms(1) have r: "timed_read op now ts = Some (r, t)" "t \<le> start + limit" by (auto simp: cut_off_def)
  show ?thesis
  proof (cases r)
    case (Ok p)
    then obtain a ts' where "r = Ok (a, ts')" by (cases p) auto
    with timed_read_Ok r show ?thesis by (auto simp: with_timeout_def)
  next
    case (Err f)
    with timed_read_Err [of now ts f t "start + limit"] r show ?thesis by (cases f) (auto simp: with_timeout_def)
  qed
next
  case False
  with timed_read_late [OF assms] have "r = Err (Fail e)" "t = start + limit" "op (arrived_by (start + limit) ts) = Err Hang"
    by auto
  with assms(2) show ?thesis by (simp add: with_timeout_def)
qed

text \<open>A read whose error is put into context and whose value is checked stays patient.\<close>

lemma checked_read:
  "patient_read (\<lambda>s. and_then (map_err (in_context prefix) (op s)) (\<lambda>(a, s). and_then (check a) (\<lambda>b. Ok (b, s))))"
  if "\<And>a. check a \<noteq> Err Hang"
proof
  let ?op = "\<lambda>s. and_then (map_err (in_context prefix) (op s)) (\<lambda>(a, s). and_then (check a) (\<lambda>b. Ok (b, s)))"
  fix s b r s' e
  show "length (pending r) \<le> length (pending s) \<and>
      r = s\<lparr>pending := drop (length (pending s) - length (pending r)) (pending s)\<rparr>" if "?op s = Ok (b, r)"
    using that takes by auto
  show "?op s' = Ok (b, s'\<lparr>pending := drop (length (pending s) - length (pending r)) (pending s')\<rparr>)"
    if "?op s = Ok (b, r)" and "extends s s'"
    using that keeps by fastforce
  show "?op s' = Err (Fail e)" if e: "?op s = Err (Fail e)" and x: "extends s s'"
  proof (cases "op s")
    case (Ok p)
    with e keeps [of s "fst p" "snd p" s'] x show ?thesis by (cases p) auto
  next
    case (Err f)
    with e fails [of s _ s'] x show ?thesis by (cases f) auto
  qed
qed

end

interpretation exact: patient_read "read_exact n" for n
proof
  fix s a r s' e
  show "length (pending r) \<le> length (pending s) \<and>
      r = s\<lparr>pending := drop (length (pending s) - length (pending r)) (pending s)\<rparr>"
    if "read_exact n s = Ok (a, r)"
    using that by (auto simp: read_exact_def split: if_split_asm stream_end.split_asm)
  show "read_exact n s' = Ok (a, s'\<lparr>pending := drop (length (pending s) - length (pending r)) (pending s')\<rparr>)"
    if "read_exact n s = Ok (a, r)" and "extends s s'"
    using that by (auto simp: read_exact_def extends_def split: if_split_asm stream_end.split_asm)
  show "read_exact n s' = Err (Fail e)" if "read_exact n s = Err (Fail e)" and "extends s s'"
    using that extends_ended [of s s'] by (auto simp: read_exact_def split: if_split_asm stream_end.split_asm)
qed

end
