(* ===== verification/Timed_Request.thy ===== *)
theory Timed_Request
  imports Timed_Read Proxy
begin

text \<open>
  \<open>read_request\<close> of \<open>proxy.rs\<close> with its deadlines: every read after the first line has five seconds,
  and \<open>handle_connection\<close> gives the whole of it twenty.  The clock is threaded through the code of
  \<open>Proxy_Request\<close>; that theory's untimed reading is shown to be its result on what has arrived.
\<close>

section \<open>Definitions\<close>

definition CLIENT_IDLE_TIMEOUT :: Duration where
  [limits]: "CLIENT_IDLE_TIMEOUT = from_secs 20"

definition CLIENT_READ_TIMEOUT :: Duration where
  [limits]: "CLIENT_READ_TIMEOUT = from_secs CLIENT_READ_TIMEOUT_SECS"

text \<open>The code's \<open>?\<close> with the time at which it happens.\<close>

definition and_later :: "('a, 'e) result \<times> Duration \<Rightarrow> ('a \<Rightarrow> Duration \<Rightarrow> ('b, 'e) result \<times> Duration) \<Rightarrow> ('b, 'e) result \<times> Duration" where
  "and_later p k = (case p of (Ok a, t) \<Rightarrow> k a t | (Err e, t) \<Rightarrow> (Err e, t))"

text \<open>What is decided between two reads: the header of an argument, with its declared size reserved, and the
  first line of a request, with its argument slots reserved (\<open>None\<close>: no arguments).\<close>

definition accept_bulk ::
    "bytes option \<Rightarrow> nat \<Rightarrow> RequestByteBudget \<Rightarrow> (nat \<times> nat \<times> nat option \<times> RequestByteBudget, rstring) result" where
  "accept_bulk header sofar b =
     and_then (ok_or ''ERR unexpected end of RESP command'' header) (\<lambda>header.
     if \<not> starts_with header ''$'' then
       Err (''ERR Protocol error: expected '' @ [CHR 0x27] @ ''$'' @ [CHR 0x27] @ '', got something else'')
     else and_then (request_number (drop 1 header) ''bulk length'') (\<lambda>length.
     if length < 0 \<or> as_usize length > MAX_REQUEST_BULK then
       Err (''ERR Protocol error: invalid bulk length (maximum '' @ show_nat MAX_REQUEST_BULK @ '' bytes)'')
     else
       let sofar = saturating_add sofar (as_usize length) in
       if sofar > MAX_REQUEST_BYTES then
         Err (''ERR command is too large (maximum '' @ show_nat MAX_REQUEST_BYTES @ '' bytes)'')
       else and_then (reserve b (as_usize length)) (\<lambda>(permit, b). Ok (as_usize length, sofar, permit, b))))"

definition accept_count ::
    "bytes \<Rightarrow> RequestByteBudget \<Rightarrow> ((nat \<times> nat option \<times> RequestByteBudget) option, rstring) result" where
  "accept_count header b =
     (if \<not> starts_with header ''*'' then
        Err ''ERR Protocol error: inline commands are not supported; use RESP arrays''
      else and_then (request_number (drop 1 header) ''argument count'') (\<lambda>count.
        if count \<le> 0 then Ok None
        else if as_usize count > MAX_ARGUMENTS then
          Err (''ERR command has too many arguments (maximum '' @ show_nat MAX_ARGUMENTS @ '')'')
        else and_then (reserve b (as_usize count * ARGUMENT_SLOT_OVERHEAD_BYTES)) (\<lambda>(permit, b).
          Ok (Some (as_usize count, permit, b)))))"

definition with_permit_of :: "nat option \<Rightarrow> nat list \<Rightarrow> nat list" where
  "with_permit_of permit reservation = (case permit of Some p \<Rightarrow> p # reservation | None \<Rightarrow> reservation)"

fun timed_arguments ::
    "nat \<Rightarrow> nat \<Rightarrow> timed_stream \<Rightarrow> RequestByteBudget \<Rightarrow> Duration \<Rightarrow>
     (bytes list \<times> nat list \<times> timed_stream \<times> RequestByteBudget, fault) result \<times> Duration" where
  "timed_arguments 0 sofar ts b now = (Ok ([], [], ts, b), now)"
| "timed_arguments (Suc n) sofar ts b now =
     and_later
       (cut_off CLIENT_READ_TIMEOUT (Fail read_timeout_error) now (timed_read (\<lambda>s. read_line s MAX_REQUEST_LINE) now ts))
       (\<lambda>(header, ts) now.
     and_later (fallible (accept_bulk header sofar b), now) (\<lambda>(len, sofar, permit, b) now.
     and_later
       (cut_off CLIENT_READ_TIMEOUT (Fail read_timeout_error) now
         (timed_read (\<lambda>s. map_err (in_context ''ERR failed to read RESP argument: '') (read_exact (len + 2) s)) now ts))
       (\<lambda>(data, ts) now.
     if \<not> ends_with data crlf then (Err (Fail ''ERR Protocol error: unbalanced argument terminator''), now)
     else and_later (timed_arguments n sofar ts b now) (\<lambda>(arguments, reservation, ts, b) now.
       (Ok (take len data # arguments, with_permit_of permit reservation, ts, b), now)))))"

text \<open>\<open>None\<close>: the first line never arrives.\<close>

definition timed_request ::
    "timed_stream \<Rightarrow> RequestByteBudget \<Rightarrow> Duration \<Rightarrow>
     ((Request \<times> nat list \<times> timed_stream \<times> RequestByteBudget, fault) result \<times> Duration) option" where
  "timed_request ts b now =
     map_option (\<lambda>p. and_later p (\<lambda>(first, ts) now.
       case first of
         None \<Rightarrow> (Ok (Eof, [], ts, b), now)
       | Some header \<Rightarrow>
           and_later (fallible (accept_count header b), now) (\<lambda>accepted now.
             case accepted of
               None \<Rightarrow> (Ok (Command [], [], ts, b), now)
             | Some (count, permit, b) \<Rightarrow>
                 and_later (timed_arguments count 0 ts b now) (\<lambda>(arguments, reservation, ts, b) now.
                   (Ok (Command arguments, with_permit_of permit reservation, ts, b), now)))))
     (timed_read (\<lambda>s. read_line s MAX_REQUEST_LINE) now ts)"

text \<open>The read of one iteration of \<open>handle_connection\<close>; \<open>Hang\<close> is the idle timeout.\<close>

definition next_request ::
    "timed_stream \<Rightarrow> RequestByteBudget \<Rightarrow> Duration \<Rightarrow>
     (Request \<times> nat list \<times> timed_stream \<times> RequestByteBudget, fault) result \<times> Duration" where
  "next_request ts b now = cut_off CLIENT_IDLE_TIMEOUT Hang now (timed_request ts b now)"

section \<open>The reads are patient\<close>

lemma read_until_limited_cases:
  assumes "read_until_limited d n s = Ok (a, r)" and "extends s s'"
  shows "pending s = a @ pending r \<and> r = s\<lparr>pending := pending r\<rparr> \<and>
    read_until_limited d n s' = Ok (a, s'\<lparr>pending := drop (length a) (pending s')\<rparr>)"
proof -
  from assms(2) obtain x where x: "pending s' = pending s @ x" by (auto simp: extends_def)
  show ?thesis
  proof (cases "split_after d (take n (pending s))")
    case None
    show ?thesis
    proof (cases "n \<le> length (pending s)")
      case True
      with None assms(1) x show ?thesis by (auto simp: read_until_limited_def)
    next
      case False
      with None assms(1) have "read_until d s = Ok (a, r)" "split_after d (pending s) = None"
        by (simp_all add: read_until_limited_def)
      then have "a = pending s" "r = s\<lparr>pending := []\<rparr>" "ending s \<noteq> Silent"
        by (auto simp: read_until_def split: stream_end.split_asm)
      moreover from this assms(2) have "s' = s" by (simp add: extends_ended)
      ultimately show ?thesis using assms(1) by simp
    qed
  next
    case (Some p)
    then obtain rest where p: "split_after d (take n (pending s)) = Some (a, rest)"
      and r: "r = s\<lparr>pending := drop (length a) (pending s)\<rparr>"
      using assms(1) by (cases p) (auto simp: read_until_limited_def)
    from split_after_Some [OF p] have "take n (pending s) = a @ rest" by simp
    then have "pending s = a @ drop (length a) (pending s)"
      by (metis append_eq_conv_conj append_take_drop_id append_assoc)
    moreover from p have "split_after d (take n (pending s')) = Some (a, rest @ take (n - length (pending s)) x)"
      by (simp add: x split_after_extend)
    ultimately show ?thesis using r by (simp add: read_until_limited_def)
  qed
qed

interpretation limited: patient_read "read_until_limited d n" for d n
proof
  fix s a r s' e
  show "length (pending r) \<le> length (pending s) \<and>
      r = s\<lparr>pending := drop (length (pending s) - length (pending r)) (pending s)\<rparr>"
    if "read_until_limited d n s = Ok (a, r)"
    using read_until_limited_cases [OF that extends_refl] by auto
  show "read_until_limited d n s' =
      Ok (a, s'\<lparr>pending := drop (length (pending s) - length (pending r)) (pending s')\<rparr>)"
    if "read_until_limited d n s = Ok (a, r)" and "extends s s'"
    using read_until_limited_cases [OF that] by auto
  show "read_until_limited d n s' = Err (Fail e)"
    if "read_until_limited d n s = Err (Fail e)" and "extends s s'"
  proof -
    from that(1) have "ending s \<noteq> Silent"
      by (auto simp: read_until_limited_def read_until_def split: option.split_asm if_split_asm stream_end.split_asm)
    with that extends_ended [OF that(2)] show ?thesis by simp
  qed
qed

definition check_line :: "nat \<Rightarrow> bytes \<Rightarrow> (bytes option, fault) result" where
  "check_line limit got =
     (if got = [] then Ok None
      else if \<not> ends_with got [LF] then
        Err (Fail (''ERR Protocol error: command line exceeds '' @ show_nat limit @ '' bytes''))
      else Ok (Some (if ends_with (butlast got) [CR] then butlast (butlast got) else butlast got)))"

lemma read_line_checked:
  "(\<lambda>s. read_line s limit) =
     (\<lambda>s. and_then (map_err (in_context ''ERR failed to read command: '') (read_until_limited LF (limit + 1) s))
        (\<lambda>(a, s). and_then (check_line limit a) (\<lambda>b. Ok (b, s))))"
proof
  fix s
  show "read_line s limit =
      and_then (map_err (in_context ''ERR failed to read command: '') (read_until_limited LF (limit + 1) s))
        (\<lambda>(a, s). and_then (check_line limit a) (\<lambda>b. Ok (b, s)))"
    by (cases "read_until_limited LF (limit + 1) s") (auto simp: read_line_def check_line_def Let_def)
qed

interpretation line: patient_read "\<lambda>s. read_line s limit" for limit
  unfolding read_line_checked by (rule limited.checked_read) (simp add: check_line_def)

interpretation payload: patient_read "\<lambda>s. map_err (in_context prefix) (read_exact n s)" for prefix n
proof -
  have "and_then r (\<lambda>(a, s). and_then (Ok a) (\<lambda>b. Ok (b, s))) = r" for r :: "(bytes \<times> stream, fault) result"
    by (cases r) auto
  then show "patient_read (\<lambda>s. map_err (in_context prefix) (read_exact n s))"
    using exact.checked_read [where check = Ok and prefix = prefix and n = n] by simp
qed

lemma with_timeout_done [simp]: "with_timeout msg (Ok a) = Ok a"
  by (simp add: with_timeout_def)

section \<open>The timed reading is the untimed one on what has arrived\<close>

text \<open>The result with the stream as it is at time \<open>t\<close>.\<close>

definition at_time :: "Duration \<Rightarrow> ('a \<times> 'b \<times> timed_stream \<times> 'c, 'e) result \<Rightarrow> ('a \<times> 'b \<times> stream \<times> 'c, 'e) result" where
  "at_time t r = (case r of Ok (a, p, ts, b) \<Rightarrow> Ok (a, p, arrived_by t ts, b) | Err e \<Rightarrow> Err e)"

lemma at_time_simps [simp]:
  "at_time t (Ok (a, p, ts, b)) = Ok (a, p, arrived_by t ts, b)" "at_time t (Err e) = Err e"
  by (simp_all add: at_time_def)

lemma and_later_simps [simp]:
  "and_later (Ok a, t) k = k a t" "and_later (Err e, t) k = (Err e, t)"
  by (simp_all add: and_later_def)

text \<open>What a finished timed reading \<open>(r, t)\<close> says of the untimed \<open>op\<close>: what has arrived by any later moment
  gives the same value, and what had arrived when it failed gives the same error.\<close>

definition follows ::
    "('a \<times> 'b \<times> timed_stream \<times> 'c, fault) result \<times> Duration \<Rightarrow> Duration \<Rightarrow>
     (Duration \<Rightarrow> ('a \<times> 'b \<times> stream \<times> 'c, fault) result) \<Rightarrow> bool" where
  "follows p now op \<longleftrightarrow>
     (case p of (r, t) \<Rightarrow> now \<le> t \<and> (case r of Ok _ \<Rightarrow> \<forall>d \<ge> t. op d = at_time d r | Err _ \<Rightarrow> op t = at_time t r))"

lemma later_deadline: "(now :: Duration) \<le> now + limit"
  by (simp add: less_eq_Duration_def)

lemma read_arguments_accept:
  "read_arguments (Suc n) sofar s b =
     and_then (with_timeout read_timeout_error (read_line s MAX_REQUEST_LINE)) (\<lambda>(header, s).
     and_then (fallible (accept_bulk header sofar b)) (\<lambda>(len, sofar, permit, b).
     and_then (with_timeout read_timeout_error
         (map_err (in_context ''ERR failed to read RESP argument: '') (read_exact (len + 2) s)))
       (\<lambda>(data, s).
     if \<not> ends_with data crlf then Err (Fail ''ERR Protocol error: unbalanced argument terminator'')
     else and_then (read_arguments n sofar s b) (\<lambda>(arguments, reservation, s, b).
       Ok (take len data # arguments, with_permit_of permit reservation, s, b)))))"
  (is "_ = and_then ?read ?rest")
proof (cases ?read)
  case (Ok p)
  obtain header s1 where p: "p = (header, s1)" by (cases p)
  show ?thesis
  proof (cases header)
    case (Some h)
    show ?thesis
    proof (cases "request_number (drop 1 h) ''bulk length''")
      case (Ok len)
      show ?thesis
        unfolding with_permit_of_def
        by (cases "reserve b (as_usize len)")
          (auto simp: Ok \<open>?read = Ok p\<close> p Some accept_bulk_def Let_def simp del: add_2_eq_Suc' One_nat_def)
    qed (simp add: \<open>?read = Ok p\<close> p Some accept_bulk_def)
  qed (simp add: Ok p accept_bulk_def)
qed simp

lemma read_request_accept:
  "read_request s b =
     and_then (read_line s MAX_REQUEST_LINE) (\<lambda>(first, s).
       case first of
         None \<Rightarrow> Ok (Eof, [], s, b)
       | Some header \<Rightarrow>
           and_then (fallible (accept_count header b)) (\<lambda>accepted.
             case accepted of
               None \<Rightarrow> Ok (Command [], [], s, b)
             | Some (count, permit, b) \<Rightarrow>
                 and_then (read_arguments count 0 s b) (\<lambda>(arguments, reservation, s, b).
                   Ok (Command arguments, with_permit_of permit reservation, s, b))))"
proof (cases "read_line s MAX_REQUEST_LINE")
  case (Ok p)
  obtain first s1 where p: "p = (first, s1)" by (cases p)
  show ?thesis
  proof (cases first)
    case (Some h)
    show ?thesis
    proof (cases "request_number (drop 1 h) ''argument count''")
      case count: (Ok count)
      show ?thesis
        unfolding with_permit_of_def
        by (cases "reserve b (as_usize count * ARGUMENT_SLOT_OVERHEAD_BYTES)")
          (auto simp: Ok p Some count read_request_def accept_count_def simp del: One_nat_def)
    qed (simp add: Ok p Some read_request_def accept_count_def)
  qed (simp add: Ok p read_request_def)
qed (simp add: read_request_def)

lemma follows_Err: "now \<le> t \<Longrightarrow> op t = Err f \<Longrightarrow> follows (Err f, t) now op"
  by (simp add: follows_def)

lemma follows_Ok: "now \<le> t \<Longrightarrow> (\<And>d. t \<le> d \<Longrightarrow> op d = Ok (a, p, arrived_by d ts, b)) \<Longrightarrow> follows (Ok (a, p, ts, b), t) now op"
  by (simp add: follows_def)

lemma follows_later:
  assumes "follows p now' op'" and "now \<le> now'"
    and "\<And>d. now' \<le> d \<Longrightarrow> op d = and_then (op' d) (\<lambda>(a, p, s, b). Ok (f a, g p, s, b))"
  shows "follows (and_later p (\<lambda>(a, p, ts, b) now. (Ok (f a, g p, ts, b), now))) now op"
proof -
  obtain r t where p: "p = (r, t)" by (cases p)
  show ?thesis
  proof (cases r)
    case (Ok q)
    obtain a q' ts b where "q = (a, q', ts, b)" by (cases q) auto
    with assms p Ok show ?thesis by (auto simp: follows_def)
  next
    case (Err e)
    with assms p show ?thesis by (auto simp: follows_def)
  qed
qed

lemma timed_arguments_follow:
  "follows (timed_arguments n sofar ts b now) now (\<lambda>d. read_arguments n sofar (arrived_by d ts) b)"
proof (induction n arbitrary: sofar ts b now)
  case 0
  show ?case by (simp add: follows_def)
next
  case (Suc n)
  let ?op = "\<lambda>d. read_arguments (Suc n) sofar (arrived_by d ts) b"
  obtain r1 t1 where 1: "cut_off CLIENT_READ_TIMEOUT (Fail read_timeout_error) now
      (timed_read (\<lambda>s. read_line s MAX_REQUEST_LINE) now ts) = (r1, t1)" by fastforce
  from 1 later_deadline show ?case
  proof (cases rule: line.cut_off_read)
    case (2 f)
    then show ?thesis by (simp add: 1 follows_Err read_arguments_accept del: read_arguments.simps)
  next
    case (1 header ts1)
    note line = this
    show ?thesis
    proof (cases "accept_bulk header sofar b")
      case (Err e)
      with line \<open>cut_off _ _ _ _ = (r1, t1)\<close> show ?thesis
        by (simp add: follows_Err read_arguments_accept del: read_arguments.simps)
    next
      case (Ok q)
      obtain len sofar' permit b' where q: "q = (len, sofar', permit, b')" by (cases q) auto
      obtain r2 t2 where 2: "cut_off CLIENT_READ_TIMEOUT (Fail read_timeout_error) t1
          (timed_read (\<lambda>s. map_err (in_context ''ERR failed to read RESP argument: '') (read_exact (len + 2) s)) t1 ts1) = (r2, t2)"
        by fastforce
      note step = \<open>cut_off _ _ _ _ = (r1, t1)\<close> line Ok q 2
      from 2 later_deadline show ?thesis
      proof (cases rule: payload.cut_off_read)
        case (2 f)
        with step show ?thesis
          by (simp add: follows_Err read_arguments_accept del: read_arguments.simps add_2_eq_Suc')
      next
        case (1 data ts2)
        show ?thesis
        proof (cases "ends_with data crlf")
          case False
          with 1 step show ?thesis
            by (simp add: follows_Err read_arguments_accept del: read_arguments.simps add_2_eq_Suc')
        next
          case True
          with 1 step have timed: "timed_arguments (Suc n) sofar ts b now =
               and_later (timed_arguments n sofar' ts2 b' t2) (\<lambda>(arguments, reservation, ts, b) now.
                 (Ok (take len data # arguments, with_permit_of permit reservation, ts, b), now))"
            by simp
          from True 1 step have untimed: "?op d = and_then (read_arguments n sofar' (arrived_by d ts2) b')
                 (\<lambda>(arguments, reservation, s, b). Ok (take len data # arguments, with_permit_of permit reservation, s, b))"
            if "t2 \<le> d" for d
            using that by (simp add: read_arguments_accept order_trans [of t1 t2 d] del: read_arguments.simps add_2_eq_Suc')
          show ?thesis
            unfolding timed by (rule follows_later [OF Suc.IH]) (use 1 line untimed in auto)
        qed
      qed
    qed
  qed
qed

lemma timed_arguments_no_Hang: "timed_arguments n sofar ts b now \<noteq> (Err Hang, t)"
  using timed_arguments_follow [of n sofar ts b now] read_arguments_no_Hang [of n sofar "arrived_by t ts" b]
  by (auto simp: follows_def)

lemma timed_request_follows:
  assumes "timed_request ts b now = Some p"
  shows "follows p now (\<lambda>d. read_request (arrived_by d ts) b) \<and> (\<forall>t. p \<noteq> (Err Hang, t))"
proof -
  from assms obtain q where q: "timed_read (\<lambda>s. read_line s MAX_REQUEST_LINE) now ts = Some q"
    by (auto simp: timed_request_def)
  obtain r t where rt: "q = (r, t)" by (cases q)
  show ?thesis
  proof (cases r)
    case (Err f)
    with line.timed_read_Err [of MAX_REQUEST_LINE now ts f t t] q rt assms show ?thesis
      by (auto simp: timed_request_def read_request_accept intro: follows_Err)
  next
    case (Ok a)
    then obtain first ts1 where a: "r = Ok (first, ts1)" by (cases a) auto
    then have now: "now \<le> t"
      and first: "\<And>d. t \<le> d \<Longrightarrow> read_line (arrived_by d ts) MAX_REQUEST_LINE = Ok (first, arrived_by d ts1)"
      using line.timed_read_Ok [of MAX_REQUEST_LINE now ts first ts1 t] q rt by auto
    note step = q rt a now first assms timed_request_def read_request_accept
    show ?thesis
    proof (cases first)
      case None
      with step show ?thesis by (auto simp: timed_request_def read_request_accept intro: follows_Ok)
    next
      case (Some header)
      show ?thesis
      proof (cases "accept_count header b")
        case (Err e)
        with Some step show ?thesis by (auto simp: intro: follows_Err)
      next
        case (Ok accepted)
        show ?thesis
        proof (cases accepted)
          case None
          with Ok Some step show ?thesis by (auto intro: follows_Ok)
        next
          case (Some c)
          obtain count permit b' where c: "c = (count, permit, b')" by (cases c) auto
          let ?done = "\<lambda>(arguments, reservation, ts, b) now. (Ok (Command arguments, with_permit_of permit reservation, ts, b), now)"
          from Ok Some c \<open>first = Some header\<close> step have p: "p = and_later (timed_arguments count 0 ts1 b' t) ?done" by auto
          have "follows p now (\<lambda>d. read_request (arrived_by d ts) b)"
            unfolding p
            by (rule follows_later [OF timed_arguments_follow]) (use Ok Some c \<open>first = Some header\<close> step in auto)
          moreover have "p \<noteq> (Err Hang, t')" for t'
            using timed_arguments_no_Hang [of count 0 ts1 b' t] unfolding p
            by (auto simp: and_later_def split: prod.split result.split)
          ultimately show ?thesis by blast
        qed
      qed
    qed
  qed
qed

text \<open>Reading with deadlines is reading what has arrived in time: the read of an iteration ends within
  twenty seconds, whatever bytes come when, and unless it ends idle its outcome, timeouts of
  started commands included, is that of the untimed reading on the bytes arrived by then.\<close>

lemma next_request_read:
  assumes "next_request ts b now = (r, t)"
  shows "now \<le> t \<and> t \<le> now + CLIENT_IDLE_TIMEOUT" and "r = Err Hang \<Longrightarrow> t = now + CLIENT_IDLE_TIMEOUT"
    and "r \<noteq> Err Hang \<Longrightarrow> read_request (arrived_by t ts) b = at_time t r"
proof -
  have "now \<le> t \<and> t \<le> now + CLIENT_IDLE_TIMEOUT \<and> (r = Err Hang \<longrightarrow> t = now + CLIENT_IDLE_TIMEOUT) \<and>
      (r \<noteq> Err Hang \<longrightarrow> read_request (arrived_by t ts) b = at_time t r)"
  proof (cases "timed_request ts b now")
    case None
    with assms later_deadline show ?thesis by (auto simp: next_request_def cut_off_def)
  next
    case (Some p)
    obtain r' t' where p: "p = (r', t')" by (cases p)
    show ?thesis
    proof (cases "t' \<le> now + CLIENT_IDLE_TIMEOUT")
      case True
      with assms Some p have "r = r'" "t = t'" by (simp_all add: next_request_def cut_off_def)
      with timed_request_follows [OF Some] True p show ?thesis
        by (cases r) (auto simp: follows_def)
    next
      case False
      with assms Some p later_deadline show ?thesis by (auto simp: next_request_def cut_off_def)
    qed
  qed
  then show "now \<le> t \<and> t \<le> now + CLIENT_IDLE_TIMEOUT" and "r = Err Hang \<Longrightarrow> t = now + CLIENT_IDLE_TIMEOUT"
    and "r \<noteq> Err Hang \<Longrightarrow> read_request (arrived_by t ts) b = at_time t r" by blast+
qed

text \<open>A client whose first line arrives after nineteen seconds and who then pauses.\<close>

definition late_client :: timed_stream where
  "late_client = \<lparr>arrivals = map (\<lambda>c. (from_secs 19, c)) (''*1'' @ crlf), ends_at = from_secs 100, final = Closed ''early eof''\<rparr>"

lemma late_client_arrived:
  "arrived_by d late_client =
     (if d < from_secs 19 then \<lparr>pending = [], ending = Silent\<rparr>
      else \<lparr>pending = ''*1'' @ crlf, ending = (if from_secs 100 \<le> d then Closed ''early eof'' else Silent)\<rparr>)"
  by (simp add: arrived_by_def late_client_def Let_def less_Duration_def less_eq_Duration_def)

definition late_rest :: timed_stream where
  "late_rest = \<lparr>arrivals = [], ends_at = from_secs 100, final = Closed ''early eof''\<rparr>"

lemma late_rest_arrived:
  "arrived_by d late_rest = \<lparr>pending = [], ending = (if from_secs 100 \<le> d then Closed ''early eof'' else Silent)\<rparr>"
  by (simp add: arrived_by_def late_rest_def)

lemma late_first_line:
  "timed_read (\<lambda>s. read_line s MAX_REQUEST_LINE) 0 late_client = Some (Ok (Some ''*1'', late_rest), from_secs 19)"
proof -
  have c: "completes_at (\<lambda>s. read_line s MAX_REQUEST_LINE) 0 late_client = Some (from_secs 19)"
    by (rule completes_at_eq)
      (simp_all add: late_client_arrived read_line_def Let_def ends_with.simps read_until_limited_def read_until_def less_eq_Duration_def limits)
  have rest: "skip (length (arrivals late_client)) late_client = late_rest"
    by (simp add: skip_def late_client_def late_rest_def)
  show ?thesis
    unfolding timed_read_def c rest [symmetric]
    by (simp add: late_client_arrived read_line_def Let_def ends_with.simps read_until_limited_def read_until_def
        less_Duration_def less_eq_Duration_def limits) (simp add: late_client_def)
qed

lemma late_argument:
  "timed_read (\<lambda>s. read_line s MAX_REQUEST_LINE) (from_secs 19) late_rest = Some (Ok (None, late_rest), from_secs 100)"
proof -
  have c: "completes_at (\<lambda>s. read_line s MAX_REQUEST_LINE) (from_secs 19) late_rest = Some (from_secs 100)"
    by (rule completes_at_eq)
      (auto simp: late_rest_arrived read_line_def Let_def ends_with.simps read_until_limited_def read_until_def less_eq_Duration_def less_Duration_def limits)
  show ?thesis
    unfolding timed_read_def c
    by (simp add: late_rest_arrived read_line_def Let_def ends_with.simps read_until_limited_def read_until_def limits) (simp add: skip_def late_rest_def)
qed

lemma late_argument_cut:
  "cut_off CLIENT_READ_TIMEOUT e (from_secs 19) (Some (r, from_secs 100)) = (Err e, from_secs 24)"
  by (simp add: cut_off_def limits from_secs_def plus_Duration_def less_eq_Duration_def)

lemma late_client_idle: "next_request late_client (new_request_budget 4096) 0 = (Err Hang, from_secs 20)"
proof -
  have count: "accept_count ''*1'' (new_request_budget 4096) = Ok (Some (Suc 0, Some 64, new_request_budget 4032))"
    using request_number_show [of 1 "''argument count''"] as_usize_small [of 1]
    by (simp add: accept_count_def show_nat.simps new_request_budget_def reserve_def limits)
  have arguments: "timed_arguments (Suc 0) 0 late_rest b (from_secs 19) = (Err (Fail read_timeout_error), from_secs 24)" for b
    by (simp only: timed_arguments.simps late_argument late_argument_cut) simp
  have "timed_request late_client (new_request_budget 4096) 0 = Some (Err (Fail read_timeout_error), from_secs 24)"
    by (simp add: timed_request_def late_first_line count arguments del: timed_arguments.simps)
  then show ?thesis
    by (simp add: next_request_def cut_off_def limits from_secs_def plus_Duration_def zero_Duration_def less_eq_Duration_def)
qed

text \<open>C39: the idle deadline is not only for a command that has not begun, as its comment says: it also cuts
  off one whose first line has arrived, before the five seconds its next read is given are over,
  and tells the client that it was idle.\<close>

theorem idle_timeout_cuts_begun_command:
  "\<exists>ts b. LF \<in> set (pending (arrived_by (from_secs 19) ts)) \<and>
     next_request ts b 0 = (Err Hang, from_secs 20) \<and> from_secs 20 < from_secs 19 + CLIENT_READ_TIMEOUT"
  using late_client_idle
  by (intro exI [of _ late_client] exI [of _ "new_request_budget 4096"])
    (simp add: late_client_arrived less_Duration_def limits)

end
