(* ===== verification/Timed_Reply.thy ===== *)
theory Timed_Reply
  imports Timed_Read Frame_Codec
begin

text \<open>
  Reading a reply is patient: what arrives after its last byte does not change it.  So the decoder of
  \<open>resp.rs\<close> can be run against the clock like the reads of the proxy.
\<close>

section \<open>Two streams of which one has more\<close>

text \<open>The results of an operation on \<open>s\<close> and on \<open>s'\<close>, which has received more: the same value is read by
  taking the same bytes, and an error is the same error.\<close>

definition tracks ::
    "stream \<Rightarrow> stream \<Rightarrow> ('a \<times> stream \<times> 'b, fault) result \<Rightarrow> ('a \<times> stream \<times> 'b, fault) result \<Rightarrow> bool" where
  "tracks s s' x x' \<longleftrightarrow>
     (case x of
        Ok (a, r, b) \<Rightarrow>
          \<exists>n \<le> length (pending s). r = s\<lparr>pending := drop n (pending s)\<rparr> \<and> x' = Ok (a, s'\<lparr>pending := drop n (pending s')\<rparr>, b)
      | Err (Fail e) \<Rightarrow> x' = Err (Fail e)
      | Err Hang \<Rightarrow> True)"

lemma tracks_Ok [intro]: "tracks s s' (Ok (a, s, b)) (Ok (a, s', b))"
  unfolding tracks_def by (auto intro!: exI [of _ 0])

lemma tracks_Err [intro]: "tracks s s' (Err (Fail e)) (Err (Fail e))" "tracks s s' (Err Hang) x"
  by (simp_all add: tracks_def)

lemma tracks_then:
  assumes "extends s s'" and "tracks s s' x x'" and "\<And>a t t' b. extends t t' \<Longrightarrow> tracks t t' (k a t b) (k a t' b)"
  shows "tracks s s' (and_then x (\<lambda>(a, s, b). k a s b)) (and_then x' (\<lambda>(a, s, b). k a s b))"
proof (cases x)
  case (Ok p)
  obtain a r b where p: "p = (a, r, b)" by (cases p) auto
  with Ok assms(2) obtain n where n: "n \<le> length (pending s)" "r = s\<lparr>pending := drop n (pending s)\<rparr>"
    "x' = Ok (a, s'\<lparr>pending := drop n (pending s')\<rparr>, b)" by (auto simp: tracks_def)
  let ?t = "s\<lparr>pending := drop n (pending s)\<rparr>" and ?t' = "s'\<lparr>pending := drop n (pending s')\<rparr>"
  from assms(3) [OF extends_drop [OF assms(1) n(1)]] have step: "tracks ?t ?t' (k a ?t b) (k a ?t' b)" .
  have "tracks s s' (k a ?t b) (k a ?t' b)"
  proof (cases "k a ?t b")
    case (Ok q)
    obtain c u d where q: "q = (c, u, d)" by (cases q) auto
    with Ok step obtain m where m: "m \<le> length (pending ?t)" "u = ?t\<lparr>pending := drop m (pending ?t)\<rparr>"
      "k a ?t' b = Ok (c, ?t'\<lparr>pending := drop m (pending ?t')\<rparr>, d)" by (auto simp: tracks_def)
    with Ok q n(1) show ?thesis by (auto simp: tracks_def add.commute intro!: exI [of _ "m + n"])
  next
    case (Err f)
    with step show ?thesis by (cases f) (auto simp: tracks_def)
  qed
  then show ?thesis by (simp add: Ok p n)
next
  case (Err f)
  with assms(2) show ?thesis by (cases f) (auto simp: tracks_def)
qed

lemma tracks_checked:
  "(\<And>x. r = Ok x \<Longrightarrow> tracks s s' (k x) (k' x)) \<Longrightarrow> tracks s s' (and_then (fallible r) k) (and_then (fallible r) k')"
  by (cases r) auto

lemma tracks_if: "tracks s s' x x' \<Longrightarrow> tracks s s' y y' \<Longrightarrow> tracks s s' (if c then x else y) (if c then x' else y')"
  by simp

section \<open>Headers and payloads\<close>

lemma read_until_tracks:
  assumes "extends s s'" and "read_until c s \<noteq> Err Hang"
  shows "read_until c s' = (case read_until c s of Ok (a, r) \<Rightarrow> Ok (a, s'\<lparr>pending := drop (length a) (pending s')\<rparr>) | Err f \<Rightarrow> Err f) \<and>
    (\<forall>a r. read_until c s = Ok (a, r) \<longrightarrow> length a \<le> length (pending s) \<and> r = s\<lparr>pending := drop (length a) (pending s)\<rparr>)"
proof (cases "split_after c (pending s)")
  case None
  with assms(2) have "ending s \<noteq> Silent" by (auto simp: read_until_def)
  with assms(1) have "s' = s" by (simp add: extends_ended)
  with None assms(2) show ?thesis by (auto simp: read_until_def split: stream_end.split)
next
  case (Some p)
  obtain taken rest where p: "p = (taken, rest)" by (cases p)
  from assms(1) obtain x where x: "pending s' = pending s @ x" by (auto simp: extends_def)
  from Some p have "pending s = taken @ rest" by (auto dest: split_after_Some)
  moreover have "split_after c (pending s') = Some (taken, rest @ x)"
    using Some p x by (simp add: split_after_extend)
  ultimately show ?thesis using Some p x by (simp add: read_until_def)
qed

text \<open>The header has its own shape of result.\<close>

lemma read_header_tracks:
  assumes "extends s s'" and "\<And>prefix payload t t' b. extends t t' \<Longrightarrow> tracks t t' (k prefix payload t b) (k prefix payload t' b)"
  shows "tracks s s' (and_then (read_header s b) (\<lambda>(prefix, payload, s, b). k prefix payload s b))
    (and_then (read_header s' b) (\<lambda>(prefix, payload, s, b). k prefix payload s b))"
proof -
  define line where "line = (\<lambda>l s b. if l = [] then Err (Fail ''Ferrite closed the connection without a response'')
       else if \<not> ends_with l crlf then Err (Fail ''RESP response line did not end with CRLF'')
       else
         and_then (fallible (consume_bytes b (length l))) (\<lambda>budget.
           case take (length l - 2) l of
             [] \<Rightarrow> Err (Fail ''received an empty RESP response line'')
           | prefix # payload \<Rightarrow> k prefix payload s budget))"
  have header: "and_then (read_header s b) (\<lambda>(prefix, payload, s, b). k prefix payload s b) =
      and_then (fallible (consume_node b)) (\<lambda>b.
        and_then (and_then (map_err (in_context ''failed to read RESP response: '') (read_until LF s)) (\<lambda>(l, s). Ok (l, s, b)))
          (\<lambda>(l, s, b). line l s b))" for s
  proof (cases "consume_node b")
    case (Ok b1)
    then show ?thesis
    proof (cases "read_until LF s")
      case (Ok p)
      with \<open>consume_node b = Ok b1\<close> show ?thesis
        by (cases p; cases "consume_bytes b1 (length (fst p))")
          (auto simp: read_header_def line_def split: list.split)
    qed (simp add: read_header_def)
  qed (simp add: read_header_def)
  have until: "tracks s s'
      (and_then (map_err (in_context ''failed to read RESP response: '') (read_until LF s)) (\<lambda>(l, s). Ok (l, s, b)))
      (and_then (map_err (in_context ''failed to read RESP response: '') (read_until LF s')) (\<lambda>(l, s). Ok (l, s, b)))" for b :: ResponseBudget
  proof (cases "read_until LF s = Err Hang")
    case False
    from read_until_tracks [OF assms(1) this] show ?thesis
      by (cases "read_until LF s") (auto simp: tracks_def split: fault.split)
  qed (simp add: tracks_def)
  have "tracks t t' (line l t b) (line l t' b)" if "extends t t'" for l t t' b
    unfolding line_def using assms(2) [OF that]
    by (auto intro!: tracks_if tracks_checked split: list.split)
  then show ?thesis
    unfolding header by (intro tracks_checked tracks_then [OF assms(1) until]) blast
qed

lemma read_payload_tracks:
  assumes "extends s s'"
  shows "tracks s s' (read_payload kind n s b) (read_payload kind n s' b)"
proof -
  let ?read = "\<lambda>s b. and_then (map_err (in_context (''failed to read RESP '' @ kind @ '' data: '')) (read_exact (n + 2) s))
      (\<lambda>(d, s). Ok (d, s, b))"
  let ?check = "\<lambda>d s b. if \<not> ends_with d crlf then Err (Fail (''RESP '' @ kind @ '' data did not end with CRLF''))
      else Ok (take n d, s, b)"
  have payload: "read_payload kind n s b = and_then (fallible (consume_bytes b (n + 2))) (\<lambda>b.
      and_then (?read s b) (\<lambda>(d, s, b). ?check d s b))" for s
    unfolding read_payload_def
    by (cases "consume_bytes b (n + 2)"; cases "read_exact (n + 2) s") auto
  have "tracks s s' (?read s b) (?read s' b)" for b :: ResponseBudget
  proof (cases "read_exact (n + 2) s")
    case (Ok p)
    obtain d r where "p = (d, r)" by (cases p)
    with Ok exact.takes [of "n + 2" s d r] exact.keeps [of "n + 2" s d r s'] assms
    show ?thesis
      by (auto simp: tracks_def simp del: add_2_eq_Suc' intro!: exI [of _ "length (pending s) - length (pending r)"])
  next
    case (Err f)
    with exact.fails [of "n + 2" s _ s'] assms show ?thesis by (cases f) (auto simp: tracks_def simp del: add_2_eq_Suc')
  qed
  moreover have "tracks t t' (?check d t b) (?check d t' b)" for d t t' and b :: ResponseBudget
    by auto
  ultimately show ?thesis
    unfolding payload by (intro tracks_checked tracks_then [OF assms])
qed

section \<open>The decoder\<close>

lemma read_values_tracks:
  assumes "\<And>s s' b. extends s s' \<Longrightarrow> tracks s s' (read_value depth s b) (read_value depth s' b)" and "extends s s'"
  shows "tracks s s' (read_values depth n s b) (read_values depth n s' b)"
  using assms(2)
proof (induction n arbitrary: s s' b)
  case (Suc n)
  show ?case
    unfolding read_values.simps [of depth "Suc n"]
    by (simp only: nat.distinct if_False diff_Suc_1, rule tracks_then [OF Suc.prems assms(1) [OF Suc.prems]],
        rule tracks_then [OF _ Suc.IH], assumption, assumption, rule tracks_Ok)
qed (simp add: read_values.simps tracks_Ok)

lemma read_entries_tracks:
  assumes "\<And>s s' b. extends s s' \<Longrightarrow> tracks s s' (read_value depth s b) (read_value depth s' b)" and "extends s s'"
  shows "tracks s s' (read_entries depth n s b) (read_entries depth n s' b)"
  using assms(2)
proof (induction n arbitrary: s s' b)
  case (Suc n)
  show ?case
    unfolding read_entries.simps [of depth "Suc n"]
    by (simp only: nat.distinct if_False diff_Suc_1, rule tracks_then [OF Suc.prems assms(1) [OF Suc.prems]],
        rule tracks_then [OF _ assms(1)], assumption, assumption,
        rule tracks_then [OF _ Suc.IH], assumption, assumption, rule tracks_Ok)
qed (simp add: read_entries.simps tracks_Ok)

lemma tracks_case_option:
  "(\<And>x. tracks s s' (f x) (f' x)) \<Longrightarrow> tracks s s' y y' \<Longrightarrow>
     tracks s s' (case r of Some x \<Rightarrow> f x | None \<Rightarrow> y) (case r of Some x \<Rightarrow> f' x | None \<Rightarrow> y')"
  by (cases r) simp_all

lemma read_value_tracks:
  assumes "extends s s'"
  shows "tracks s s' (read_value depth s b) (read_value depth s' b)"
  using assms
proof (induction "MAX_RESP_DEPTH + 1 - depth" arbitrary: depth s s' b rule: less_induct)
  case less
  show ?case
  proof (cases "depth > MAX_RESP_DEPTH")
    case True
    then show ?thesis by (simp add: read_value.simps tracks_Err)
  next
    case False
    then have "MAX_RESP_DEPTH + 1 - (depth + 1) < MAX_RESP_DEPTH + 1 - depth" by simp
    note inner = less.hyps [OF this]
    have list: "tracks t t' (read_values (depth + 1) n t b) (read_values (depth + 1) n t' b)"
      and pairs: "tracks t t' (read_entries (depth + 1) n t b) (read_entries (depth + 1) n t' b)"
      if "extends t t'" for t t' n b
      using read_values_tracks read_entries_tracks inner that by blast+
    show ?thesis
      unfolding read_value.simps [of depth] if_not_P [OF False]
      by (rule read_header_tracks [OF less.prems],
          intro tracks_if tracks_case_option tracks_Ok tracks_Err tracks_checked;
            (rule tracks_then [OF _ list] tracks_then [OF _ pairs] tracks_then [OF _ read_payload_tracks],
             assumption, assumption, rule tracks_Ok))
  qed
qed

section \<open>Reading a reply against the clock\<close>

interpretation reply: patient_read "\<lambda>s. and_then (read_value 0 s b) (\<lambda>(v, s, _). Ok (v, s))" for b
proof
  let ?read = "\<lambda>s. and_then (read_value 0 s b) (\<lambda>(v, s, _). Ok (v, s))"
  fix s v r s' e
  show "length (pending r) \<le> length (pending s) \<and>
      r = s\<lparr>pending := drop (length (pending s) - length (pending r)) (pending s)\<rparr>" if "?read s = Ok (v, r)"
    using that read_value_tracks [OF extends_refl, of s 0 b] by (auto simp: tracks_def)
  show "?read s' = Ok (v, s'\<lparr>pending := drop (length (pending s) - length (pending r)) (pending s')\<rparr>)"
    if "?read s = Ok (v, r)" and "extends s s'"
    using that(1) read_value_tracks [OF that(2), of 0 b] by (auto simp: tracks_def)
  show "?read s' = Err (Fail e)" if "?read s = Err (Fail e)" and "extends s s'"
    using that(1) read_value_tracks [OF that(2), of 0 b] by (cases "read_value 0 s b") (auto simp: tracks_def)
qed

end
