(* ===== verification/Timed_Connection.thy ===== *)
theory Timed_Connection
  imports Timed_Request Timed_Reply
begin

text \<open>
  One iteration of \<open>handle_connection\<close> against the clock: the wait for a request, \<open>forward\<close> with the
  deadline of its connect and the one its write, flush and reply share, and the deadline of every
  write to the client.  What connecting, sending, flushing and delivering take is the
  environment \<open>timed_env\<close>.  An operation whose deadline passes is dropped where it waits: nothing after
  it happens.
\<close>

section \<open>The environment and its deadlines\<close>

definition RESP_TIMEOUT :: Duration where
  [limits]: "RESP_TIMEOUT = from_secs RESP_TIMEOUT_SECS"

definition CLIENT_WRITE_TIMEOUT :: Duration where
  [limits]: "CLIENT_WRITE_TIMEOUT = from_secs CLIENT_WRITE_TIMEOUT_SECS"

record 'w timed_env =
  connecting :: "rstring \<Rightarrow> Duration \<Rightarrow> 'w \<Rightarrow> (timed_stream, rstring) result future \<times> 'w"
  sending :: "bytes \<Rightarrow> timed_stream \<Rightarrow> Duration \<Rightarrow> 'w \<Rightarrow> (timed_stream, rstring) result future \<times> 'w"
  flushing :: "timed_stream \<Rightarrow> Duration \<Rightarrow> 'w \<Rightarrow> (timed_stream, rstring) result future \<times> 'w"
  delivering :: "bytes \<Rightarrow> Duration \<Rightarrow> 'w \<Rightarrow> (unit, rstring) result future \<times> 'w"

record 'w timed_conn =
  timed_client :: timed_stream
  timed_upstream :: "timed_stream option"
  timed_budget :: RequestByteBudget
  timed_permits :: nat
  timed_world :: 'w

text \<open>Waiting from \<open>now\<close> to the deadline for what comes after some time, and when the wait is over.\<close>

definition awaited :: "Duration \<Rightarrow> Duration \<Rightarrow> ('a, rstring) result future \<Rightarrow> ('a, fault) result \<times> Duration" where
  "awaited deadline now f =
     (case f of
        After t r \<Rightarrow> if now + t \<le> deadline then (fallible r, now + t) else (Err Hang, deadline)
      | Never \<Rightarrow> (Err Hang, deadline))"

section \<open>\<open>forward\<close>\<close>

definition timed_established ::
    "'w timed_env \<Rightarrow> rstring \<Rightarrow> timed_stream option \<Rightarrow> Duration \<Rightarrow> 'w \<Rightarrow> ((timed_stream, fault) result \<times> Duration) \<times> 'w" where
  "timed_established env addr up now w =
     (case up of
        Some ts \<Rightarrow> ((Ok ts, now), w)
      | None \<Rightarrow>
          (case connecting env addr now w of
             (f, w) \<Rightarrow>
               (case awaited (now + RESP_TIMEOUT) now f of
                  (r, t) \<Rightarrow>
                    ((with_timeout (''timed out connecting to '' @ addr)
                        (map_err (in_context (''could not connect to '' @ addr @ '': '')) r), t), w))))"

text \<open>The reply, and when \<open>forward\<close> returns it.\<close>

definition timed_forward ::
    "'w timed_env \<Rightarrow> rstring \<Rightarrow> timed_stream option \<Rightarrow> bytes list \<Rightarrow> Duration \<Rightarrow> 'w \<Rightarrow>
     ((RespValue \<times> timed_stream, fault) result \<times> Duration) \<times> 'w" where
  "timed_forward env addr up args now w =
     (case timed_established env addr up now w of
        ((Err f, t), w) \<Rightarrow> ((Err f, t), w)
      | ((Ok ts, start), w) \<Rightarrow>
          (case sending env (encode_command args) ts start w of
             (f, w) \<Rightarrow>
               (case awaited (start + RESP_TIMEOUT) start f of
                  (sent, t) \<Rightarrow>
                    (case with_timeout upstream_timeout_error (map_err (in_context ''failed to forward RESP command: '') sent) of
                       Err f \<Rightarrow> ((Err f, t), w)
                     | Ok ts \<Rightarrow>
                         (case flushing env ts t w of
                            (f, w) \<Rightarrow>
                              (case awaited (start + RESP_TIMEOUT) t f of
                                 (flushed, t) \<Rightarrow>
                                   (case with_timeout upstream_timeout_error
                                       (map_err (in_context ''failed to flush RESP command: '') flushed) of
                                      Err f \<Rightarrow> ((Err f, t), w)
                                    | Ok ts \<Rightarrow>
                                        (cut_off RESP_TIMEOUT (Fail upstream_timeout_error) start
                                           (timed_read (\<lambda>s. and_then (read_value 0 s default_budget) (\<lambda>(v, s, _). Ok (v, s))) t ts),
                                         w))))))))"

section \<open>The iteration\<close>

datatype 'w timed_flow = Next "'w timed_conn" | Stopped "(unit, rstring) result" "'w timed_conn" | Crashed "'w timed_conn"

fun on_timed_flow :: "('w timed_conn \<Rightarrow> 'w timed_conn) \<Rightarrow> 'w timed_flow \<Rightarrow> 'w timed_flow" where
  "on_timed_flow f (Next c) = Next (f c)"
| "on_timed_flow f (Stopped r c) = Stopped r (f c)"
| "on_timed_flow f (Crashed c) = Crashed (f c)"

definition timed_write :: "'w timed_env \<Rightarrow> bytes \<Rightarrow> Duration \<Rightarrow> 'w timed_conn \<Rightarrow> ((unit, rstring) result \<times> Duration) \<times> 'w timed_conn" where
  "timed_write env encoded now c =
     (case delivering env encoded now (timed_world c) of
        (f, w) \<Rightarrow>
          (case awaited (now + CLIENT_WRITE_TIMEOUT) now f of
             (r, t) \<Rightarrow>
               ((case r of
                   Ok _ \<Rightarrow> Ok ()
                 | Err (Fail e) \<Rightarrow> Err e
                 | Err Hang \<Rightarrow> Err (''client write timeout after '' @ show_nat CLIENT_WRITE_TIMEOUT_SECS @ '' seconds''), t),
                c\<lparr>timed_world := w\<rparr>)))"

definition timed_refuse :: "'w timed_env \<Rightarrow> rstring \<Rightarrow> rstring \<Rightarrow> Duration \<Rightarrow> 'w timed_conn \<Rightarrow> 'w timed_flow \<times> Duration" where
  "timed_refuse env msg context_text now c =
     (case encode_error msg of
        None \<Rightarrow> (Crashed c, now)
      | Some encoded \<Rightarrow>
          (case timed_write env encoded now c of
             ((Ok _, t), c) \<Rightarrow> (Next c, t)
           | ((Err e, t), c) \<Rightarrow> (Stopped (Err (context_text @ e)) c, t)))"

definition timed_close :: "'w timed_env \<Rightarrow> rstring \<Rightarrow> Duration \<Rightarrow> 'w timed_conn \<Rightarrow> 'w timed_flow \<times> Duration" where
  "timed_close env msg now c =
     (case encode_error msg of
        None \<Rightarrow> (Crashed c, now)
      | Some encoded \<Rightarrow> (case timed_write env encoded now c of ((_, t), c) \<Rightarrow> (Stopped (Ok ()) c, t)))"

definition seen_reply :: "Duration \<Rightarrow> (RespValue \<times> timed_stream, fault) result \<Rightarrow> (RespValue \<times> stream, fault) result" where
  "seen_reply d r = (case r of Ok (v, ts) \<Rightarrow> Ok (v, arrived_by d ts) | Err f \<Rightarrow> Err f)"

definition timed_upstream_after ::
    "(RespValue \<times> timed_stream, fault) result \<Rightarrow> timed_stream option \<Rightarrow> timed_stream option" where
  "timed_upstream_after reply before = (case reply of Ok (_, ts) \<Rightarrow> Some ts | Err _ \<Rightarrow> before)"

text \<open>The backend permit is taken at \<open>now\<close> and given back when the write of the reply is over.\<close>

definition timed_backend :: "'w timed_env \<Rightarrow> rstring \<Rightarrow> bytes list \<Rightarrow> Duration \<Rightarrow> 'w timed_conn \<Rightarrow> 'w timed_flow \<times> Duration" where
  "timed_backend env addr args now c =
     (let c = c\<lparr>timed_permits := timed_permits c - 1\<rparr> in
      case timed_forward env addr (timed_upstream c) args now (timed_world c) of
        ((reply, t), w) \<Rightarrow>
          (let c = c\<lparr>timed_upstream := timed_upstream_after reply (timed_upstream c), timed_world := w\<rparr> in
           case encode_reply (seen_reply t reply) of
             (None, _) \<Rightarrow> (Crashed (c\<lparr>timed_permits := timed_permits c + 1\<rparr>), t)
           | (Some encoded, close_client) \<Rightarrow>
               (case timed_write env encoded t c of
                  ((r, t), c) \<Rightarrow>
                    (let c = c\<lparr>timed_permits := timed_permits c + 1\<rparr> in
                     (case r of
                        Err e \<Rightarrow> Stopped (Err (''failed to write RESP reply: '' @ e)) c
                      | Ok _ \<Rightarrow> if close_client then Stopped (Ok ()) c else Next c, t)))))"

definition timed_serve_command :: "'w timed_env \<Rightarrow> rstring \<Rightarrow> bytes list \<Rightarrow> Duration \<Rightarrow> 'w timed_conn \<Rightarrow> 'w timed_flow \<times> Duration" where
  "timed_serve_command env addr args now c =
     (let decision = classify_bytes_arguments args in
      if \<not> is_allowed decision then timed_refuse env (message decision) ''failed to write policy rejection: '' now c
      else if timed_permits c = 0 then
        timed_refuse env BACKEND_BUSY_ERROR ''failed to write saturation rejection: '' now c
      else timed_backend env addr args now c)"

definition timed_drop_reservation :: "nat list \<Rightarrow> 'w timed_conn \<Rightarrow> 'w timed_conn" where
  "timed_drop_reservation reservation c = c\<lparr>timed_budget := release (timed_budget c) reservation\<rparr>"

definition timed_step :: "'w timed_env \<Rightarrow> rstring \<Rightarrow> Duration \<Rightarrow> 'w timed_conn \<Rightarrow> 'w timed_flow \<times> Duration" where
  "timed_step env addr now c =
     (case next_request (timed_client c) (timed_budget c) now of
        (Err Hang, t) \<Rightarrow> timed_close env IDLE_TIMEOUT_ERROR t c
      | (Err (Fail e), t) \<Rightarrow> timed_close env e t c
      | (Ok (request, reservation, ts, b), t) \<Rightarrow>
          (let c = c\<lparr>timed_client := ts, timed_budget := b\<rparr> in
           apfst (on_timed_flow (timed_drop_reservation reservation))
             (case request of
                Eof \<Rightarrow> (Stopped (Ok ()) c, t)
              | Command args \<Rightarrow> if args = [] then (Next c, t) else timed_serve_command env addr args t c)))"

end
