(* ===== verification/Clocked_Link.thy ===== *)
theory Clocked_Link
  imports Timed_Connection Proxy_Props
begin

text \<open>
  The iteration against the clock is the iteration of \<open>Proxy\<close> in one particular environment: \<open>clocked env\<close>,
  whose world carries the clock and the child's stream as it comes, and which shows a stream as it
  is at its deadline.  So whatever \<open>Proxy_Props\<close> proves of every environment holds of the timed code,
  and an iteration, and the backend permit within it, is over after a bounded time.
\<close>

section \<open>The environment\<close>

record 'w clocked =
  outside :: 'w
  clock :: Duration
  began :: Duration
  link :: timed_stream

abbreviation timed_reply :: "Duration \<Rightarrow> timed_stream \<Rightarrow> ((RespValue \<times> timed_stream, fault) result \<times> Duration) option" where
  "timed_reply \<equiv> timed_read (\<lambda>s. and_then (read_value 0 s default_budget) (\<lambda>(v, s, _). Ok (v, s)))"

definition settled :: "(timed_stream, fault) result \<times> Duration \<Rightarrow> 'w clocked \<Rightarrow> (stream, fault) result \<times> 'w clocked" where
  "settled p c =
     (case p of
        (Ok ts, t) \<Rightarrow> (Ok (arrived_by t ts), c\<lparr>clock := t, link := ts\<rparr>)
      | (Err f, t) \<Rightarrow> (Err f, c\<lparr>clock := t\<rparr>))"

text \<open>After a flush the code waits for the reply; its clock is the moment that wait is over.\<close>

definition clocked :: "'w timed_env \<Rightarrow> 'w clocked env" where
  "clocked env =
     \<lparr>connect = \<lambda>addr c.
        (case connecting env addr (clock c) (outside c) of
           (f, w) \<Rightarrow> settled (awaited (clock c + RESP_TIMEOUT) (clock c) f) (c\<lparr>outside := w\<rparr>)),
      send = \<lambda>bs s c.
        (case sending env bs (link c) (clock c) (outside c) of
           (f, w) \<Rightarrow> settled (awaited (clock c + RESP_TIMEOUT) (clock c) f) (c\<lparr>outside := w, began := clock c\<rparr>)),
      flush = \<lambda>s c.
        (case flushing env (link c) (clock c) (outside c) of
           (f, w) \<Rightarrow>
             (case awaited (began c + RESP_TIMEOUT) (clock c) f of
                (Err f, t) \<Rightarrow> (Err f, c\<lparr>outside := w, clock := t\<rparr>)
              | (Ok ts, t) \<Rightarrow>
                  (Ok (arrived_by (began c + RESP_TIMEOUT) ts),
                   c\<lparr>outside := w,
                     clock := snd (cut_off RESP_TIMEOUT (Fail upstream_timeout_error) (began c) (timed_reply t ts))\<rparr>))),
      deliver = \<lambda>bs c.
        (case delivering env bs (clock c) (outside c) of
           (f, w) \<Rightarrow> (case awaited (clock c + CLIENT_WRITE_TIMEOUT) (clock c) f of (r, t) \<Rightarrow> (r, c\<lparr>outside := w, clock := t\<rparr>)))\<rparr>"

section \<open>\<open>forward\<close>\<close>

lemma awaited_bounds:
  "awaited deadline now f = (r, t) \<Longrightarrow> now \<le> deadline \<Longrightarrow> now \<le> t \<and> t \<le> deadline"
  by (auto simp: awaited_def later_deadline split: future.split_asm if_split_asm)

lemma established_clocked:
  assumes "timed_established env addr up now w = ((r, t), w')"
    and "outside c = w" and "clock c = now" and "\<And>ts. up = Some ts \<Longrightarrow> link c = ts" and "up' = None \<longleftrightarrow> up = None"
  shows "now \<le> t \<and> t \<le> now + RESP_TIMEOUT \<and>
    (\<exists>c' r'. established (clocked env) addr up' c = (r', c') \<and> outside c' = w' \<and> clock c' = t \<and>
       (case r of Ok ts \<Rightarrow> (\<exists>s. r' = Ok s) \<and> link c' = ts | Err f \<Rightarrow> r' = Err f))"
proof (cases up)
  case (Some ts)
  with assms later_deadline [of now] show ?thesis
    by (auto simp: timed_established_def established_def split: option.split)
next
  case None
  obtain f w1 where f: "connecting env addr now w = (f, w1)" by fastforce
  obtain r1 t1 where a: "awaited (now + RESP_TIMEOUT) now f = (r1, t1)" by fastforce
  from None f a assms awaited_bounds [OF a later_deadline] show ?thesis
    by (cases r1)
      (auto simp: timed_established_def established_def clocked_def settled_def with_timeout_def
         split: fault.split)
qed

lemma forward_clocked:
  assumes "timed_forward env addr up args now w = ((r, t), w')"
    and "outside c = w" and "clock c = now" and "\<And>ts. up = Some ts \<Longrightarrow> link c = ts" and "up' = None \<longleftrightarrow> up = None"
  shows "now \<le> t \<and> t \<le> now + RESP_TIMEOUT + RESP_TIMEOUT \<and>
    (\<exists>d c'. forward (clocked env) addr up' args c = (seen_reply d r, c') \<and> outside c' = w' \<and> clock c' = t)"
proof -
  obtain r1 t1 w1 where 1: "timed_established env addr up now w = ((r1, t1), w1)" by (metis prod.collapse)
  from established_clocked [OF 1 assms(2-5)] obtain c1 r1' where t1: "now \<le> t1" "t1 \<le> now + RESP_TIMEOUT"
    and e: "established (clocked env) addr up' c = (r1', c1)" "outside c1 = w1" "clock c1 = t1"
    and r1: "case r1 of Ok ts \<Rightarrow> (\<exists>s. r1' = Ok s) \<and> link c1 = ts | Err f \<Rightarrow> r1' = Err f" by blast
  let ?D = "t1 + RESP_TIMEOUT"
  have D: "?D \<le> now + RESP_TIMEOUT + RESP_TIMEOUT" using t1(2) by (simp add: less_eq_Duration_def)
  show ?thesis
  proof (cases r1)
    case (Err f)
    with 1 e r1 t1 assms(1) later_deadline [of "now + RESP_TIMEOUT"] show ?thesis
      by (auto simp: timed_forward_def forward_def seen_reply_def intro: order_trans)
  next
    case (Ok ts)
    with r1 obtain s where s: "r1' = Ok s" and link: "link c1 = ts" by auto
    obtain f w2 where f: "sending env (encode_command args) ts t1 w1 = (f, w2)" by fastforce
    obtain r2 t2 where 2: "awaited ?D t1 f = (r2, t2)" by fastforce
    note t2 = awaited_bounds [OF 2 later_deadline]
    show ?thesis
    proof (cases r2)
      case (Err g)
      with 1 2 Ok e s link f t1 t2 D assms(1) show ?thesis
        by (cases g) (auto simp: timed_forward_def forward_def clocked_def settled_def seen_reply_def with_timeout_def
            intro: order_trans)
    next
      case (Ok ts2)
      obtain g w3 where g: "flushing env ts2 t2 w2 = (g, w3)" by fastforce
      obtain r3 t3 where 3: "awaited ?D t2 g = (r3, t3)" by fastforce
      have t3: "t2 \<le> t3" "t3 \<le> ?D" using awaited_bounds [OF 3] t2 by auto
      note step = 1 2 3 \<open>r1 = Ok ts\<close> Ok e s link f g t1 t2 D assms(1)
      show ?thesis
      proof (cases r3)
        case (Err g)
        with step t3 show ?thesis
          by (cases g) (auto simp: timed_forward_def forward_def clocked_def settled_def seen_reply_def with_timeout_def
              intro: order_trans)
      next
        case (Ok ts3)
        obtain r4 t4 where 4: "cut_off RESP_TIMEOUT (Fail upstream_timeout_error) t1 (timed_reply t3 ts3) = (r4, t4)" by fastforce
        from reply.cut_off_seen [OF 4 t3(2)] have seen: "t3 \<le> t4" "t4 \<le> ?D"
          "with_timeout upstream_timeout_error
            (and_then (read_value 0 (arrived_by ?D ts3) default_budget) (\<lambda>(v, s, _). Ok (v, s))) = seen_reply ?D r4"
          by (auto simp: seen_reply_def)
        with step t3 Ok 4 have "r = r4" "t = t4" "w' = w3"
          by (auto simp: timed_forward_def)
        moreover have "forward (clocked env) addr up' args c =
            (seen_reply ?D r4, c1\<lparr>outside := w3, clock := t4, began := t1, link := ts2\<rparr>)"
          using step t3 Ok 4 seen(3) by (simp add: forward_def clocked_def settled_def)
        ultimately show ?thesis using seen(1,2) t1 t2 t3 D by (auto intro: order_trans)
      qed
    qed
  qed
qed

section \<open>Serving a command\<close>

text \<open>The timed connection \<open>c\<close> and its untimed counterpart \<open>d\<close> at time \<open>now\<close>.\<close>

definition matches :: "Duration \<Rightarrow> 'w timed_conn \<Rightarrow> 'w clocked conn \<Rightarrow> bool" where
  "matches now c d \<longleftrightarrow>
     request_budget d = timed_budget c \<and> backend_permits d = timed_permits c \<and>
     outside (world d) = timed_world c \<and> clock (world d) = now \<and>
     (\<exists>e. upstream d = map_option (arrived_by e) (timed_upstream c))"

definition linked :: "'w timed_conn \<Rightarrow> 'w clocked conn \<Rightarrow> bool" where
  "linked c d \<longleftrightarrow> (\<forall>ts. timed_upstream c = Some ts \<longrightarrow> link (world d) = ts)"

fun same_flow :: "('w timed_conn \<Rightarrow> 'w clocked conn \<Rightarrow> bool) \<Rightarrow> 'w timed_flow \<Rightarrow> 'w clocked flow \<Rightarrow> bool" where
  "same_flow R (Next c) (Running d) = R c d"
| "same_flow R (Stopped r c) (Finished r' d) = (r = r' \<and> R c d)"
| "same_flow R (Crashed c) (Panicked d) = R c d"
| "same_flow R _ _ = False"

lemma write_clocked:
  assumes "timed_write env encoded now c = ((r, t), c')" and "matches now c d"
  shows "now \<le> t \<and> t \<le> now + CLIENT_WRITE_TIMEOUT \<and> timed_client c' = timed_client c \<and> timed_permits c' = timed_permits c \<and>
    (\<exists>d'. write_response (clocked env) encoded d = (r, d') \<and> matches t c' d' \<and> client d' = client d)"
proof -
  obtain f w where f: "delivering env encoded now (timed_world c) = (f, w)" by fastforce
  obtain r1 t1 where a: "awaited (now + CLIENT_WRITE_TIMEOUT) now f = (r1, t1)" by fastforce
  from assms f a awaited_bounds [OF a later_deadline] show ?thesis
    by (auto simp: timed_write_def write_response_def clocked_def matches_def split: result.split_asm fault.split_asm)
qed

lemma refuse_clocked:
  assumes "timed_refuse env msg context_text now c = (fl, t)" and "matches now c d"
  shows "now \<le> t \<and> t \<le> now + CLIENT_WRITE_TIMEOUT \<and>
    same_flow (\<lambda>c' d'. matches t c' d' \<and> client d' = client d \<and> timed_client c' = timed_client c) fl
      (refuse (clocked env) msg context_text d)"
proof (cases "encode_error msg")
  case None
  with assms later_deadline show ?thesis by (auto simp: timed_refuse_def refuse_def)
next
  case (Some encoded)
  obtain r t1 c1 where w: "timed_write env encoded now c = ((r, t1), c1)" by (metis prod.collapse)
  from write_clocked [OF w assms(2)] w Some assms(1) show ?thesis
    by (cases r) (auto simp: timed_refuse_def refuse_def)
qed

lemma close_clocked:
  assumes "timed_close env msg now c = (fl, t)" and "matches now c d"
  shows "now \<le> t \<and> t \<le> now + CLIENT_WRITE_TIMEOUT \<and>
    same_flow (\<lambda>c' d'. matches t c' d' \<and> client d' = client d \<and> timed_client c' = timed_client c) fl
      (close_with (clocked env) msg d)"
proof (cases "encode_error msg")
  case None
  with assms later_deadline show ?thesis by (auto simp: timed_close_def close_with_def)
next
  case (Some encoded)
  obtain r t1 c1 where w: "timed_write env encoded now c = ((r, t1), c1)" by (metis prod.collapse)
  from write_clocked [OF w assms(2)] w Some assms(1) show ?thesis
    by (cases r) (auto simp: timed_close_def close_with_def)
qed

lemma encode_seen_reply: "encode_reply (seen_reply d r) = encode_reply (seen_reply e r)"
  by (auto simp: encode_reply_def seen_reply_def split: result.split)

text \<open>What \<open>serve_command\<close> does once it holds a backend permit.\<close>

lemma backend_clocked:
  assumes "timed_backend env addr args now c = (fl, t)" and "matches now c d" and "linked c d"
    and "is_allowed (classify_bytes_arguments args)" and "timed_permits c \<noteq> 0"
  shows "now \<le> t \<and> t \<le> now + RESP_TIMEOUT + RESP_TIMEOUT + CLIENT_WRITE_TIMEOUT \<and>
    same_flow (\<lambda>c' d'. matches t c' d' \<and> client d' = client d \<and> timed_client c' = timed_client c \<and> timed_permits c' = timed_permits c)
      fl (serve_command (clocked env) addr args d)"
proof -
  obtain reply t1 w1 where fw: "timed_forward env addr (timed_upstream c) args now (timed_world c) = ((reply, t1), w1)"
    by (metis prod.collapse)
  from assms(2,3) obtain e where m: "outside (world d) = timed_world c" "clock (world d) = now"
    "upstream d = map_option (arrived_by e) (timed_upstream c)" "backend_permits d = timed_permits c"
    and link: "\<And>ts. timed_upstream c = Some ts \<Longrightarrow> link (world d) = ts"
    by (auto simp: matches_def linked_def)
  from m(3) have up: "upstream d = None \<longleftrightarrow> timed_upstream c = None" by auto
  from forward_clocked [OF fw m(1,2) link up] obtain k w2 where t1: "now \<le> t1" "t1 \<le> now + RESP_TIMEOUT + RESP_TIMEOUT"
    and fw': "forward (clocked env) addr (upstream d) args (world d) = (seen_reply k reply, w2)"
    and w2: "outside w2 = w1" "clock w2 = t1" by blast
  obtain encoded close where er: "encode_reply (seen_reply k reply) = (Some encoded, close)"
    using encode_reply_some by blast
  let ?c = "c\<lparr>timed_permits := timed_permits c - 1, timed_upstream := timed_upstream_after reply (timed_upstream c), timed_world := w1\<rparr>"
  let ?d = "d\<lparr>backend_permits := backend_permits d - 1, upstream := upstream_after (seen_reply k reply) (upstream d), world := w2\<rparr>"
  have m': "matches t1 ?c ?d"
    using assms(2) w2 m(3) by (auto simp: matches_def timed_upstream_after_def upstream_after_def seen_reply_def split: result.split)
  obtain r t2 c2 where w: "timed_write env encoded t1 ?c = ((r, t2), c2)" by (metis prod.collapse)
  from write_clocked [OF w m'] obtain d2 where t2: "t1 \<le> t2" "t2 \<le> t1 + CLIENT_WRITE_TIMEOUT"
    and wr: "write_response (clocked env) encoded ?d = (r, d2)" "matches t2 c2 d2" "client d2 = client d"
      "timed_client c2 = timed_client c" "timed_permits c2 = timed_permits c - 1" by auto
  let ?c3 = "c2\<lparr>timed_permits := timed_permits c2 + 1\<rparr>"
  let ?flow = "case r of Err e \<Rightarrow> Stopped (Err (''failed to write RESP reply: '' @ e)) ?c3
      | Ok _ \<Rightarrow> if close then Stopped (Ok ()) ?c3 else Next ?c3"
  have "encode_reply (seen_reply t1 reply) = (Some encoded, close)" using er encode_seen_reply by metis
  with fw w assms(1) have fl: "fl = ?flow" "t = t2"
    by (auto simp: timed_backend_def Let_def split: result.split)
  have "matches t2 ?c3 (d2\<lparr>backend_permits := backend_permits d2 + 1\<rparr>)" using wr(2) by (simp add: matches_def)
  with fw' er wr assms(4,5) m(4) have
    "same_flow (\<lambda>c' d'. matches t2 c' d' \<and> client d' = client d \<and> timed_client c' = timed_client c \<and> timed_permits c' = timed_permits c)
      ?flow (serve_command (clocked env) addr args d)"
    by (cases r) (simp_all add: serve_command_def write_backend_response_def)
  moreover have "t2 \<le> now + RESP_TIMEOUT + RESP_TIMEOUT + CLIENT_WRITE_TIMEOUT" using t1 t2 by (simp add: less_eq_Duration_def)
  ultimately show ?thesis using fl t1(1) t2(1) by (auto intro: order_trans)
qed

lemma serve_clocked:
  assumes "timed_serve_command env addr args now c = (fl, t)" and "matches now c d" and "linked c d"
  shows "now \<le> t \<and> t \<le> now + RESP_TIMEOUT + RESP_TIMEOUT + CLIENT_WRITE_TIMEOUT \<and>
    same_flow (\<lambda>c' d'. matches t c' d' \<and> client d' = client d \<and> timed_client c' = timed_client c)
      fl (serve_command (clocked env) addr args d)"
proof (cases "is_allowed (classify_bytes_arguments args) \<and> timed_permits c \<noteq> 0")
  case True
  with assms(1) have "timed_backend env addr args now c = (fl, t)" by (simp add: timed_serve_command_def)
  with backend_clocked [OF this assms(2,3)] True show ?thesis
    by (cases fl; cases "serve_command (clocked env) addr args d") auto
next
  case False
  have early: "u \<le> now + RESP_TIMEOUT + RESP_TIMEOUT + CLIENT_WRITE_TIMEOUT" if "u \<le> now + CLIENT_WRITE_TIMEOUT" for u
    using that by (simp add: less_eq_Duration_def)
  from False assms(2) have "backend_permits d = timed_permits c" by (simp add: matches_def)
  with False assms(1) refuse_clocked [OF _ assms(2), of env _ _ fl t] early show ?thesis
    by (auto simp: timed_serve_command_def serve_command_def Let_def split: if_split_asm)
qed

section \<open>The iteration\<close>

definition nothing_sent :: stream where
  "nothing_sent = \<lparr>pending = [], ending = Silent\<rparr>"

text \<open>The connection as it is seen at time \<open>d\<close> with the client's stream \<open>s\<close>.\<close>

definition seen :: "stream \<Rightarrow> Duration \<Rightarrow> 'w timed_conn \<Rightarrow> 'w clocked conn" where
  "seen s d c =
     \<lparr>client = s, upstream = map_option (arrived_by d) (timed_upstream c), request_budget = timed_budget c,
      backend_permits = timed_permits c,
      world = \<lparr>outside = timed_world c, clock = d, began = d,
        link = (case timed_upstream c of Some ts \<Rightarrow> ts | None \<Rightarrow> \<lparr>arrivals = [], ends_at = 0, final = Silent\<rparr>)\<rparr>\<rparr>"

lemma seen_matches [simp]: "matches d c (seen s d c)" "linked c (seen s d c)"
  by (auto simp: matches_def linked_def seen_def)

lemma seen_simps [simp]: "client (seen s d c) = s" "request_budget (seen s d c) = timed_budget c"
  by (simp_all add: seen_def)

lemma drop_clocked:
  "same_flow (\<lambda>c' d'. matches t c' d' \<and> P (client d') (timed_client c')) fl fl' \<Longrightarrow>
   same_flow (\<lambda>c' d'. matches t c' d' \<and> P (client d') (timed_client c'))
     (on_timed_flow (timed_drop_reservation r) fl) (on_flow (drop_reservation r) fl')"
  by (cases fl; cases fl') (simp_all add: matches_def timed_drop_reservation_def drop_reservation_def)

text \<open>The client's stream after an iteration: what is left of it, as it was when the request was read.\<close>

definition after_read :: "Duration \<Rightarrow> Duration \<Rightarrow> 'w timed_conn \<Rightarrow> 'w clocked conn \<Rightarrow> bool" where
  "after_read t d c' d' \<longleftrightarrow> matches t c' d' \<and> client d' = arrived_by d (timed_client c')"

lemma step_clocked_read:
  assumes "timed_step env addr now c = (fl, t)" and "next_request (timed_client c) (timed_budget c) now = (r, d)"
    and "r \<noteq> Err Hang"
  shows "d \<le> t \<and> t \<le> d + RESP_TIMEOUT + RESP_TIMEOUT + CLIENT_WRITE_TIMEOUT \<and>
    same_flow (after_read t d) fl (handle_step (clocked env) addr (seen (arrived_by d (timed_client c)) d c))"
proof -
  let ?s = "arrived_by d (timed_client c)"
  note read = next_request_read(3) [OF assms(2,3)]
  have early: "u \<le> d + RESP_TIMEOUT + RESP_TIMEOUT + CLIENT_WRITE_TIMEOUT" if "u \<le> d + CLIENT_WRITE_TIMEOUT" for u
    using that by (simp add: less_eq_Duration_def)
  show ?thesis
  proof (cases r)
    case (Err f)
    with assms(3) obtain e where e: "r = Err (Fail e)" by (cases f) auto
    with assms(1,2) have "timed_close env e d c = (fl, t)" by (simp add: timed_step_def)
    from close_clocked [OF this seen_matches(1), of ?s] early e read show ?thesis
      by (cases fl; cases "close_with (clocked env) e (seen ?s d c)")
        (auto simp: handle_step_def seen_def [of ?s] after_read_def)
  next
    case (Ok p)
    obtain request reservation ts b where p: "p = (request, reservation, ts, b)" by (cases p) auto
    let ?c = "c\<lparr>timed_client := ts, timed_budget := b\<rparr>"
    let ?d = "(seen ?s d c)\<lparr>client := arrived_by d ts, request_budget := b\<rparr>"
    have m: "matches d ?c ?d" "linked ?c ?d" by (auto simp: matches_def linked_def seen_def)
    let ?run = "case request of Eof \<Rightarrow> (Stopped (Ok ()) ?c, d)
      | Command args \<Rightarrow> if args = [] then (Next ?c, d) else timed_serve_command env addr args d ?c"
    let ?run' = "case request of Eof \<Rightarrow> Finished (Ok ()) ?d
      | Command args \<Rightarrow> if args = [] then Running ?d else serve_command (clocked env) addr args ?d"
    obtain fl1 where run: "?run = (fl1, t)" "fl = on_timed_flow (timed_drop_reservation reservation) fl1"
      using assms(1,2) Ok p by (cases ?run) (auto simp: timed_step_def)
    have untimed: "handle_step (clocked env) addr (seen ?s d c) = on_flow (drop_reservation reservation) ?run'"
      using read Ok p by (simp add: handle_step_def Let_def)
    have "d \<le> t \<and> t \<le> d + RESP_TIMEOUT + RESP_TIMEOUT + CLIENT_WRITE_TIMEOUT \<and> same_flow (after_read t d) fl1 ?run'"
    proof (cases "request = Eof \<or> request = Command []")
      case True
      with run m early [OF later_deadline] show ?thesis by (auto simp: after_read_def)
    next
      case False
      then obtain args where args: "request = Command args" "args \<noteq> []" by (cases request) auto
      with run have "timed_serve_command env addr args d ?c = (fl1, t)" by simp
      from serve_clocked [OF this m] args show ?thesis
        by (cases fl1; cases "serve_command (clocked env) addr args ?d") (auto simp: after_read_def)
    qed
    then show ?thesis
      using drop_clocked [of t "\<lambda>x y. x = arrived_by d y" fl1 ?run' reservation] run(2) untimed
      by (simp add: after_read_def [abs_def])
  qed
qed

lemma step_clocked_idle:
  assumes "timed_step env addr now c = (fl, t)" and "next_request (timed_client c) (timed_budget c) now = (Err Hang, d)"
  shows "d \<le> t \<and> t \<le> d + CLIENT_WRITE_TIMEOUT \<and>
    same_flow (matches t) fl (handle_step (clocked env) addr (seen nothing_sent d c))"
proof -
  from assms have "timed_close env IDLE_TIMEOUT_ERROR d c = (fl, t)" by (simp add: timed_step_def)
  moreover have "read_request nothing_sent (timed_budget c) = Err Hang"
    by (simp add: read_request_def read_line_def read_until_limited_def read_until_def nothing_sent_def limits)
  ultimately show ?thesis
    using close_clocked [OF _ seen_matches(1), of env IDLE_TIMEOUT_ERROR d c fl t nothing_sent]
    by (cases fl; cases "close_with (clocked env) IDLE_TIMEOUT_ERROR (seen nothing_sent d c)")
      (auto simp: handle_step_def seen_def)
qed

text \<open>C16: the iteration against the clock is the untimed one on what has arrived: the wait for a request is over
  at some \<open>d\<close>, within twenty seconds; what follows, with the backend permit it may hold, takes at most
  twelve more, whatever the client and the child do; and its outcome is that of \<open>handle_step\<close> for the
  bytes arrived by \<open>d\<close> or, at the idle deadline, for a client who has sent nothing.\<close>

theorem timed_step_refines:
  assumes "timed_step env addr now c = (fl, t)"
  shows "\<exists>d. now \<le> d \<and> d \<le> now + from_secs 20 \<and> d \<le> t \<and> t \<le> d + from_secs 12 \<and>
    (same_flow (after_read t d) fl (handle_step (clocked env) addr (seen (arrived_by d (timed_client c)) d c)) \<or>
     d = now + from_secs 20 \<and> same_flow (matches t) fl (handle_step (clocked env) addr (seen nothing_sent d c)))"
proof -
  obtain r d where r: "next_request (timed_client c) (timed_budget c) now = (r, d)" by fastforce
  have times: "d + RESP_TIMEOUT + RESP_TIMEOUT + CLIENT_WRITE_TIMEOUT = d + from_secs 12" "CLIENT_IDLE_TIMEOUT = from_secs 20"
    by (simp_all add: limits from_secs_def plus_Duration_def)
  have "d + CLIENT_WRITE_TIMEOUT \<le> d + from_secs 12" by (simp add: limits less_eq_Duration_def)
  then show ?thesis
    using next_request_read [OF r] step_clocked_read [OF assms r] step_clocked_idle [OF assms, of d] r times
    by (cases "r = Err Hang") (auto intro!: exI [of _ d])
qed

text \<open>A client who is idle for twenty seconds and then does not take the error.\<close>

definition stalled_env :: "unit timed_env" where
  "stalled_env = \<lparr>connecting = \<lambda>_ _ w. (Never, w), sending = \<lambda>_ _ _ w. (Never, w), flushing = \<lambda>_ _ w. (Never, w),
     delivering = \<lambda>_ _ w. (Never, w)\<rparr>"

definition stalled_conn :: "unit timed_conn" where
  "stalled_conn = \<lparr>timed_client = late_client, timed_upstream = None, timed_budget = new_request_budget 4096,
     timed_permits = 1, timed_world = ()\<rparr>"

lemma stalled_step: "timed_step stalled_env addr 0 stalled_conn = (Stopped (Ok ()) stalled_conn, from_secs 22)"
proof -
  obtain encoded where "encode_error IDLE_TIMEOUT_ERROR = Some encoded"
    by (simp add: encode_error_fits IDLE_TIMEOUT_ERROR_def MAX_RESPONSE_BYTES_def)
  with late_client_idle show ?thesis
    by (simp add: timed_step_def stalled_conn_def timed_close_def timed_write_def
        stalled_env_def awaited_def limits from_secs_def plus_Duration_def)
qed

theorem timed_step_refines_witness:
  "\<exists>d. 0 \<le> d \<and> d \<le> 0 + from_secs 20 \<and> d \<le> from_secs 22 \<and> from_secs 22 \<le> d + from_secs 12 \<and>
    (same_flow (after_read (from_secs 22) d) (Stopped (Ok ()) stalled_conn)
       (handle_step (clocked stalled_env) ''127.0.0.1:6380'' (seen (arrived_by d (timed_client stalled_conn)) d stalled_conn)) \<or>
     d = 0 + from_secs 20 \<and> same_flow (matches (from_secs 22)) (Stopped (Ok ()) stalled_conn)
       (handle_step (clocked stalled_env) ''127.0.0.1:6380'' (seen nothing_sent d stalled_conn)))"
  by (rule timed_step_refines [OF stalled_step])

end
