(* ===== verification/Supervisor.thy ===== *)
theory Supervisor
  imports Timing Resp_Client
begin

text \<open>
  The lifecycle of the Ferrite child (\<open>supervisor.rs\<close>): waiting until it answers, and stopping it with
  SIGTERM, a grace period and SIGKILL.  What the operating system reports of the child, and how
  the child reacts to signals, are the fields of \<open>child\<close>; the text of an exit status is the
  parameter \<open>show_status\<close>.
\<close>

definition INTERNAL_RESP_ADDR :: rstring where
  "INTERNAL_RESP_ADDR = ''127.0.0.1:6380''"

definition FERRITE_BIN :: rstring where
  "FERRITE_BIN = ''/usr/local/bin/ferrite''"

definition INTERNAL_RESP_BIND :: rstring where
  "INTERNAL_RESP_BIND = ''127.0.0.1''"

definition INTERNAL_RESP_PORT :: rstring where
  "INTERNAL_RESP_PORT = ''6380''"

definition DATA_DIR :: rstring where
  "DATA_DIR = ''/var/lib/ferrite/data''"

definition SHUTDOWN_TIMEOUT :: Duration where
  [limits]: "SHUTDOWN_TIMEOUT = from_secs 5"

definition KILL_REAP_TIMEOUT :: Duration where
  [limits]: "KILL_REAP_TIMEOUT = from_millis 500"

definition STARTUP_TIMEOUT :: Duration where
  [limits]: "STARTUP_TIMEOUT = from_secs 15"

definition READY_POLL_INTERVAL :: Duration where
  [limits]: "READY_POLL_INTERVAL = from_millis 100"

section \<open>Starting the child\<close>

text \<open>\<open>exec\<close> is what the operating system makes of a program and its arguments.\<close>

definition spawn :: "(rstring \<Rightarrow> rstring list \<Rightarrow> (unit, rstring) result) \<Rightarrow> (unit, rstring) result" where
  "spawn exec =
     map_err (\<lambda>e. ''failed to start '' @ FERRITE_BIN @ '': '' @ e)
       (exec FERRITE_BIN
         [''--bind'', INTERNAL_RESP_BIND, ''--port'', INTERNAL_RESP_PORT, ''--data-dir'', DATA_DIR])"

lemma INTERNAL_RESP_ADDR_split: "INTERNAL_RESP_ADDR = INTERNAL_RESP_BIND @ '':'' @ INTERNAL_RESP_PORT"
  by (simp add: INTERNAL_RESP_ADDR_def INTERNAL_RESP_BIND_def INTERNAL_RESP_PORT_def)

section \<open>Stopping the child\<close>

datatype Signal = SIGTERM | SIGKILL

record 's child =
  try_wait :: "('s option, rstring) result"
  process_id :: "nat option"
  on_sigterm :: "(unit, rstring) result"
  exit_after_sigterm :: "('s, rstring) result future"
  on_sigkill :: "(unit, rstring) result"
  exit_after_sigkill :: "('s, rstring) result future"

text \<open>The result, the signals sent and the time taken.\<close>

definition escalate :: "nat \<Rightarrow> 's child \<Rightarrow> ('s, rstring) result \<times> Signal list \<times> Duration" where
  "escalate pid c =
     (case on_sigkill c of
        Err e \<Rightarrow> (Err (''failed to SIGKILL Ferrite child '' @ show_nat pid @ '': '' @ e), [], 0)
      | Ok _ \<Rightarrow>
          (case timeout KILL_REAP_TIMEOUT (exit_after_sigkill c) of
             (None, t) \<Rightarrow>
               (Err (''timed out after 0.5 seconds reaping Ferrite child '' @ show_nat pid @ '' after SIGKILL''), [SIGKILL], t)
           | (Some r, t) \<Rightarrow>
               (map_err (\<lambda>e. ''failed to reap Ferrite child '' @ show_nat pid @ '': '' @ e) r, [SIGKILL], t)))"

definition stop_with_timeout :: "'s child \<Rightarrow> Duration \<Rightarrow> ('s, rstring) result \<times> Signal list \<times> Duration" where
  "stop_with_timeout c grace =
     (case try_wait c of
        Err e \<Rightarrow> (Err (''failed to inspect Ferrite child before shutdown: '' @ e), [], 0)
      | Ok (Some status) \<Rightarrow> (Ok status, [], 0)
      | Ok None \<Rightarrow>
          (case process_id c of
             None \<Rightarrow> (Err ''Ferrite child has no process ID'', [], 0)
           | Some pid \<Rightarrow>
               (case on_sigterm c of
                  Err e \<Rightarrow> (Err (''failed to send SIGTERM to Ferrite child '' @ show_nat pid @ '': '' @ e), [], 0)
                | Ok _ \<Rightarrow>
                    (case timeout grace (exit_after_sigterm c) of
                       (Some r, t) \<Rightarrow>
                         (map_err (\<lambda>e. ''failed to wait for Ferrite child: '' @ e) r, [SIGTERM], t)
                     | (None, t) \<Rightarrow>
                         (case escalate pid c of (r, signals, t') \<Rightarrow> (r, SIGTERM # signals, t + t'))))))"

text \<open>\<open>stop\<close> reports a failure to the log only.\<close>

definition stop :: "'s child \<Rightarrow> Signal list \<times> Duration" where
  "stop c = (case stop_with_timeout c SHUTDOWN_TIMEOUT of (_, signals, t) \<Rightarrow> (signals, t))"

definition unexpected_exit_error :: "('s \<Rightarrow> rstring) \<Rightarrow> 's \<Rightarrow> rstring" where
  "unexpected_exit_error show_status status =
     ''Ferrite RESP server exited without a launcher-initiated shutdown ('' @ show_status status @
     ''); the playground supervises a single long-running service, so any unsolicited exit is a failure''"

section \<open>Waiting for the child\<close>

text \<open>
  What the launcher finds at each moment after the start: whether the child has exited, and how long
  a probe started then takes by itself.  The probe is the code's own \<open>execute\<close>, whose deadline ends
  it after five seconds; what it meets is the environment.
\<close>

record 's startup =
  inspect :: "Duration \<Rightarrow> ('s option, rstring) result"
  probe_time :: "Duration \<Rightarrow> Duration"

definition answers_ping :: "(RespValue, rstring) result \<Rightarrow> bool" where
  "answers_ping r \<longleftrightarrow> r = Ok (Simple ''PONG'')"

definition probe :: "'w env \<Rightarrow> 's startup \<Rightarrow> Duration \<Rightarrow> 'w \<Rightarrow> bool \<times> 'w \<times> Duration" where
  "probe env up now w =
     (case execute env INTERNAL_RESP_ADDR [''PING''] w of
        (r, w) \<Rightarrow> (answers_ping r, w, now + min (probe_time up now) (from_secs RESP_TIMEOUT_SECS)))"

lemma probe_waits: "probe env up now w = (pong, w', after) \<Longrightarrow> now \<le> after \<and> after \<le> now + from_secs 5"
  by (auto simp: probe_def less_eq_Duration_def limits min_def split: prod.split_asm)

function wait_for_ready ::
    "('s \<Rightarrow> rstring) \<Rightarrow> 'w env \<Rightarrow> 's startup \<Rightarrow> Duration \<Rightarrow> 'w \<Rightarrow> (unit, rstring) result \<times> 'w \<times> Duration" where
  "wait_for_ready show_status env up now w =
     (case inspect up now of
        Err e \<Rightarrow> (Err (''failed to inspect Ferrite child: '' @ e), w, now)
      | Ok (Some status) \<Rightarrow>
          (Err (''Ferrite RESP server exited during startup with '' @ show_status status), w, now)
      | Ok None \<Rightarrow>
          (case probe env up now w of
             (pong, w, after) \<Rightarrow>
               if pong then (Ok (), w, after)
               else if STARTUP_TIMEOUT \<le> after then
                 (Err (''Ferrite RESP server did not become ready at '' @ INTERNAL_RESP_ADDR @ '' within 15 seconds''),
                  w, after)
               else wait_for_ready show_status env up (after + READY_POLL_INTERVAL) w))"
  by pat_completeness auto
termination
  by (relation "measure (\<lambda>(_, _, _, now, _). millis STARTUP_TIMEOUT - millis now)")
    (auto simp: less_eq_Duration_def limits dest!: sym [of "(_, _)" "probe _ _ _ _"] probe_waits)

declare wait_for_ready.simps [simp del]

section \<open>What stopping guarantees\<close>

lemma escalate_time: "escalate pid c = (r, signals, t) \<Longrightarrow> t \<le> KILL_REAP_TIMEOUT \<and> (signals = [] \<or> signals = [SIGKILL])"
  by (cases "exit_after_sigkill c")
    (auto simp: escalate_def less_eq_Duration_def split: result.split_asm if_split_asm)

lemma stop_outcome:
  assumes "stop_with_timeout c grace = (r, signals, t)"
  shows "t \<le> grace + KILL_REAP_TIMEOUT \<and>
    signals \<in> {[], [SIGTERM], [SIGTERM, SIGKILL]} \<and>
    (signals \<noteq> [] \<longrightarrow> try_wait c = Ok None) \<and>
    (SIGKILL \<in> set signals \<longrightarrow> \<not> in_time grace (exit_after_sigterm c) \<and> grace \<le> t) \<and>
    (in_time grace (exit_after_sigterm c) \<longrightarrow> t \<le> grace)"
proof (cases "\<exists>pid. try_wait c = Ok None \<and> process_id c = Some pid \<and> on_sigterm c = Ok ()")
  case False
  with assms have "signals = [] \<and> t = 0"
    by (auto simp: stop_with_timeout_def split: result.split_asm option.split_asm)
  then show ?thesis by (simp add: less_eq_Duration_def)
next
  case True
  then obtain pid where run: "try_wait c = Ok None" "process_id c = Some pid" "on_sigterm c = Ok ()" by blast
  show ?thesis
  proof (cases rule: timeout_cases [of grace "exit_after_sigterm c"])
    case (1 a t')
    with assms run show ?thesis by (auto simp: stop_with_timeout_def less_eq_Duration_def)
  next
    case 2
    obtain r' s' t' where e: "escalate pid c = (r', s', t')" by (cases "escalate pid c")
    with assms run 2 have "signals = SIGTERM # s'" "t = grace + t'" by (simp_all add: stop_with_timeout_def)
    with escalate_time [OF e] 2 run(1) show ?thesis by (auto simp: less_eq_Duration_def)
  qed
qed

text \<open>C24: stopping is bounded and escalates in order: it takes at most the grace period and half a second,
  signals a child only while it runs, and sends SIGKILL exactly when SIGTERM was sent and the
  whole grace period has passed without an exit.\<close>

theorem stop_bounded_and_ordered:
  assumes "stop_with_timeout c grace = (r, signals, t)"
  shows "t \<le> grace + KILL_REAP_TIMEOUT \<and>
    signals \<in> {[], [SIGTERM], [SIGTERM, SIGKILL]} \<and>
    (signals \<noteq> [] \<longrightarrow> try_wait c = Ok None) \<and>
    (SIGKILL \<in> set signals \<longrightarrow> \<not> in_time grace (exit_after_sigterm c) \<and> grace \<le> t) \<and>
    (in_time grace (exit_after_sigterm c) \<longrightarrow> t \<le> grace)"
  using stop_outcome [OF assms] .

definition stubborn_child :: "nat child" where
  "stubborn_child =
     \<lparr>try_wait = Ok None, process_id = Some 7, on_sigterm = Ok (), exit_after_sigterm = Never,
      on_sigkill = Ok (), exit_after_sigkill = After (from_millis 20) (Ok 9)\<rparr>"

lemma stop_stubborn:
  "stop_with_timeout stubborn_child SHUTDOWN_TIMEOUT = (Ok 9, [SIGTERM, SIGKILL], SHUTDOWN_TIMEOUT + from_millis 20)"
  by (simp add: stop_with_timeout_def escalate_def stubborn_child_def less_eq_Duration_def limits)

theorem stop_bounded_and_ordered_witness:
  "SHUTDOWN_TIMEOUT + from_millis 20 \<le> SHUTDOWN_TIMEOUT + KILL_REAP_TIMEOUT \<and> SHUTDOWN_TIMEOUT \<le> SHUTDOWN_TIMEOUT + from_millis 20"
  using stop_bounded_and_ordered [OF stop_stubborn] by simp

section \<open>What readiness means\<close>

lemma wait_for_ready_ends:
  assumes "wait_for_ready show_status env up now w = (r, w', t)" and "now \<le> STARTUP_TIMEOUT + READY_POLL_INTERVAL"
  shows "t \<le> STARTUP_TIMEOUT + READY_POLL_INTERVAL + from_secs 5 \<and>
    (r = Ok () \<longrightarrow> (\<exists>d w0. d \<le> t \<and> inspect up d = Ok None \<and> probe env up d w0 = (True, w', t)))"
  using assms
proof (induction show_status env up now w rule: wait_for_ready.induct)
  case (1 show_status env up now w)
  show ?case
  proof (cases "inspect up now")
    case (Ok found)
    show ?thesis
    proof (cases found)
      case None
      obtain pong w1 after where p: "probe env up now w = (pong, w1, after)" by (cases "probe env up now w")
      have took: "now \<le> after" "after \<le> now + from_secs 5" using probe_waits [OF p] by auto
      note step = "1.prems"(1) [unfolded wait_for_ready.simps [of show_status env up now w] Ok None p]
      show ?thesis
      proof (cases "pong \<or> STARTUP_TIMEOUT \<le> after")
        case True
        with step have t: "t = after" and r: "r = Ok () \<longrightarrow> pong \<and> w' = w1" by (auto split: if_split_asm)
        from "1.prems"(2) took(2) have "t \<le> STARTUP_TIMEOUT + READY_POLL_INTERVAL + from_secs 5"
          by (simp add: t less_eq_Duration_def)
        moreover from took(1) Ok None p r t
        have "r = Ok () \<longrightarrow> (\<exists>d w0. d \<le> t \<and> inspect up d = Ok None \<and> probe env up d w0 = (True, w', t))"
          by (intro impI exI [of _ now] exI [of _ w]) simp
        ultimately show ?thesis by blast
      next
        case False
        then have "after + READY_POLL_INTERVAL \<le> STARTUP_TIMEOUT + READY_POLL_INTERVAL"
          by (simp add: less_eq_Duration_def)
        with False step show ?thesis
          using "1.IH" [OF Ok None p [symmetric] refl] by simp
      qed
    next
      case (Some status)
      with "1.prems" Ok show ?thesis
        by (auto simp: wait_for_ready.simps [of show_status env up now w] less_eq_Duration_def)
    qed
  next
    case (Err e)
    with "1.prems" show ?thesis
      by (auto simp: wait_for_ready.simps [of show_status env up now w] less_eq_Duration_def)
  qed
qed

lemma probe_True:
  "probe env up now w = (True, w', after) \<Longrightarrow> execute env INTERNAL_RESP_ADDR [''PING''] w = (Ok (Simple ''PONG''), w')"
  by (auto simp: probe_def answers_ping_def split: prod.split_asm)

text \<open>C34: waiting for the child always ends, within 20.1 seconds of the start however long the child and the
  network take; and it ends well only with a probe of the running child that was answered with
  \<open>PONG\<close>.\<close>

theorem ready_means_answered:
  assumes "wait_for_ready show_status env up 0 w = (r, w', t)"
  shows "t \<le> from_millis 20100 \<and>
    (r = Ok () \<longrightarrow>
      (\<exists>d w0. d \<le> t \<and> inspect up d = Ok None \<and> execute env INTERNAL_RESP_ADDR [''PING''] w0 = (Ok (Simple ''PONG''), w')))"
proof -
  have "(0 :: Duration) \<le> STARTUP_TIMEOUT + READY_POLL_INTERVAL" by (simp add: less_eq_Duration_def)
  note ends = wait_for_ready_ends [OF assms this]
  then have "t \<le> from_millis 20100" by (simp add: less_eq_Duration_def limits)
  moreover have "r = Ok () \<longrightarrow>
      (\<exists>d w0. d \<le> t \<and> inspect up d = Ok None \<and> execute env INTERNAL_RESP_ADDR [''PING''] w0 = (Ok (Simple ''PONG''), w'))"
    using ends by (auto dest!: probe_True)
  ultimately show ?thesis ..
qed

text \<open>A child that is still loading at the first probe and answers the second.\<close>

definition slow_startup :: "nat startup" where
  "slow_startup = \<lparr>inspect = \<lambda>_. Ok None, probe_time = \<lambda>_. from_millis 2\<rparr>"

lemma slow_startup_ready:
  "wait_for_ready show_nat scripted_env slow_startup 0 [Simple ''LOADING'', Simple ''PONG''] = (Ok (), [], from_millis 104)"
proof -
  have "probe scripted_env slow_startup 0 [Simple ''LOADING'', Simple ''PONG''] = (False, [Simple ''PONG''], from_millis 2)"
    "probe scripted_env slow_startup (from_millis 102) [Simple ''PONG''] = (True, [], from_millis 104)"
    using scripted_reply [OF pong_fits, of "[''PING'']" INTERNAL_RESP_ADDR "[]"]
      scripted_reply [OF loading_fits, of "[''PING'']" INTERNAL_RESP_ADDR "[Simple ''PONG'']"]
    by (simp_all add: probe_def execute_def answers_ping_def slow_startup_def limits min_def less_eq_Duration_def
        from_millis_def plus_Duration_def zero_Duration_def)
  then show ?thesis
    by (simp add: wait_for_ready.simps slow_startup_def less_eq_Duration_def limits from_millis_def plus_Duration_def)
qed

theorem ready_means_answered_witness:
  "from_millis 104 \<le> from_millis 20100 \<and>
   (\<exists>d w0. d \<le> from_millis 104 \<and> inspect slow_startup d = Ok None \<and>
      execute scripted_env INTERNAL_RESP_ADDR [''PING''] w0 = (Ok (Simple ''PONG''), []))"
  using ready_means_answered [OF slow_startup_ready] by simp

end
