(* ===== verification/Launcher.thy ===== *)
theory Launcher
  imports Supervisor
begin

text \<open>
  The launcher's main task (\<open>main.rs\<close>): it starts the child, waits for it, binds both listeners, runs
  the two services until one of four events, and then stops the child and joins the services.
  What the outside does is a \<open>host\<close>; how a service task ends when it is told to, and when it
  is aborted, is a \<open>service\<close>.
\<close>

definition SERVICE_SHUTDOWN_TIMEOUT :: Duration where
  [limits]: "SERVICE_SHUTDOWN_TIMEOUT = from_secs 1"

definition SERVICE_ABORT_REAP_TIMEOUT :: Duration where
  [limits]: "SERVICE_ABORT_REAP_TIMEOUT = from_millis 500"

definition MAX_INTERNAL_SHUTDOWN_BUDGET :: Duration where
  [limits]: "MAX_INTERNAL_SHUTDOWN_BUDGET = from_secs 7"

definition HTTP_ADDR :: rstring where
  "HTTP_ADDR = ''0.0.0.0:8080''"

definition PUBLIC_RESP_ADDR :: rstring where
  "PUBLIC_RESP_ADDR = ''0.0.0.0:6379''"

section \<open>Joining a service\<close>

record JoinError =
  is_cancelled :: bool
  message :: rstring

type_synonym joined = "((unit, rstring) result, JoinError) result"

record service =
  ends_by_itself :: "joined future"
  ends_when_aborted :: "joined future"

definition join_service :: "service option \<Rightarrow> Duration \<Rightarrow> rstring \<Rightarrow> (unit, rstring) result \<times> Duration" where
  "join_service task grace label =
     (case task of
        None \<Rightarrow> (Ok (), 0)
      | Some task \<Rightarrow>
          (case timeout grace (ends_by_itself task) of
             (Some (Ok r), t) \<Rightarrow> (r, t)
           | (Some (Err e), t) \<Rightarrow>
               (if is_cancelled e then Ok () else Err (label @ '' task failed: '' @ message e), t)
           | (None, t) \<Rightarrow>
               (case timeout SERVICE_ABORT_REAP_TIMEOUT (ends_when_aborted task) of
                  (None, t') \<Rightarrow> (Err (''timed out reaping aborted '' @ label @ '' task''), t + t')
                | (Some _, t') \<Rightarrow> (Err (''timed out waiting for '' @ label @ '' shutdown''), t + t'))))"

text \<open>Both are joined concurrently, so that the time is the longer one's.\<close>

definition join_services ::
    "service option \<Rightarrow> service option \<Rightarrow> ((unit, rstring) result \<times> (unit, rstring) result) \<times> Duration" where
  "join_services http_server resp_proxy =
     (let (h, t) = join_service http_server SERVICE_SHUTDOWN_TIMEOUT ''HTTP playground'';
          (p, t') = join_service resp_proxy SERVICE_SHUTDOWN_TIMEOUT ''public RESP proxy''
      in ((h, p), max t t'))"

definition unexpected_service_result :: "joined \<Rightarrow> rstring \<Rightarrow> rstring \<Rightarrow> (unit, rstring) result" where
  "unexpected_service_result r unexpected_exit task_name =
     (case r of
        Ok (Ok _) \<Rightarrow> Err unexpected_exit
      | Ok (Err e) \<Rightarrow> Err e
      | Err e \<Rightarrow> Err (task_name @ '' task failed: '' @ message e))"

section \<open>The run of the launcher\<close>

datatype 's event =
    Child_Exited "('s, rstring) result"
  | Shutdown_Signal "(unit, rstring) result"
  | Proxy_Ended joined
  | Http_Ended joined

text \<open>
  The result of the second event: the handler of SIGTERM is registered, and then the first of
  Ctrl-C (whose wait may fail) and SIGTERM ends the wait.  Other systems than Unix have Ctrl-C only.
\<close>

datatype signal_wait = Ctrl_C "(unit, rstring) result" | Terminate

definition shutdown_signal :: "(unit, rstring) result \<Rightarrow> signal_wait \<Rightarrow> (unit, rstring) result" where
  "shutdown_signal registration first_signal =
     and_then (map_err (\<lambda>e. ''failed to register SIGTERM handler: '' @ e) registration) (\<lambda>_.
       case first_signal of
         Ctrl_C r \<Rightarrow> map_err (\<lambda>e. ''failed to wait for Ctrl-C: '' @ e) r
       | Terminate \<Rightarrow> Ok ())"

definition shutdown_signal_elsewhere :: "(unit, rstring) result \<Rightarrow> (unit, rstring) result" where
  "shutdown_signal_elsewhere r = map_err (\<lambda>e. ''failed to wait for Ctrl-C: '' @ e) r"

lemma shutdown_signal_Ok:
  "shutdown_signal registration first_signal = Ok () \<longleftrightarrow>
     registration = Ok () \<and> (first_signal = Terminate \<or> first_signal = Ctrl_C (Ok ()))"
  by (cases registration; cases first_signal) (auto simp: shutdown_signal_def)

record ('s, 'w) host =
  exec :: "rstring \<Rightarrow> rstring list \<Rightarrow> (unit, rstring) result"
  link :: "'w env"
  link_world :: 'w
  starting :: "'s startup"
  bind_to :: "rstring \<Rightarrow> (unit, rstring) result"
  event :: "'s event"
  ferrite :: "'s child"
  http_server :: service
  resp_proxy :: service

text \<open>What the launcher returns, the signals it has sent to the child, and, for a run that served, the
  time from the event to the end.\<close>

record outcome =
  returned :: "(unit, rstring) result"
  sent :: "Signal list"
  shutdown_time :: Duration

text \<open>The arm of \<open>select!\<close> for the event: the outcome, the signals, the time, and the tasks left to join.\<close>

definition handle_event ::
    "('s \<Rightarrow> rstring) \<Rightarrow> ('s, 'w) host \<Rightarrow>
     (unit, rstring) result \<times> (Signal list \<times> Duration) \<times> service option \<times> service option" where
  "handle_event show_status h =
     (case event h of
        Child_Exited (Ok status) \<Rightarrow>
          (Err (unexpected_exit_error show_status status), ([], 0), Some (http_server h), Some (resp_proxy h))
      | Child_Exited (Err e) \<Rightarrow>
          (Err (''failed to wait for Ferrite RESP server: '' @ e), ([], 0), Some (http_server h), Some (resp_proxy h))
      | Shutdown_Signal (Ok _) \<Rightarrow> (Ok (), stop (ferrite h), Some (http_server h), Some (resp_proxy h))
      | Shutdown_Signal (Err e) \<Rightarrow> (Err e, ([], 0), Some (http_server h), Some (resp_proxy h))
      | Proxy_Ended r \<Rightarrow>
          (unexpected_service_result r ''public RESP proxy exited unexpectedly'' ''public RESP proxy'',
           stop (ferrite h), Some (http_server h), None)
      | Http_Ended r \<Rightarrow>
          (unexpected_service_result r ''HTTP playground server exited unexpectedly'' ''HTTP playground'',
           stop (ferrite h), None, Some (resp_proxy h)))"

text \<open>\<open>Result::and\<close>.\<close>

fun and_result :: "(unit, 'e) result \<Rightarrow> (unit, 'e) result \<Rightarrow> (unit, 'e) result" where
  "and_result (Ok _) r = r"
| "and_result (Err e) r = Err e"

definition serve_until_event :: "('s \<Rightarrow> rstring) \<Rightarrow> ('s, 'w) host \<Rightarrow> outcome" where
  "serve_until_event show_status h =
     (let (r, (signals, t), http, proxy) = handle_event show_status h;
          ((http_result, proxy_result), t') = join_services http proxy
      in \<lparr>returned = and_result (and_result r http_result) proxy_result, sent = signals, shutdown_time = t + t'\<rparr>)"

text \<open>A run that fails before it serves stops the child when it has one.\<close>

definition fail_startup :: "'s child \<Rightarrow> rstring \<Rightarrow> outcome" where
  "fail_startup c e = (case stop c of (signals, t) \<Rightarrow> \<lparr>returned = Err e, sent = signals, shutdown_time = t\<rparr>)"

definition ready_result :: "('s \<Rightarrow> rstring) \<Rightarrow> ('s, 'w) host \<Rightarrow> (unit, rstring) result" where
  "ready_result show_status h = fst (wait_for_ready show_status (link h) (starting h) 0 (link_world h))"

definition run :: "('s \<Rightarrow> rstring) \<Rightarrow> ('s, 'w) host \<Rightarrow> outcome" where
  "run show_status h =
     (case spawn (exec h) of
        Err e \<Rightarrow> \<lparr>returned = Err e, sent = [], shutdown_time = 0\<rparr>
      | Ok _ \<Rightarrow>
          (case ready_result show_status h of
             Err e \<Rightarrow> fail_startup (ferrite h) e
           | Ok _ \<Rightarrow>
               (case bind_to h HTTP_ADDR of
                  Err e \<Rightarrow> fail_startup (ferrite h) (''failed to bind HTTP playground to '' @ HTTP_ADDR @ '': '' @ e)
                | Ok _ \<Rightarrow>
                    (case bind_to h PUBLIC_RESP_ADDR of
                       Err e \<Rightarrow>
                         fail_startup (ferrite h)
                           (''failed to bind the public RESP proxy to '' @ PUBLIC_RESP_ADDR @ '': '' @ e)
                     | Ok _ \<Rightarrow> serve_until_event show_status h))))"

text \<open>The process's exit code, and what it prints.\<close>

datatype ExitCode = SUCCESS | FAILURE

definition main :: "('s \<Rightarrow> rstring) \<Rightarrow> ('s, 'w) host \<Rightarrow> ExitCode \<times> rstring list" where
  "main show_status h =
     (case returned (run show_status h) of
        Ok _ \<Rightarrow> (SUCCESS, [])
      | Err e \<Rightarrow> (FAILURE, [''playground launcher error: '' @ e]))"

section \<open>Time\<close>

lemma join_service_time: "join_service task grace label = (r, t) \<Longrightarrow> t \<le> grace + SERVICE_ABORT_REAP_TIMEOUT"
proof (cases task)
  case (Some s)
  assume "join_service task grace label = (r, t)"
  with Some show ?thesis
    by (cases rule: timeout_cases [of grace "ends_by_itself s"];
        cases rule: timeout_cases [of SERVICE_ABORT_REAP_TIMEOUT "ends_when_aborted s"])
      (auto simp: join_service_def less_eq_Duration_def split: result.split_asm)
qed (simp add: join_service_def less_eq_Duration_def)

lemma join_services_time:
  "join_services http proxy = (r, t) \<Longrightarrow> t \<le> SERVICE_SHUTDOWN_TIMEOUT + SERVICE_ABORT_REAP_TIMEOUT"
  by (auto simp: join_services_def split: prod.split_asm dest!: join_service_time)

lemma stop_with_timeout_time: "stop_with_timeout c grace = (r, signals, t) \<Longrightarrow> t \<le> grace + KILL_REAP_TIMEOUT"
  using stop_outcome by blast

lemma stop_time: "stop c = (signals, t) \<Longrightarrow> t \<le> SHUTDOWN_TIMEOUT + KILL_REAP_TIMEOUT"
  by (auto simp: stop_def split: prod.split_asm dest: stop_with_timeout_time)

lemma handle_event_time:
  "handle_event show_status h = (r, (signals, t), tasks) \<Longrightarrow> t \<le> SHUTDOWN_TIMEOUT + KILL_REAP_TIMEOUT"
  by (cases "stop (ferrite h)")
    (auto simp: handle_event_def less_eq_Duration_def split: event.split_asm result.split_asm dest: stop_time)

lemma serve_until_event_time: "shutdown_time (serve_until_event show_status h) \<le> MAX_INTERNAL_SHUTDOWN_BUDGET"
proof -
  obtain r signals t http proxy where h: "handle_event show_status h = (r, (signals, t), http, proxy)"
    by (metis prod.exhaust)
  obtain results t' where j: "join_services http proxy = (results, t')" by (cases "join_services http proxy")
  from handle_event_time [OF h] join_services_time [OF j] show ?thesis
    by (cases results) (simp add: serve_until_event_def h j less_eq_Duration_def limits)
qed

lemma fail_startup_time: "shutdown_time (fail_startup c e) \<le> SHUTDOWN_TIMEOUT + KILL_REAP_TIMEOUT"
  by (cases "stop c") (simp add: fail_startup_def stop_time)

text \<open>C15: from the event that ends it (or the failure of its startup) the launcher needs at most its budget of
  seven seconds to stop the child and both services, which is below the ten seconds Docker waits
  before it kills a container.\<close>

theorem shutdown_within_budget:
  "shutdown_time (run show_status h) \<le> MAX_INTERNAL_SHUTDOWN_BUDGET \<and>
   shutdown_time (run show_status h) < from_secs 10"
proof -
  have "shutdown_time (fail_startup (ferrite h) e) \<le> MAX_INTERNAL_SHUTDOWN_BUDGET" for e
    using fail_startup_time [of "ferrite h" e] by (simp add: less_eq_Duration_def limits)
  then have "shutdown_time (run show_status h) \<le> MAX_INTERNAL_SHUTDOWN_BUDGET"
    by (simp add: run_def serve_until_event_time split: result.split) (simp add: less_eq_Duration_def)
  then show ?thesis by (simp add: less_eq_Duration_def less_Duration_def limits)
qed

section \<open>The exit code\<close>

fun ends_cleanly :: "joined future \<Rightarrow> bool" where
  "ends_cleanly (After t (Ok r)) \<longleftrightarrow> t \<le> SERVICE_SHUTDOWN_TIMEOUT \<and> r = Ok ()"
| "ends_cleanly (After t (Err e)) \<longleftrightarrow> t \<le> SERVICE_SHUTDOWN_TIMEOUT \<and> is_cancelled e"
| "ends_cleanly Never \<longleftrightarrow> False"

lemma join_service_Ok:
  "fst (join_service (Some s) SERVICE_SHUTDOWN_TIMEOUT label) = Ok () \<longleftrightarrow> ends_cleanly (ends_by_itself s)"
  by (cases "ends_by_itself s" rule: ends_cleanly.cases) (auto simp: join_service_def split: option.split prod.split)

lemma and_result_Ok [simp]: "and_result r r' = Ok () \<longleftrightarrow> r = Ok () \<and> r' = Ok ()"
  by (cases r) auto

lemma serve_until_event_Ok:
  "returned (serve_until_event show_status h) = Ok () \<longleftrightarrow>
   event h = Shutdown_Signal (Ok ()) \<and> ends_cleanly (ends_by_itself (http_server h)) \<and>
   ends_cleanly (ends_by_itself (resp_proxy h))"
  unfolding join_service_Ok [symmetric, of "http_server h" "''HTTP playground''"]
    join_service_Ok [symmetric, of "resp_proxy h" "''public RESP proxy''"]
  by (auto simp: serve_until_event_def handle_event_def join_services_def unexpected_service_result_def
      split: event.split result.split prod.split)

text \<open>C25: the launcher exits with success in exactly one situation: the child started and answered, both
  listeners were bound, a shutdown was requested, and both services then ended by themselves in
  time and without an error.  An exit of the child, even with status 0, is always a failure.\<close>

theorem success_iff_requested_shutdown:
  "fst (main show_status h) = SUCCESS \<longleftrightarrow>
   spawn (exec h) = Ok () \<and> ready_result show_status h = Ok () \<and>
   bind_to h HTTP_ADDR = Ok () \<and> bind_to h PUBLIC_RESP_ADDR = Ok () \<and>
   event h = Shutdown_Signal (Ok ()) \<and> ends_cleanly (ends_by_itself (http_server h)) \<and>
   ends_cleanly (ends_by_itself (resp_proxy h))"
proof -
  have "fst (main show_status h) = SUCCESS \<longleftrightarrow> returned (run show_status h) = Ok ()"
    by (simp add: main_def split: result.split)
  also have "\<dots> \<longleftrightarrow>
     spawn (exec h) = Ok () \<and> ready_result show_status h = Ok () \<and>
     bind_to h HTTP_ADDR = Ok () \<and> bind_to h PUBLIC_RESP_ADDR = Ok () \<and>
     returned (serve_until_event show_status h) = Ok ()"
    by (simp add: run_def fail_startup_def split: result.split prod.split)
  finally show ?thesis by (simp only: serve_until_event_Ok)
qed

section \<open>The child is never left behind\<close>

text \<open>The events after which the launcher has nothing to signal: the child is gone, or waiting for it or
  for a signal has failed (then only \<open>kill_on_drop\<close> ends the child).\<close>

fun stops_child :: "'s event \<Rightarrow> bool" where
  "stops_child (Child_Exited _) = False"
| "stops_child (Shutdown_Signal r) = (r = Ok ())"
| "stops_child (Proxy_Ended _) = True"
| "stops_child (Http_Ended _) = True"

lemma serve_until_event_sent:
  "sent (serve_until_event show_status h) = (if stops_child (event h) then fst (stop (ferrite h)) else [])"
  by (simp add: serve_until_event_def handle_event_def split: event.split result.split prod.split)

text \<open>The launcher leaves no child behind: whenever it ends after it has started one, it has gone
  through the stop sequence, except when the child is already gone or the signal handler could not
  be installed; and it never signals a child that it did not start.\<close>

theorem child_stopped_on_every_path:
  "sent (run show_status h) =
     (if spawn (exec h) \<noteq> Ok () then []
      else if ready_result show_status h \<noteq> Ok () \<or> bind_to h HTTP_ADDR \<noteq> Ok () \<or>
        bind_to h PUBLIC_RESP_ADDR \<noteq> Ok () \<or> stops_child (event h) then fst (stop (ferrite h))
      else [])"
  by (simp add: run_def fail_startup_def serve_until_event_sent split: result.split prod.split)

end
