(* ===== verification/Launcher_Tests.thy ===== *)
theory Launcher_Tests
  imports Launcher Launcher_Text
begin

text \<open>
  The repository's own tests of the launcher and the supervisor (modules \<open>tests\<close> of \<open>main.rs\<close> and
  \<open>supervisor.rs\<close>), each as a predicate on the model, and that it holds.  What a service task or a
  child process of a test does is a parameter with what the test makes it do as a hypothesis of
  the predicate; joining a service takes its handle, so that a second join meets none.
\<close>

section \<open>Services\<close>

text \<open>A task that completes at once, and one that completes only when it is aborted.\<close>

definition completed :: "(unit, rstring) result \<Rightarrow> service" where
  "completed r = \<lparr>ends_by_itself = After 0 (Ok r), ends_when_aborted = After 0 (Ok r)\<rparr>"

definition pending_task :: "service \<Rightarrow> bool" where
  "pending_task task \<longleftrightarrow>
     ends_by_itself task = Never \<and> in_time SERVICE_ABORT_REAP_TIMEOUT (ends_when_aborted task)"

fun error_contains :: "rstring \<Rightarrow> ('a, rstring) result \<Rightarrow> bool" where
  "error_contains part (Err e) = contains part e"
| "error_contains part (Ok _) = False"

definition cleanup_consumes_a_service_handle_only_once :: bool where
  "cleanup_consumes_a_service_handle_only_once \<longleftrightarrow>
     fst (join_service (Some (completed (Ok ()))) (from_secs 1) ''test service'') = Ok () \<and>
     fst (join_service None (from_secs 1) ''test service'') = Ok ()"

definition total_internal_shutdown_budget_stays_below_docker_default :: bool where
  "total_internal_shutdown_budget_stays_below_docker_default \<longleftrightarrow>
     SHUTDOWN_TIMEOUT = from_secs 5 \<and>
     MAX_INTERNAL_SHUTDOWN_BUDGET =
       SHUTDOWN_TIMEOUT + KILL_REAP_TIMEOUT + SERVICE_SHUTDOWN_TIMEOUT + SERVICE_ABORT_REAP_TIMEOUT \<and>
     MAX_INTERNAL_SHUTDOWN_BUDGET < from_secs 10"

definition remaining_service_tasks_are_joined_and_reaped_together :: "service \<Rightarrow> service \<Rightarrow> bool" where
  "remaining_service_tasks_are_joined_and_reaped_together http resp \<longleftrightarrow>
     (pending_task http \<and> pending_task resp \<longrightarrow>
        (let ((http_joined, resp_joined), t) = join_services (Some http) (Some resp) in
         t \<le> from_secs 2 \<and> error_contains ''HTTP playground'' http_joined \<and>
         error_contains ''public RESP proxy'' resp_joined))"

definition selected_service_errors_are_preserved_without_polling_again :: bool where
  "selected_service_errors_are_preserved_without_polling_again \<longleftrightarrow>
     unexpected_service_result (Ok (Err ''original service error'')) ''public RESP proxy exited unexpectedly''
       ''public RESP proxy'' = Err ''original service error'' \<and>
     fst (join_service None (from_millis 10) ''public RESP proxy'') = Ok ()"

definition unexpected_clean_http_and_resp_exits_keep_the_service_name :: bool where
  "unexpected_clean_http_and_resp_exits_keep_the_service_name \<longleftrightarrow>
     unexpected_service_result (Ok (Ok ())) ''HTTP playground server exited unexpectedly'' ''HTTP playground'' =
       Err ''HTTP playground server exited unexpectedly'' \<and>
     unexpected_service_result (Ok (Ok ())) ''public RESP proxy exited unexpectedly'' ''public RESP proxy'' =
       Err ''public RESP proxy exited unexpectedly''"

section \<open>The child\<close>

definition child_is_bound_to_the_internal_loopback_port_only :: bool where
  "child_is_bound_to_the_internal_loopback_port_only \<longleftrightarrow>
     INTERNAL_RESP_BIND = ''127.0.0.1'' \<and> INTERNAL_RESP_PORT = ''6380'' \<and>
     INTERNAL_RESP_ADDR = INTERNAL_RESP_BIND @ '':'' @ INTERNAL_RESP_PORT \<and>
     INTERNAL_RESP_PORT \<noteq> ''6379'' \<and> SHUTDOWN_TIMEOUT = from_secs 5"

definition any_unsolicited_child_exit_is_an_error_even_when_successful :: "('s \<Rightarrow> rstring) \<Rightarrow> 's \<Rightarrow> bool" where
  "any_unsolicited_child_exit_is_an_error_even_when_successful show_status status \<longleftrightarrow>
     contains ''without a launcher-initiated shutdown'' (unexpected_exit_error show_status status)"

text \<open>The test child runs and can be signalled; what it does then is its trap.\<close>

definition ready_child :: "'s child \<Rightarrow> bool" where
  "ready_child c \<longleftrightarrow> try_wait c = Ok None \<and> process_id c \<noteq> None \<and> on_sigterm c = Ok () \<and> on_sigkill c = Ok ()"

definition sends_sigterm_and_reaps_cooperative_child :: "'s child \<Rightarrow> Duration \<Rightarrow> 's \<Rightarrow> bool" where
  "sends_sigterm_and_reaps_cooperative_child c t status \<longleftrightarrow>
     (ready_child c \<and> exit_after_sigterm c = After t (Ok status) \<and> t \<le> from_secs 1 \<longrightarrow>
        stop_with_timeout c (from_secs 1) = (Ok status, [SIGTERM], t))"

definition escalates_to_sigkill_and_reaps_uncooperative_child :: "'s child \<Rightarrow> Duration \<Rightarrow> 's \<Rightarrow> bool" where
  "escalates_to_sigkill_and_reaps_uncooperative_child c t status \<longleftrightarrow>
     (ready_child c \<and> exit_after_sigterm c = Never \<and> exit_after_sigkill c = After t (Ok status) \<and> t \<le> KILL_REAP_TIMEOUT \<longrightarrow>
        (case stop_with_timeout c (from_millis 100) of
           (r, signals, took) \<Rightarrow> r = Ok status \<and> signals = [SIGTERM, SIGKILL] \<and> took \<le> from_secs 1))"

section \<open>Their results\<close>

lemma service_tests_hold:
  cleanup_consumes_a_service_handle_only_once
  total_internal_shutdown_budget_stays_below_docker_default
  selected_service_errors_are_preserved_without_polling_again
  unexpected_clean_http_and_resp_exits_keep_the_service_name
  by (simp_all add: cleanup_consumes_a_service_handle_only_once_def completed_def join_service_def
      total_internal_shutdown_budget_stays_below_docker_default_def
      selected_service_errors_are_preserved_without_polling_again_def
      unexpected_clean_http_and_resp_exits_keep_the_service_name_def unexpected_service_result_def
      limits less_eq_Duration_def less_Duration_def from_secs_def from_millis_def plus_Duration_def zero_Duration_def)

lemma join_pending:
  assumes "pending_task task"
  shows "\<exists>t \<le> SERVICE_ABORT_REAP_TIMEOUT. join_service (Some task) grace label =
    (Err (''timed out waiting for '' @ label @ '' shutdown''), grace + t)"
  using assms by (cases "ends_when_aborted task") (auto simp: pending_task_def join_service_def less_eq_Duration_def)

lemma reaped_together_holds: "remaining_service_tasks_are_joined_and_reaped_together http resp"
proof -
  have "t \<le> from_secs 2 \<and> error_contains ''HTTP playground'' h \<and> error_contains ''public RESP proxy'' p"
    if tasks: "pending_task http" "pending_task resp" and j: "join_services (Some http) (Some resp) = ((h, p), t)" for h p t
  proof -
    from join_pending [OF tasks(1), of SERVICE_SHUTDOWN_TIMEOUT "''HTTP playground''"] obtain t1 where
      t1: "t1 \<le> SERVICE_ABORT_REAP_TIMEOUT" "join_service (Some http) SERVICE_SHUTDOWN_TIMEOUT ''HTTP playground'' =
        (Err (''timed out waiting for '' @ ''HTTP playground'' @ '' shutdown''), SERVICE_SHUTDOWN_TIMEOUT + t1)" by blast
    from join_pending [OF tasks(2), of SERVICE_SHUTDOWN_TIMEOUT "''public RESP proxy''"] obtain t2 where
      t2: "t2 \<le> SERVICE_ABORT_REAP_TIMEOUT" "join_service (Some resp) SERVICE_SHUTDOWN_TIMEOUT ''public RESP proxy'' =
        (Err (''timed out waiting for '' @ ''public RESP proxy'' @ '' shutdown''), SERVICE_SHUTDOWN_TIMEOUT + t2)" by blast
    from j t1 t2 show ?thesis
      by (auto simp: join_services_def less_eq_Duration_def limits)
  qed
  then show ?thesis
    by (auto simp: remaining_service_tasks_are_joined_and_reaped_together_def split: prod.split)
qed

lemma bound_test_holds: child_is_bound_to_the_internal_loopback_port_only
  by (simp add: child_is_bound_to_the_internal_loopback_port_only_def INTERNAL_RESP_ADDR_def INTERNAL_RESP_BIND_def
      INTERNAL_RESP_PORT_def SHUTDOWN_TIMEOUT_def)

lemma unsolicited_test_holds: "any_unsolicited_child_exit_is_an_error_even_when_successful show_status status"
  unfolding any_unsolicited_child_exit_is_an_error_even_when_successful_def contains_iff unexpected_exit_error_def
  by (rule exI [of _ "''Ferrite RESP server exited ''"]) simp

lemma cooperative_test_holds: "sends_sigterm_and_reaps_cooperative_child c t status"
  by (auto simp: sends_sigterm_and_reaps_cooperative_child_def ready_child_def stop_with_timeout_def)

lemma uncooperative_test_holds: "escalates_to_sigkill_and_reaps_uncooperative_child c t status"
  by (auto simp: escalates_to_sigkill_and_reaps_uncooperative_child_def ready_child_def stop_with_timeout_def escalate_def
      less_eq_Duration_def limits)

end
