(* ===== verification/Spec2Isabelle.thy ===== *)
theory Spec2Isabelle
  imports Command_Tests Policy_Tests Policy_Rules Resp_Tests Client_Tests Http_Tests_Hold Json_Types Proxy_Props Proxy_Serve End_To_End
    Clocked_Link Http_Router Http_Listener Launcher_Tests
begin

text \<open>
  The verification development of the Ferrite playground launcher (\<open>src/playground-launcher\<close>), the Rust
  program of this repository.

  THE PROGRAM.  The launcher runs one Ferrite server as a child that listens on a loopback port
  only, and puts two public entry points in front of it: a Redis-compatible RESP proxy and an HTTP
  API.  Both decide every command with one allowlist, both bound what they read, hold and write,
  and both share one pool of backend permits.  A supervisor starts, probes and stops the child.

  Commands flow \<open>client \<rightarrow> read_request \<rightarrow> classify_bytes_arguments \<rightarrow> forward \<rightarrow> read_value \<rightarrow>
  encode_value \<rightarrow> client\<close> on the proxy and \<open>request \<rightarrow> parse \<rightarrow> classify_arguments \<rightarrow> execute \<rightarrow>
  to_json_with_budget \<rightarrow> api_response\<close> on the HTTP side; key pages send fixed commands of their own.

  THEORIES AND SOURCES.  Below \<open>src/playground-launcher/src\<close>:

  Language and library.  \<open>Launcher_Prelude\<close>: bytes, strings as UTF-8 byte lists, \<open>result\<close>, machine
  integers.  \<open>Rust_Utf8\<close>: the UTF-8 scanner behind \<open>from_utf8\<close>, \<open>from_utf8_lossy\<close>, \<open>trim\<close> and case
  mapping.  \<open>Rust_Numbers\<close>: printing and parsing of integers and finite floats.  \<open>Io_Stream\<close>: an
  input stream as the bytes that will arrive and what follows them (closed, failed, silent).
  \<open>Timing\<close>: \<open>Duration\<close>, operations that take time, \<open>timeout\<close>.  \<open>Launcher_Text\<close>: substring search.

  Protocol (\<open>resp.rs\<close>).  \<open>Resp_Limits\<close>: the limits.  \<open>Budget\<close>: \<open>ResponseBudget\<close> and the locale \<open>meter\<close> that
  every bounded counter and buffer of the program is an interpretation of.  \<open>Resp_Value\<close>: values,
  \<open>encode_command\<close>, \<open>encode_value\<close> and its refinement of the wire format \<open>wire\<close>.  \<open>Resp_Decode\<close>:
  \<open>read_value_budgeted\<close>.  \<open>Resp_Roundtrip\<close>, \<open>Resp_Sound\<close>: decoding against encoding, budgets and bounds.  \<open>Resp_Refusal\<close>: which replies are refused.  \<open>Frame_Codec\<close>: the locale of self-delimiting frames, interpreted for replies and
  requests.  \<open>Base64\<close>, \<open>Resp_Json\<close>, \<open>Resp_Json_Props\<close>, \<open>Json_Types\<close>: conversion to JSON within a byte budget.
  \<open>Child_Link\<close>: the environment \<open>env\<close> the child, the network and the clients are.  \<open>Resp_Client\<close>:
  \<open>execute_within\<close>.

  Policy (\<open>policy.rs\<close>).  \<open>Policy_Validators\<close>, \<open>Policy\<close>: every validator, the table, both entry points.
  \<open>Policy_Properties\<close>, \<open>Policy_Bounds\<close>, \<open>Policy_Rules\<close>: what it allows and refuses.  \<open>Forwarding\<close>: the set
  \<open>allowed_requests\<close> that everything sent to the child is measured against.

  Command line (\<open>command.rs\<close>).  \<open>Command_Line\<close>: the tokenizer and its properties.

  Proxy (\<open>proxy.rs\<close>).  \<open>Proxy_Request\<close>, \<open>Proxy_Request_Props\<close>: \<open>read_request\<close> and the shared byte
  budget.  \<open>Timed_Read\<close>, \<open>Timed_Request\<close>, \<open>Timed_Reply\<close>: the same readers on streams whose bytes arrive in
  time, with their deadlines.  \<open>Timed_Connection\<close>, \<open>Clocked_Link\<close>: the iteration of a connection with all
  its deadlines, and its refinement to the untimed one.  \<open>Proxy\<close>, \<open>Proxy_Props\<close>: \<open>forward\<close> and the loop of
  \<open>handle_connection\<close>, one \<open>handle_step\<close> per iteration.  \<open>Proxy_System\<close>: the permits of the whole launcher as a step relation over interleaved
  tasks.  \<open>Proxy_Serve\<close>: the accept loop, which implements the connection part of that system.

  HTTP (\<open>http.rs\<close>, \<open>keys.rs\<close>).  \<open>Keys\<close>, \<open>Keys_Props\<close>: key pages.  \<open>Http\<close>, \<open>Http_Props\<close>: the handlers, the
  reply envelope and its bounded buffer.  \<open>Index_Page\<close>: the static page.  \<open>Http_Router\<close>: the routes and
  the body limit.  \<open>Http_Listener\<close>: connection permits and lifetime.

  Lifecycle (\<open>supervisor.rs\<close>, \<open>main.rs\<close>).  \<open>Supervisor\<close>: start, readiness, signals.  \<open>Launcher\<close>: \<open>run\<close>,
  its four events, the joining of the services, the exit code.

  Tests (\<open>testing.rs\<close>).  \<open>Mock_Ferrite\<close>: the in-process child with its data and connection loop, and the
  test client.  \<open>Mock_Ferrite_Props\<close>, \<open>End_To_End\<close>, \<open>Http_Session\<close>: the key pages, the proxy and the HTTP
  service run against it.  \<open>Small_Replies\<close>: replies that are certain to fit every budget.  \<open>Command_Tests\<close>, \<open>Policy_Tests\<close>,
  \<open>Resp_Tests\<close>, \<open>Client_Tests\<close>, \<open>Proxy_Tests\<close> with \<open>Proxy_Tests_Hold\<close>, \<open>Keys_Tests\<close>, \<open>Http_Tests\<close> with
  \<open>Http_Tests_Hold\<close>, \<open>Launcher_Tests\<close>: the repository's own tests as predicates, each shown to hold.

  WHAT IS PROVED.  Safety at the child: on either entry point and for every behaviour of client,
  child and network only encodings of allowed commands are sent, and only two routes reach it at all
  (C1, C4, C19, C32).  Transparency: the proxy simulates a connection of the client's own to the
  child (C2, C3), and a refused command leaves no trace on the connection (C36); HTTP commands and key pages
  show what the child answers and holds (C9, C14, C23).
  Codecs: round trips, the refinement of the stepwise encoder and the exact set of replies the decoder accepts (C6,
  C12, C17, C27, C29).  Types: every reply that converts becomes JSON of one fixed shape (C18).
  Bounds: reply budgets, request memory, JSON text, bodies, connection lifetime, shutdown time (C5,
  C13, C15, C24, C26, C28, C33).  Time: the iteration with its deadlines refines the untimed one and
  ends in time (C16).  Resources: permits are conserved in every reachable state, come back, and can
  always all come back (C7, C20, C30, C31).  Policy: the decision characterised, both entry points
  equal (C8, C10, C11).  Errors: no panic, upstream failures (C21, C22).  Lifecycle: C25, C34.
  Completion: C35.  Four claims, C37 to C40, prove behaviour the code does not intend.

  TERMINATION AND BOUNDS.  Nothing uses fuel.  The decoder recurses on a budget of nodes and on the
  number of children left; the tokenizer on the line; \<open>read_arguments\<close> on the announced count; the
  connection loops (\<open>handle_connection\<close>, \<open>serve_connection\<close>) on the bytes left on the client's stream,
  of which every iteration that goes on takes one; \<open>wait_for_ready\<close> on the time left until its
  deadline.  The witnesses evaluate the definitions by simplification.

  ASSUMPTIONS.  Streams follow tokio's documentation of \<open>read_until\<close>, \<open>read_exact\<close> and \<open>write_all\<close>; a
  dropped semaphore permit returns to its pool.  What is outside the repository is a parameter:
  \<open>env\<close> (child, network, client), \<open>child\<close>, \<open>startup\<close> and \<open>host\<close> (processes, signals, listeners, time),
  \<open>tcp\<close> (a socket), \<open>axum\<close> (the routing and extraction of the web framework, with its documented
  behaviour as the hypothesis \<open>documented_axum\<close>; the tests of the HTTP service assume in
  \<open>documented_web\<close> also that the JSON library reads back what it wrote), \<open>to_text\<close>, \<open>pieces\<close> and \<open>show_debug\<close> (\<open>serde_json\<close> and the derived \<open>Debug\<close>).
  The child of C2, C9 and C23 is the one of the test suite.  The JSON text of a reply is bounded (C14,
  C23, C28) where the library prints no finite floating-point number longer than the child sent it,
  since the code charges the text it received.  The system of permits (\<open>Proxy_System\<close>) is an abstraction of
  its own: \<open>serve\<close> is shown to implement its connection part, the iteration of a connection is not.

  NOT MODELLED.  Log output, including the byte count \<open>forward\<close> adds to a logged error; response
  headers; the scheduler, wakers and channels of the runtime; time
  inside a connection of the HTTP side, where a stalled operation is the value \<open>Hang\<close> that its deadline
  turns into an error; \<open>kill_on_drop\<close>; failed
  allocations; \<open>TCP_NODELAY\<close> and socket shutdown.  Of the unit tests, those that
  inspect a budget or a buffer after a failed operation, two of the proxy that look at a permit while
  an operation still waits, and the one of sixteen HTTP requests at once.  The scripts, Terraform, Helm charts, dashboards and packaging of the repository are
  configuration without Rust code.
\<close>

end
